(* ===== verification/Prelude.thy ===== *)
theory Prelude
  imports Main "HOL-Library.Word"
begin

text \<open>
  The shared vocabulary of the development.

  A Go function that returns \<open>(T, error)\<close> is modelled as a function into the sum type
  \<open>'e + 'a\<close>: \<open>Inl\<close> carries the error, \<open>Inr\<close> the value. \<open>bind_sum\<close> is the early return
  \<open>if err != nil { return err }\<close>, \<open>check\<close> a guard that returns an error when its condition
  fails, and \<open>fold_sum\<close> a \<open>for\<close> loop whose body may return early. The collection
  \<open>sum_elims\<close> holds the inversion rules that read off, from a successful run, what every
  step of it returned; most proofs of the development start from them.

  A Go \<open>[]byte\<close> is a list of 8-bit words, a Go \<open>string\<close> a list of characters (one per byte).
  A nilable pointer or slice is an \<open>option\<close>, \<open>nil\<close> being \<open>None\<close>.
\<close>

section \<open>Types\<close>

type_synonym byte = "8 word"
type_synonym bytes = "byte list"
type_synonym u64 = "64 word"
type_synonym u32 = "32 word"

text \<open>The conversion \<open>[]byte(s)\<close>.\<close>

definition bytes_of_string :: "string \<Rightarrow> bytes" where
  "bytes_of_string s = map of_char s"

section \<open>Results and early returns\<close>

named_theorems sum_elims \<open>inversion of successful and failing runs\<close>

definition bind_sum :: "'e + 'a \<Rightarrow> ('a \<Rightarrow> 'e + 'b) \<Rightarrow> 'e + 'b" where
  "bind_sum m f = (case m of Inl e \<Rightarrow> Inl e | Inr a \<Rightarrow> f a)"

definition check :: "bool \<Rightarrow> 'e \<Rightarrow> 'e + unit" where
  "check c e = (if c then Inr () else Inl e)"

fun fold_sum :: "('a \<Rightarrow> 's \<Rightarrow> 'e + 's) \<Rightarrow> 'a list \<Rightarrow> 's \<Rightarrow> 'e + 's" where
  "fold_sum f [] s = Inr s"
| "fold_sum f (x # xs) s = bind_sum (f x s) (fold_sum f xs)"

fun map_sum_list :: "('a \<Rightarrow> 'e + 'b) \<Rightarrow> 'a list \<Rightarrow> 'e + 'b list" where
  "map_sum_list f [] = Inr []"
| "map_sum_list f (x # xs) =
     bind_sum (f x) (\<lambda>y. bind_sum (map_sum_list f xs) (\<lambda>ys. Inr (y # ys)))"

definition wrap_err :: "('e \<Rightarrow> 'f) \<Rightarrow> 'e + 'a \<Rightarrow> 'f + 'a" where
  "wrap_err w m = (case m of Inl e \<Rightarrow> Inl (w e) | Inr a \<Rightarrow> Inr a)"

definition is_ok :: "'e + 'a \<Rightarrow> bool" where
  "is_ok m = (case m of Inl _ \<Rightarrow> False | Inr _ \<Rightarrow> True)"

lemma bind_sum_simps [simp]:
  "bind_sum (Inl e) f = Inl e"
  "bind_sum (Inr a) f = f a"
  by (simp_all add: bind_sum_def)

lemma bind_sum_eq_Inr [sum_elims]:
  "bind_sum m f = Inr b \<longleftrightarrow> (\<exists>a. m = Inr a \<and> f a = Inr b)"
  by (cases m) simp_all

lemma bind_sum_eq_Inl:
  "bind_sum m f = Inl e \<longleftrightarrow> m = Inl e \<or> (\<exists>a. m = Inr a \<and> f a = Inl e)"
  by (cases m) simp_all

lemma bind_sum_assoc: "bind_sum (bind_sum m f) g = bind_sum m (\<lambda>a. bind_sum (f a) g)"
  by (cases m) simp_all

lemma bind_sum_cong [fundef_cong]:
  "m = m' \<Longrightarrow> (\<And>a. m' = Inr a \<Longrightarrow> f a = f' a) \<Longrightarrow> bind_sum m f = bind_sum m' f'"
  by (cases m') simp_all

lemma check_simps [simp]:
  "check True e = Inr ()"
  "check False e = Inl e"
  by (simp_all add: check_def)

lemma check_eq_Inr [sum_elims]: "check c e = Inr u \<longleftrightarrow> c"
  by (simp add: check_def)

lemma check_eq_Inl: "check c e = Inl e' \<longleftrightarrow> \<not> c \<and> e' = e"
  by (auto simp: check_def)

lemma wrap_err_simps [simp]:
  "wrap_err w (Inl e) = Inl (w e)"
  "wrap_err w (Inr a) = Inr a"
  by (simp_all add: wrap_err_def)

lemma wrap_err_eq_Inr [sum_elims]: "wrap_err w m = Inr a \<longleftrightarrow> m = Inr a"
  by (cases m) simp_all

lemma is_ok_simps [simp]: "is_ok (Inl e) = False" "is_ok (Inr a) = True"
  by (simp_all add: is_ok_def)

lemma is_ok_iff: "is_ok m \<longleftrightarrow> (\<exists>a. m = Inr a)"
  by (cases m) simp_all

lemma is_ok_projr: "is_ok m \<Longrightarrow> m = Inr (projr m)"
  by (cases m) simp_all

lemma fold_sum_append:
  "fold_sum f (xs @ ys) s = bind_sum (fold_sum f xs s) (fold_sum f ys)"
  by (induction xs arbitrary: s) (simp_all add: bind_sum_assoc cong: bind_sum_cong)

lemma fold_sum_invariant:
  assumes "fold_sum f xs s = Inr t" and "P s"
    and "\<And>x s t. x \<in> set xs \<Longrightarrow> P s \<Longrightarrow> f x s = Inr t \<Longrightarrow> P t"
  shows "P t"
  using assms
proof (induction xs arbitrary: s)
  case Nil
  then show ?case by simp
next
  case (Cons x xs)
  from Cons.prems(1) obtain u where u: "f x s = Inr u" and rest: "fold_sum f xs u = Inr t"
    by (auto simp: sum_elims)
  have "P u" using Cons.prems(2,3) u by (meson list.set_intros(1))
  then show ?case
    using Cons.IH [OF rest] Cons.prems(3) by (meson list.set_intros(2))
qed

lemma fold_sum_each:
  "fold_sum f xs s = Inr t \<Longrightarrow> x \<in> set xs \<Longrightarrow> \<exists>u v. f x u = Inr v"
  by (induction xs arbitrary: s) (auto simp: sum_elims)

lemma fold_sum_each_rel:
  assumes "fold_sum f xs s = Inr t" and "x \<in> set xs"
    and step: "\<And>x u v. f x u = Inr v \<Longrightarrow> R u v"
    and refl: "\<And>u. R u u" and trans: "\<And>u v w. R u v \<Longrightarrow> R v w \<Longrightarrow> R u w"
  shows "\<exists>u v. f x u = Inr v \<and> R s u \<and> R v t"
  using assms(1,2)
proof (induction xs arbitrary: s)
  case Nil
  then show ?case by simp
next
  case (Cons y ys)
  from Cons.prems(1) obtain u where u: "f y s = Inr u" and rest: "fold_sum f ys u = Inr t"
    by (auto simp: sum_elims)
  have ut: "R u t"
    using rest by (rule fold_sum_invariant [where P = "R u"]) (auto intro: refl dest: step trans)
  show ?case
  proof (cases "x = y")
    case True
    then show ?thesis using u ut refl by blast
  next
    case False
    then obtain a b where "f x a = Inr b" "R u a" "R b t"
      using Cons.IH [OF rest] Cons.prems(2) by auto
    then show ?thesis using step [OF u] trans by blast
  qed
qed

lemma map_sum_list_Inr [sum_elims]:
  "map_sum_list f xs = Inr ys \<longleftrightarrow> list_all2 (\<lambda>x y. f x = Inr y) xs ys"
  by (induction xs arbitrary: ys) (auto simp: bind_sum_eq_Inr list_all2_Cons1)

lemma map_sum_list_ball:
  assumes "map_sum_list f xs = Inr ys" and "\<And>x y. f x = Inr y \<Longrightarrow> P y"
  shows "\<forall>y\<in>set ys. P y"
  using assms by (induction xs arbitrary: ys) (auto simp: bind_sum_eq_Inr)

lemma map_sum_list_roundtrip:
  assumes "\<And>x. x \<in> set xs \<Longrightarrow> \<exists>y. f x = Inr y \<and> g y = Inr x"
  shows "\<exists>ys. map_sum_list f xs = Inr ys \<and> map_sum_list g ys = Inr xs"
  using assms
proof (induction xs)
  case (Cons x xs)
  then obtain y ys where "f x = Inr y" "g y = Inr x" "map_sum_list f xs = Inr ys"
    "map_sum_list g ys = Inr xs"
    by (meson list.set_intros)
  then show ?case by (intro exI [of _ "y # ys"]) simp
qed simp

lemma fold_sum_unit:
  "fold_sum (\<lambda>x _. f x) xs () = Inr u \<longleftrightarrow> (\<forall>x\<in>set xs. f x = Inr ())"
  by (induction xs) (auto simp: sum_elims)

section \<open>Generic lemmas on lists and maps\<close>

lemma ball_enumerate: "(\<forall>x\<in>set (enumerate n xs). P (snd x)) \<longleftrightarrow> (\<forall>x\<in>set xs. P x)"
  by (induction xs arbitrary: n) auto

lemma sum_list_map_filter_split:
  fixes f :: "'a \<Rightarrow> 'b :: comm_monoid_add"
  shows "sum_list (map f xs) =
    sum_list (map f (filter P xs)) + sum_list (map f (filter (\<lambda>x. \<not> P x) xs))"
  by (induction xs) (simp_all add: add.assoc add.left_commute)

lemma enumerate_elem: "e \<in> set (enumerate n xs) \<Longrightarrow> snd e \<in> set xs"
  by (induction xs arbitrary: n) auto

lemma distinct_snoc: "distinct (xs @ [x]) \<longleftrightarrow> distinct xs \<and> x \<notin> set xs"
  by auto

lemma bytes_of_string_simps [simp]:
  "bytes_of_string [] = []"
  "length (bytes_of_string s) = length s"
  "bytes_of_string (s @ s') = bytes_of_string s @ bytes_of_string s'"
  by (simp_all add: bytes_of_string_def)

lemma unat_of_char: "unat (of_char c :: byte) = of_char c"
proof -
  have "unat (of_nat (of_char c) :: byte) = of_char c mod 256"
    by (simp only: unsigned_of_nat take_bit_eq_mod) simp
  then show ?thesis by (simp only: of_char_mod_256 of_nat_of_char)
qed

lemma of_char_byte_inject: "(of_char c :: byte) = of_char c' \<longleftrightarrow> c = c'"
  using unat_of_char by (metis of_char_eq_iff)

lemma bytes_of_string_inject: "bytes_of_string s = bytes_of_string s' \<longleftrightarrow> s = s'"
  unfolding bytes_of_string_def
  by (rule inj_map_eq_map) (simp add: inj_def of_char_byte_inject)

lemma unat_byte_bound: "unat (x :: byte) < 256"
  using unsigned_less [of x] by simp

lemma unat_add_of_nat:
  fixes base :: u64
  assumes "unat base + n < 2 ^ 64"
  shows "unat (base + of_nat n) = unat base + n"
proof -
  have "base + of_nat n = of_nat (unat base + n)" by simp
  then have "unat (base + of_nat n) = (unat base + n) mod 2 ^ 64"
    by (simp only: unsigned_of_nat take_bit_eq_mod) simp
  then show ?thesis using assms by (simp only: mod_less)
qed

end
