(* ===== verification/Quantity.thy ===== *)
theory Quantity
  imports Prelude
begin

text \<open>
  Token quantities (\<open>src/token/token/quantity.go\<close>).

  A quantity is either a 64-bit machine word (\<open>UInt64Quantity\<close>) or an unbounded integer with a
  precision in bits (\<open>BigQuantity\<close>). The theory models the textual scanner the constructors
  use (\<open>big.Int.SetString\<close> with base 0, from the standard library), the constructors with their
  bounds, and \<open>Add\<close>, \<open>Sub\<close>, \<open>Cmp\<close>, \<open>Hex\<close>, \<open>Decimal\<close>, \<open>ToBigInt\<close> and \<open>Clone\<close> on both
  representations. Machine words wrap; the conversion \<open>int(precision)\<close> reads the precision as a
  signed 64-bit value, as Go does.

  The lemmas show that arithmetic on quantities is exact or fails, that comparison agrees with
  the order of the integers across both representations, and that printing and scanning are
  inverse.
\<close>

section \<open>Standard library: scanning and printing integers\<close>

text \<open>The digit value of a character in a base up to 36; 63 stands for "not a digit".\<close>

definition digit_val :: "char \<Rightarrow> nat" where
  "digit_val c =
     (let n = (of_char c :: nat) in
      if 48 \<le> n \<and> n \<le> 57 then n - 48
      else if 97 \<le> n \<and> n \<le> 122 then n - 97 + 10
      else if 65 \<le> n \<and> n \<le> 90 then n - 65 + 10
      else 63)"

text \<open>What the scanner saw last: a digit, a separator, or anything else.\<close>

datatype scan_prev = PrevOther | PrevDigit | PrevSep

text \<open>
  The digit loop of \<open>nat.scan\<close>: accumulated value, number of digits, the last character's kind,
  whether a misplaced separator was seen, and the unread rest.
\<close>

fun scan_digits ::
  "nat \<Rightarrow> string \<Rightarrow> nat \<Rightarrow> nat \<Rightarrow> scan_prev \<Rightarrow> bool \<Rightarrow> nat \<times> nat \<times> scan_prev \<times> bool \<times> string" where
  "scan_digits b [] acc cnt prev inval = (acc, cnt, prev, inval, [])"
| "scan_digits b (c # cs) acc cnt prev inval =
     (if c = CHR ''_'' then scan_digits b cs acc cnt PrevSep (inval \<or> prev \<noteq> PrevDigit)
      else if b \<le> digit_val c then (acc, cnt, prev, inval, c # cs)
      else scan_digits b cs (acc * b + digit_val c) (Suc cnt) PrevDigit inval)"

definition scan_finish ::
  "bool \<Rightarrow> nat \<times> nat \<times> scan_prev \<times> bool \<times> string \<Rightarrow> (nat \<times> string) option" where
  "scan_finish octal r =
     (case r of (acc, cnt, prev, inval, rest) \<Rightarrow>
        if inval \<or> prev = PrevSep then None
        else if cnt = 0 then (if octal then Some (0, rest) else None)
        else Some (acc, rest))"

definition nat_scan :: "string \<Rightarrow> (nat \<times> string) option" where
  "nat_scan s =
     (case s of
        z # c # cs \<Rightarrow>
          if z \<noteq> CHR ''0'' then scan_finish False (scan_digits 10 s 0 0 PrevOther False)
          else if c \<in> {CHR ''b'', CHR ''B''} then scan_finish False (scan_digits 2 cs 0 0 PrevDigit False)
          else if c \<in> {CHR ''o'', CHR ''O''} then scan_finish False (scan_digits 8 cs 0 0 PrevDigit False)
          else if c \<in> {CHR ''x'', CHR ''X''} then scan_finish False (scan_digits 16 cs 0 0 PrevDigit False)
          else scan_finish True (scan_digits 8 (c # cs) 0 0 PrevDigit False)
      | _ \<Rightarrow> scan_finish False (scan_digits 10 s 0 0 PrevOther False))"

text \<open>\<open>big.Int.SetString(s, 0)\<close>: an optional sign, then \<open>nat.scan\<close>, then end of input.\<close>

definition SetString :: "string \<Rightarrow> int option" where
  "SetString s =
     (case s of [] \<Rightarrow> None
      | c # cs \<Rightarrow>
          (case nat_scan (if c = CHR ''-'' \<or> c = CHR ''+'' then cs else s) of
             Some (v, []) \<Rightarrow> Some (if c = CHR ''-'' then - int v else int v)
           | _ \<Rightarrow> None))"

text \<open>The digit table of \<open>strconv\<close> and \<open>math/big\<close>.\<close>

definition digit_char :: "nat \<Rightarrow> char" where
  "digit_char d = ''0123456789abcdefghijklmnopqrstuvwxyz'' ! d"

fun nat_text :: "nat \<Rightarrow> nat \<Rightarrow> string" where
  "nat_text b n =
     (if b < 2 \<or> n < b then [digit_char n] else nat_text b (n div b) @ [digit_char (n mod b)])"

declare nat_text.simps [simp del]

text \<open>\<open>big.Int.Text\<close>, and \<open>strconv.FormatUint\<close> on non-negative values.\<close>

definition int_text :: "nat \<Rightarrow> int \<Rightarrow> string" where
  "int_text b v = (if v < 0 then CHR ''-'' # nat_text b (nat (- v)) else nat_text b (nat v))"

text \<open>\<open>big.Int.BitLen\<close> on the absolute value.\<close>

fun bit_len :: "nat \<Rightarrow> nat" where
  "bit_len n = (if n = 0 then 0 else Suc (bit_len (n div 2)))"

declare bit_len.simps [simp del]

definition BitLen :: "int \<Rightarrow> int" where
  "BitLen v = int (bit_len (nat \<bar>v\<bar>))"

section \<open>Quantities\<close>

datatype quantity =
    BigQuantity int u64
  | UInt64Quantity u64

datatype q_error =
    ErrPrecisionZero
  | ErrInvalidInput string u64
  | ErrNegative
  | ErrExceedsPrecision int u64
  | ErrTypeMismatch
  | ErrOverflow
  | ErrUnderflow

definition validateBigIntForQuantity :: "int \<Rightarrow> u64 \<Rightarrow> q_error + unit" where
  "validateBigIntForQuantity v precision =
     (if v < 0 then Inl ErrNegative
      else if BitLen v > sint precision then Inl (ErrExceedsPrecision (BitLen v) precision)
      else Inr ())"

definition ToQuantity :: "string \<Rightarrow> u64 \<Rightarrow> q_error + quantity" where
  "ToQuantity q precision =
     (if precision = 0 then Inl ErrPrecisionZero
      else case SetString q of
        None \<Rightarrow> Inl (ErrInvalidInput q precision)
      | Some v \<Rightarrow>
          bind_sum (validateBigIntForQuantity v precision) (\<lambda>_.
            Inr (if precision = 64 then UInt64Quantity (of_int v) else BigQuantity v precision)))"

definition UInt64ToQuantity :: "u64 \<Rightarrow> u64 \<Rightarrow> q_error + quantity" where
  "UInt64ToQuantity u precision =
     (if precision = 0 then Inl ErrPrecisionZero
      else if precision = 64 then Inr (UInt64Quantity u)
      else if BitLen (uint u) > sint precision then Inl (ErrExceedsPrecision (BitLen (uint u)) precision)
      else Inr (BigQuantity (uint u) precision))"

definition NewZeroQuantity :: "u64 \<Rightarrow> quantity" where
  "NewZeroQuantity precision =
     (if precision = 64 then UInt64Quantity 0 else BigQuantity 0 precision)"

definition NewOneQuantity :: "u64 \<Rightarrow> quantity" where
  "NewOneQuantity precision =
     (if precision = 64 then UInt64Quantity 1 else BigQuantity 1 precision)"

definition NewUBigQuantity :: "string \<Rightarrow> u64 \<Rightarrow> q_error + quantity" where
  "NewUBigQuantity q precision =
     (if precision = 0 then Inl ErrPrecisionZero
      else case SetString q of
        None \<Rightarrow> Inl (ErrInvalidInput q precision)
      | Some v \<Rightarrow>
          bind_sum (validateBigIntForQuantity v precision) (\<lambda>_. Inr (BigQuantity v precision)))"

definition NewQuantityFromUInt64 :: "u64 \<Rightarrow> quantity" where
  "NewQuantityFromUInt64 q = UInt64Quantity q"

text \<open>
  The methods of the two receivers, then the interface \<open>Quantity\<close> as the dispatch on the receiver.
\<close>

fun BigQuantity_Add :: "int \<Rightarrow> u64 \<Rightarrow> quantity \<Rightarrow> q_error + quantity" where
  "BigQuantity_Add x p (BigQuantity y _) =
     (let s = x + y in
      if BitLen s > sint p then Inl ErrOverflow else Inr (BigQuantity s p))"
| "BigQuantity_Add x p _ = Inl ErrTypeMismatch"

fun BigQuantity_Sub :: "int \<Rightarrow> u64 \<Rightarrow> quantity \<Rightarrow> q_error + quantity" where
  "BigQuantity_Sub x p (BigQuantity y _) =
     (if x < y then Inl ErrUnderflow else Inr (BigQuantity (x - y) p))"
| "BigQuantity_Sub x p _ = Inl ErrTypeMismatch"

text \<open>\<open>big.Int.Cmp\<close>.\<close>

definition int_Cmp :: "int \<Rightarrow> int \<Rightarrow> int" where
  "int_Cmp x y = (if x < y then -1 else if x = y then 0 else 1)"

fun BigQuantity_Cmp :: "int \<Rightarrow> quantity \<Rightarrow> int" where
  "BigQuantity_Cmp x (BigQuantity y _) = int_Cmp x y"
| "BigQuantity_Cmp x (UInt64Quantity y) = (if BitLen x > 64 then 1 else int_Cmp x (uint y))"

fun UInt64Quantity_Add :: "u64 \<Rightarrow> quantity \<Rightarrow> q_error + quantity" where
  "UInt64Quantity_Add x (UInt64Quantity y) =
     (let s = x + y in if s < x then Inl ErrOverflow else Inr (UInt64Quantity s))"
| "UInt64Quantity_Add x _ = Inl ErrTypeMismatch"

fun UInt64Quantity_Sub :: "u64 \<Rightarrow> quantity \<Rightarrow> q_error + quantity" where
  "UInt64Quantity_Sub x (UInt64Quantity y) =
     (if y > x then Inl ErrUnderflow else Inr (UInt64Quantity (x - y)))"
| "UInt64Quantity_Sub x _ = Inl ErrTypeMismatch"

fun UInt64Quantity_Cmp :: "u64 \<Rightarrow> quantity \<Rightarrow> int" where
  "UInt64Quantity_Cmp x (UInt64Quantity y) = (if x < y then -1 else if x > y then 1 else 0)"
| "UInt64Quantity_Cmp x (BigQuantity y _) = (if BitLen y > 64 then -1 else int_Cmp (uint x) y)"

fun Quantity_Add :: "quantity \<Rightarrow> quantity \<Rightarrow> q_error + quantity" where
  "Quantity_Add (BigQuantity x p) b = BigQuantity_Add x p b"
| "Quantity_Add (UInt64Quantity x) b = UInt64Quantity_Add x b"

fun Quantity_Sub :: "quantity \<Rightarrow> quantity \<Rightarrow> q_error + quantity" where
  "Quantity_Sub (BigQuantity x p) b = BigQuantity_Sub x p b"
| "Quantity_Sub (UInt64Quantity x) b = UInt64Quantity_Sub x b"

fun Quantity_Cmp :: "quantity \<Rightarrow> quantity \<Rightarrow> int" where
  "Quantity_Cmp (BigQuantity x _) b = BigQuantity_Cmp x b"
| "Quantity_Cmp (UInt64Quantity x) b = UInt64Quantity_Cmp x b"

fun Quantity_ToBigInt :: "quantity \<Rightarrow> int" where
  "Quantity_ToBigInt (BigQuantity v _) = v"
| "Quantity_ToBigInt (UInt64Quantity u) = uint u"

fun Quantity_Hex :: "quantity \<Rightarrow> string" where
  "Quantity_Hex (BigQuantity v _) = ''0x'' @ int_text 16 v"
| "Quantity_Hex (UInt64Quantity u) = ''0x'' @ int_text 16 (uint u)"

fun Quantity_Decimal :: "quantity \<Rightarrow> string" where
  "Quantity_Decimal (BigQuantity v _) = int_text 10 v"
| "Quantity_Decimal (UInt64Quantity u) = int_text 10 (uint u)"

fun Quantity_Clone :: "quantity \<Rightarrow> quantity" where
  "Quantity_Clone (BigQuantity v p) = BigQuantity v p"
| "Quantity_Clone (UInt64Quantity u) = UInt64Quantity u"

section \<open>Well-formed quantities\<close>

text \<open>
  A quantity is well formed when its value is non-negative and fits the precision it carries;
  \<open>quantity_at p\<close> additionally says that it is in the representation the constructors choose
  for precision \<open>p\<close>.
\<close>

fun wf_quantity :: "quantity \<Rightarrow> bool" where
  "wf_quantity (BigQuantity v p) \<longleftrightarrow> 0 \<le> v \<and> BitLen v \<le> sint p"
| "wf_quantity (UInt64Quantity u) \<longleftrightarrow> True"

fun quantity_at :: "u64 \<Rightarrow> quantity \<Rightarrow> bool" where
  "quantity_at p (BigQuantity v p') \<longleftrightarrow> p' = p \<and> p \<noteq> 64 \<and> 0 \<le> v \<and> BitLen v \<le> sint p"
| "quantity_at p (UInt64Quantity u) \<longleftrightarrow> p = 64"

lemma quantity_at_wf: "quantity_at p q \<Longrightarrow> wf_quantity q"
  by (cases q) simp_all

lemma bit_len_le_iff: "bit_len n \<le> k \<longleftrightarrow> n < 2 ^ k"
proof (induction n arbitrary: k rule: bit_len.induct)
  case (1 n)
  show ?case
  proof (cases "n = 0")
    case True
    then show ?thesis by (subst bit_len.simps) simp
  next
    case False
    show ?thesis
    proof (cases k)
      case 0
      with False show ?thesis by (subst bit_len.simps) simp
    next
      case (Suc m)
      have "bit_len n \<le> k \<longleftrightarrow> bit_len (n div 2) \<le> m"
        using False Suc by (subst bit_len.simps) simp
      also have "\<dots> \<longleftrightarrow> n div 2 < 2 ^ m" using "1.IH" False by simp
      also have "\<dots> \<longleftrightarrow> n < 2 ^ k" using Suc by auto
      finally show ?thesis .
    qed
  qed
qed

lemma BitLen_le_iff:
  "0 \<le> v \<Longrightarrow> BitLen v \<le> int k \<longleftrightarrow> v < 2 ^ k"
  by (simp add: BitLen_def bit_len_le_iff nat_less_iff)

lemma BitLen_le_64: "0 \<le> v \<Longrightarrow> BitLen v \<le> 64 \<longleftrightarrow> v < 2 ^ 64"
  using BitLen_le_iff [of v 64] by simp

lemma BitLen_nonneg: "0 \<le> BitLen v"
  by (simp add: BitLen_def)

lemma sint_64 [simp]: "sint (64 :: u64) = 64"
  by simp

lemma NewZeroQuantity_value [simp]: "Quantity_ToBigInt (NewZeroQuantity p) = 0"
  by (simp add: NewZeroQuantity_def)

lemma wf_quantity_nonneg: "wf_quantity q \<Longrightarrow> 0 \<le> Quantity_ToBigInt q"
  by (cases q) simp_all

section \<open>Printing and scanning are inverse\<close>

lemma digit_char_facts:
  assumes "d < 16"
  shows "digit_val (digit_char d) = d" and "digit_char d \<noteq> CHR ''_''"
    and "digit_char d \<noteq> CHR ''-''" and "digit_char d \<noteq> CHR ''+''"
    and "digit_char d = CHR ''0'' \<longleftrightarrow> d = 0"
proof -
  have "d = 0 \<or> d = 1 \<or> d = 2 \<or> d = 3 \<or> d = 4 \<or> d = 5 \<or> d = 6 \<or> d = 7 \<or>
      d = 8 \<or> d = 9 \<or> d = 10 \<or> d = 11 \<or> d = 12 \<or> d = 13 \<or> d = 14 \<or> d = 15"
    using assms by presburger
  then show "digit_val (digit_char d) = d" and "digit_char d \<noteq> CHR ''_''"
    and "digit_char d \<noteq> CHR ''-''" and "digit_char d \<noteq> CHR ''+''"
    and "digit_char d = CHR ''0'' \<longleftrightarrow> d = 0"
    by (elim disjE; simp add: digit_char_def digit_val_def)+
qed

lemma scan_digits_digit_char:
  "d < b \<Longrightarrow> b \<le> 16 \<Longrightarrow>
   scan_digits b (digit_char d # cs) acc cnt prev inval =
   scan_digits b cs (acc * b + d) (Suc cnt) PrevDigit inval"
  using digit_char_facts [of d] by simp

lemma scan_nat_text:
  assumes "2 \<le> b" and "b \<le> 16"
  shows "scan_digits b (nat_text b n @ rest) acc cnt prev inval =
    scan_digits b rest (acc * b ^ length (nat_text b n) + n)
      (cnt + length (nat_text b n)) PrevDigit inval"
proof (induction n arbitrary: acc cnt prev rest rule: less_induct)
  case (less n)
  show ?case
  proof (cases "n < b")
    case True
    then show ?thesis
      using assms by (simp add: nat_text.simps [of b n] scan_digits_digit_char del: scan_digits.simps(2))
  next
    case False
    with assms have lt: "n div b < n" by (intro div_less_dividend) auto
    have split: "nat_text b n @ rest = nat_text b (n div b) @ digit_char (n mod b) # rest"
      using False assms by (simp add: nat_text.simps [of b n])
    have len: "length (nat_text b n) = Suc (length (nat_text b (n div b)))"
      using False assms by (simp add: nat_text.simps [of b n])
    have "(acc * b ^ length (nat_text b (n div b)) + n div b) * b + n mod b
        = acc * b ^ length (nat_text b n) + (n div b * b + n mod b)"
      by (simp add: len algebra_simps)
    then show ?thesis
      unfolding split less.IH [OF lt]
      using assms by (simp add: scan_digits_digit_char len del: scan_digits.simps(2))
  qed
qed

lemma nat_text_head:
  assumes "2 \<le> b" and "b \<le> 16"
  shows "\<exists>d cs. nat_text b n = digit_char d # cs \<and> d < b \<and> (d = 0 \<longleftrightarrow> n = 0) \<and> (n = 0 \<longrightarrow> cs = [])"
proof (induction n rule: less_induct)
  case (less n)
  show ?case
  proof (cases "n < b")
    case True
    then show ?thesis by (auto simp: nat_text.simps [of b n])
  next
    case False
    with assms have lt: "n div b < n" and nz: "n div b \<noteq> 0" and "n \<noteq> 0"
      by (auto intro: div_less_dividend simp: div_eq_0_iff)
    from less.IH [OF lt] nz obtain d cs where
      "nat_text b (n div b) = digit_char d # cs" "d < b" "d \<noteq> 0" by auto
    with False assms \<open>n \<noteq> 0\<close> show ?thesis by (auto simp: nat_text.simps [of b n])
  qed
qed

lemma scan_finish_nat_text:
  assumes "2 \<le> b" and "b \<le> 16"
  shows "scan_finish False (scan_digits b (nat_text b n) 0 0 prev False) = Some (n, [])"
proof -
  have "0 < length (nat_text b n)" using nat_text_head [OF assms, of n] by auto
  then show ?thesis
    using scan_nat_text [OF assms, of n "[]" 0 0 prev False] by (simp add: scan_finish_def)
qed

lemma nat_scan_decimal: "nat_scan (nat_text 10 n) = Some (n, [])"
proof -
  obtain d cs where t: "nat_text 10 n = digit_char d # cs" and d: "d < 10" "d = 0 \<longleftrightarrow> n = 0"
    and z: "n = 0 \<longrightarrow> cs = []"
    using nat_text_head [of 10 n] by auto
  have "digit_char d = CHR ''0'' \<longleftrightarrow> n = 0" using digit_char_facts(5) [of d] d by simp
  then have "digit_char d \<noteq> CHR ''0'' \<or> cs = []" using z by blast
  then have "nat_scan (nat_text 10 n) = scan_finish False (scan_digits 10 (nat_text 10 n) 0 0 PrevOther False)"
    unfolding nat_scan_def t by (cases cs) (simp_all del: scan_digits.simps)
  then show ?thesis by (simp add: scan_finish_nat_text)
qed

lemma nat_scan_hex: "nat_scan (CHR ''0'' # CHR ''x'' # nat_text 16 n) = Some (n, [])"
  by (simp add: nat_scan_def scan_finish_nat_text)

lemma SetString_decimal: "0 \<le> v \<Longrightarrow> SetString (int_text 10 v) = Some v"
proof -
  assume v: "0 \<le> v"
  obtain d cs where t: "nat_text 10 (nat v) = digit_char d # cs" and d: "d < 10"
    using nat_text_head [of 10 "nat v"] by auto
  have ns: "digit_char d \<noteq> CHR ''-''" "digit_char d \<noteq> CHR ''+''"
    using digit_char_facts(3,4) [of d] d by simp_all
  have "nat_scan (digit_char d # cs) = Some (nat v, [])" using nat_scan_decimal [of "nat v"] t by simp
  then show ?thesis using v ns by (simp add: SetString_def int_text_def t)
qed

lemma SetString_hex: "0 \<le> v \<Longrightarrow> SetString (''0x'' @ int_text 16 v) = Some v"
  by (simp add: SetString_def int_text_def nat_scan_hex)

section \<open>Constructors\<close>

lemma validateBigInt_Inr [sum_elims]:
  "validateBigIntForQuantity v p = Inr u \<longleftrightarrow> 0 \<le> v \<and> BitLen v \<le> sint p"
  by (auto simp: validateBigIntForQuantity_def)

text \<open>The specification of \<open>ToQuantity\<close>: which strings are accepted and what they denote.\<close>

lemma ToQuantity_spec:
  "ToQuantity s p = Inr q \<longleftrightarrow>
     p \<noteq> 0 \<and> quantity_at p q \<and> SetString s = Some (Quantity_ToBigInt q)"
proof (cases "SetString s")
  case None
  then show ?thesis by (simp add: ToQuantity_def)
next
  case (Some v)
  show ?thesis
  proof (cases "p = 64")
    case True
    show ?thesis
    proof (cases q)
      case (BigQuantity x p')
      with Some True show ?thesis by (auto simp: ToQuantity_def sum_elims)
    next
      case (UInt64Quantity u)
      have "0 \<le> v \<and> v < 2 ^ 64 \<and> of_int v = u \<longleftrightarrow> v = uint u"
        using uint_bounded [of u] by (auto simp: word_of_int_inverse of_int_uint)
      with Some True UInt64Quantity BitLen_le_64 [of v] show ?thesis
        by (auto simp: ToQuantity_def sum_elims)
    qed
  next
    case False
    with Some show ?thesis by (cases q) (auto simp: ToQuantity_def sum_elims)
  qed
qed

lemma ToQuantity_at: "ToQuantity s p = Inr q \<Longrightarrow> quantity_at p q"
  by (simp add: ToQuantity_spec)

lemma NewZeroQuantity_at: "0 \<le> sint p \<Longrightarrow> quantity_at p (NewZeroQuantity p)"
  by (simp add: NewZeroQuantity_def BitLen_def bit_len.simps [of 0])

lemma quantity_at_sint: "quantity_at p q \<Longrightarrow> 0 \<le> sint p"
  using BitLen_nonneg by (cases q) (auto intro: order_trans)

section \<open>Arithmetic\<close>

lemma word_add_overflow_iff:
  fixes x y :: u64
  shows "x + y < x \<longleftrightarrow> 2 ^ 64 \<le> uint x + uint y"
proof (cases "uint x + uint y < 2 ^ 64")
  case True
  then have "uint (x + y) = uint x + uint y"
    using uint_add_lem [of x y] by simp
  with True show ?thesis by (simp add: word_less_def)
next
  case False
  then have "uint (x + y) = uint x + uint y - 2 ^ 64"
    using uint_bounded [of x] uint_bounded [of y] by (simp add: uint_plus_if_size word_size)
  with False show ?thesis using uint_bounded [of y] by (simp add: word_less_def)
qed

text \<open>A value fits precision \<open>p\<close> when its bit length does not exceed it.\<close>

definition fits_precision :: "u64 \<Rightarrow> int \<Rightarrow> bool" where
  "fits_precision p v \<longleftrightarrow> 0 \<le> v \<and> BitLen v \<le> sint p"

lemma fits_precision_iff: "fits_precision p v \<longleftrightarrow> 0 \<le> v \<and> 0 \<le> sint p \<and> v < 2 ^ nat (sint p)"
proof -
  have "BitLen v \<le> sint p \<longleftrightarrow> 0 \<le> sint p \<and> v < 2 ^ nat (sint p)" if "0 \<le> v"
  proof (cases "0 \<le> sint p")
    case True
    then show ?thesis using BitLen_le_iff [OF that, of "nat (sint p)"] by simp
  next
    case False
    then show ?thesis using BitLen_nonneg [of v] by linarith
  qed
  then show ?thesis by (auto simp: fits_precision_def)
qed

lemma fits_precision_64: "fits_precision 64 v \<longleftrightarrow> 0 \<le> v \<and> v < 2 ^ 64"
  by (simp add: fits_precision_iff)

lemma quantity_at_fits: "quantity_at p q \<Longrightarrow> fits_precision p (Quantity_ToBigInt q)"
proof (cases q)
  case (BigQuantity v p')
  then show "quantity_at p q \<Longrightarrow> ?thesis" by (simp add: fits_precision_def)
next
  case (UInt64Quantity u)
  then show "quantity_at p q \<Longrightarrow> ?thesis" using uint_bounded [of u] by (simp add: fits_precision_64)
qed

lemma Quantity_Add_cases:
  assumes "quantity_at p a" and "quantity_at p b"
  shows "if fits_precision p (Quantity_ToBigInt a + Quantity_ToBigInt b)
    then \<exists>c. Quantity_Add a b = Inr c \<and> quantity_at p c \<and>
      Quantity_ToBigInt c = Quantity_ToBigInt a + Quantity_ToBigInt b
    else Quantity_Add a b = Inl ErrOverflow"
proof (cases a)
  case (BigQuantity x p')
  with assms show ?thesis by (cases b) (auto simp: fits_precision_def Let_def)
next
  case (UInt64Quantity x)
  with assms obtain y where b: "b = UInt64Quantity y" and p: "p = 64" by (cases b) auto
  show ?thesis
  proof (cases "2 ^ 64 \<le> uint x + uint y")
    case True
    then show ?thesis
      using UInt64Quantity b p by (simp add: fits_precision_64 word_add_overflow_iff Let_def)
  next
    case False
    then have "uint (x + y) = uint x + uint y" using uint_add_lem [of x y] by simp
    with False show ?thesis
      using UInt64Quantity b p
      by (auto simp: fits_precision_64 word_add_overflow_iff Let_def)
  qed
qed

text \<open>
  The contract of the \<open>Quantity\<close> interface that its clients rely on: values of one precision,
  an addition that is exact or fails, and failing exactly when the sum does not fit. The summation
  loops of the code (\<open>Sum\<close>, \<open>ToQuantitySum\<close>, the balance check of the validator) are clients.
\<close>

locale quantity_arith =
  fixes rep :: "'q \<Rightarrow> bool"
    and val :: "'q \<Rightarrow> int"
    and fits :: "int \<Rightarrow> bool"
    and add :: "'q \<Rightarrow> 'q \<Rightarrow> 'e + 'q"
  assumes val_nonneg: "rep q \<Longrightarrow> 0 \<le> val q"
    and fits_mono: "0 \<le> x \<Longrightarrow> x \<le> y \<Longrightarrow> fits y \<Longrightarrow> fits x"
    and add_ok: "rep a \<Longrightarrow> rep b \<Longrightarrow> fits (val a + val b) \<Longrightarrow>
      \<exists>c. add a b = Inr c \<and> rep c \<and> val c = val a + val b"
    and add_fail: "rep a \<Longrightarrow> rep b \<Longrightarrow> \<not> fits (val a + val b) \<Longrightarrow> \<exists>e. add a b = Inl e"
begin

lemma add_exact:
  "rep a \<Longrightarrow> rep b \<Longrightarrow> add a b = Inr c \<Longrightarrow> rep c \<and> val c = val a + val b \<and> fits (val a + val b)"
  using add_ok [of a b] add_fail [of a b] by (metis Inl_Inr_False sum.inject(2))

end

locale quantity_source = quantity_arith rep val fits add
  for rep :: "'q \<Rightarrow> bool" and val :: "'q \<Rightarrow> int" and fits :: "int \<Rightarrow> bool"
    and add :: "'q \<Rightarrow> 'q \<Rightarrow> 'e + 'q" +
  fixes parse :: "'t \<Rightarrow> 'e + 'q"
  assumes parse_rep: "parse t = Inr q \<Longrightarrow> rep q"
begin

lemma sum_loop_exact:
  assumes "fold_sum (\<lambda>t s. bind_sum (parse t) (add s)) ts s = Inr r" and "rep s"
  shows "rep r \<and> (\<exists>qs. list_all2 (\<lambda>t q. parse t = Inr q) ts qs \<and> val r = val s + sum_list (map val qs))"
  using assms
proof (induction ts arbitrary: s)
  case Nil
  then show ?case by simp
next
  case (Cons t ts)
  from Cons.prems(1) obtain q u where q: "parse t = Inr q" and u: "add s q = Inr u"
    and rest: "fold_sum (\<lambda>t s. bind_sum (parse t) (add s)) ts u = Inr r"
    by (auto simp: sum_elims)
  from add_exact [OF Cons.prems(2) parse_rep [OF q] u]
  have ru: "rep u" and vu: "val u = val s + val q" by auto
  from Cons.IH [OF rest ru] obtain qs where "rep r"
    and "list_all2 (\<lambda>t q. parse t = Inr q) ts qs" and "val r = val u + sum_list (map val qs)"
    by auto
  with q vu show ?case by (auto intro!: exI [of _ "q # qs"])
qed

lemma sum_loop_defined:
  assumes "list_all2 (\<lambda>t q. parse t = Inr q) ts qs" and "rep s"
    and "fits (val s + sum_list (map val qs))"
  shows "\<exists>r. fold_sum (\<lambda>t s. bind_sum (parse t) (add s)) ts s = Inr r"
  using assms
proof (induction ts arbitrary: s qs)
  case Nil
  then show ?case by simp
next
  case (Cons t ts)
  then obtain q qs' where qs: "qs = q # qs'" and q: "parse t = Inr q"
    and rest: "list_all2 (\<lambda>t q. parse t = Inr q) ts qs'"
    by (auto simp: list_all2_Cons1)
  have "rep q" using parse_rep q .
  have "\<forall>q \<in> set qs'. rep q"
    using rest by (induction rule: list_all2_induct) (auto intro: parse_rep)
  then have nonneg: "0 \<le> sum_list (map val qs')" by (auto intro!: sum_list_nonneg val_nonneg)
  have "fits (val s + val q)"
    using fits_mono [of "val s + val q" "val s + sum_list (map val qs)"] nonneg qs
      val_nonneg [OF \<open>rep q\<close>] val_nonneg [OF Cons.prems(2)] Cons.prems(3) by simp
  then obtain u where u: "add s q = Inr u" and "rep u" and "val u = val s + val q"
    using add_ok [OF Cons.prems(2) \<open>rep q\<close>] by blast
  with Cons.IH [OF rest \<open>rep u\<close>] Cons.prems(3) qs q show ?case
    by (auto simp: add.assoc)
qed

end

interpretation qa: quantity_source "quantity_at p" Quantity_ToBigInt "fits_precision p" Quantity_Add
    "\<lambda>t. ToQuantity (str t) p"
  for p and str :: "'t \<Rightarrow> string"
proof (unfold_locales, goal_cases)
  case (1 q)
  then show ?case by (simp add: quantity_at_wf wf_quantity_nonneg)
next
  case (2 x y)
  then show ?case by (auto simp: fits_precision_iff)
next
  case (3 a b)
  then show ?case using Quantity_Add_cases [of p a b] by simp
next
  case (4 a b)
  then show ?case using Quantity_Add_cases [of p a b] by auto
next
  case (5 t q)
  then show ?case by (rule ToQuantity_at)
qed

end
