(* ===== verification/Token.thy ===== *)
theory Token
  imports Quantity
begin

text \<open>
  The token data model (\<open>src/token/token/token.go\<close>): identifiers, tokens as they are written on
  the ledger, issued and unspent tokens, and the operations on lists of them (\<open>Sum\<close>, \<open>ByType\<close>,
  \<open>Count\<close>, \<open>At\<close>). \<open>Sum\<close> panics on an unparsable quantity or on overflow; the panic is the \<open>Inl\<close>
  branch. \<open>At\<close> performs no bounds check, its panic is \<open>None\<close>.

  The properties at the end state that quantities print, scan, add, subtract and compare as the
  integers they stand for, and that summing a list of tokens is exact.
\<close>

section \<open>Identifiers and tokens\<close>

record token_id =
  TxId :: string
  Index :: u64

definition ID_Equal :: "token_id \<Rightarrow> token_id \<Rightarrow> bool" where
  "ID_Equal l r \<longleftrightarrow> TxId l = TxId r \<and> Index l = Index r"

definition ID_String :: "token_id \<Rightarrow> string" where
  "ID_String i = ''['' @ TxId i @ '':'' @ int_text 10 (uint (Index i)) @ '']''"

record token =
  Owner :: bytes
  Type :: string
  Quantity :: string

definition Token_Clone :: "token \<Rightarrow> token" where
  "Token_Clone t = \<lparr>Owner = Owner t, Type = Type t, Quantity = Quantity t\<rparr>"

record issued_token =
  It_Id :: token_id
  It_Owner :: bytes
  It_Type :: string
  It_Quantity :: string
  It_Issuer :: bytes

record unspent_token =
  Ut_Id :: token_id
  Ut_Owner :: bytes
  Ut_Type :: string
  Ut_Quantity :: string

record ledger_token =
  Lt_ID :: token_id
  Lt_Format :: string
  Lt_Token :: bytes
  Lt_TokenMetadata :: bytes

definition LedgerToken_Equal :: "ledger_token \<Rightarrow> ledger_token \<Rightarrow> bool" where
  "LedgerToken_Equal l r \<longleftrightarrow>
     ID_Equal (Lt_ID l) (Lt_ID r) \<and> Lt_Format l = Lt_Format r \<and> Lt_Token l = Lt_Token r \<and>
     Lt_TokenMetadata l = Lt_TokenMetadata r"

section \<open>Lists of tokens\<close>

text \<open>One iteration of the summation loops.\<close>

definition add_quantity :: "u64 \<Rightarrow> string \<Rightarrow> quantity \<Rightarrow> q_error + quantity" where
  "add_quantity precision s acc = bind_sum (ToQuantity s precision) (\<lambda>q. Quantity_Add acc q)"

definition ToQuantitySum :: "u64 \<Rightarrow> unspent_token list \<Rightarrow> q_error + quantity" where
  "ToQuantitySum precision toks =
     fold_sum (\<lambda>tok acc. add_quantity precision (Ut_Quantity tok) acc) toks (NewZeroQuantity precision)"

definition IssuedTokens_Sum :: "u64 \<Rightarrow> issued_token list \<Rightarrow> q_error + quantity" where
  "IssuedTokens_Sum precision toks =
     fold_sum (\<lambda>tok acc. add_quantity precision (It_Quantity tok) acc) toks (NewZeroQuantity precision)"

definition UnspentTokens_Sum :: "u64 \<Rightarrow> unspent_token list \<Rightarrow> q_error + quantity" where
  "UnspentTokens_Sum precision toks =
     fold_sum (\<lambda>tok acc. add_quantity precision (Ut_Quantity tok) acc) toks (NewZeroQuantity precision)"

fun IssuedTokens_ByType :: "string \<Rightarrow> issued_token list \<Rightarrow> issued_token list" where
  "IssuedTokens_ByType typ [] = []"
| "IssuedTokens_ByType typ (t # ts) =
     (if It_Type t = typ then t # IssuedTokens_ByType typ ts else IssuedTokens_ByType typ ts)"

fun UnspentTokens_ByType :: "string \<Rightarrow> unspent_token list \<Rightarrow> unspent_token list" where
  "UnspentTokens_ByType typ [] = []"
| "UnspentTokens_ByType typ (t # ts) =
     (if Ut_Type t = typ then t # UnspentTokens_ByType typ ts else UnspentTokens_ByType typ ts)"

definition IssuedTokens_Count :: "issued_token list \<Rightarrow> nat" where
  "IssuedTokens_Count ts = length ts"

definition UnspentTokens_Count :: "unspent_token list \<Rightarrow> nat" where
  "UnspentTokens_Count ts = length ts"

definition UnspentTokens_At :: "unspent_token list \<Rightarrow> nat \<Rightarrow> unspent_token option" where
  "UnspentTokens_At ts i = (if i < length ts then Some (ts ! i) else None)"

section \<open>The amount a quantity string denotes\<close>

text \<open>The integer a quantity string stands for, independently of any precision.\<close>

definition amount :: "string \<Rightarrow> int" where
  "amount s = (case SetString s of Some v \<Rightarrow> v | None \<Rightarrow> 0)"

lemma ToQuantity_amount: "ToQuantity s p = Inr q \<Longrightarrow> Quantity_ToBigInt q = amount s"
  by (simp add: ToQuantity_spec amount_def)

lemma ToQuantity_amounts:
  "list_all2 (\<lambda>t q. ToQuantity (f t) p = Inr q) ts qs \<Longrightarrow>
   sum_list (map Quantity_ToBigInt qs) = sum_list (map (\<lambda>t. amount (f t)) ts)"
  by (induction rule: list_all2_induct) (simp_all add: ToQuantity_amount)

lemma add_quantity_loop_exact:
  assumes "fold_sum (\<lambda>t s. add_quantity p (f t) s) ts s = Inr r" and "quantity_at p s"
  shows "quantity_at p r \<and>
    Quantity_ToBigInt r = Quantity_ToBigInt s + sum_list (map (\<lambda>t. amount (f t)) ts)"
proof -
  have "fold_sum (\<lambda>t s. bind_sum (ToQuantity (f t) p) (Quantity_Add s)) ts s = Inr r"
    using assms(1) by (simp add: add_quantity_def)
  from qa.sum_loop_exact [OF this assms(2)] show ?thesis
    using ToQuantity_amounts [of f p ts] by auto
qed

text \<open>When the precision is at least 2 ^ 63 every quantity is rejected, so a non-empty loop fails.\<close>

lemma add_quantity_loop_sint:
  assumes "fold_sum (\<lambda>t s. add_quantity p (f t) s) ts s = Inr r" and "ts \<noteq> []"
  shows "0 \<le> sint p"
proof -
  from assms obtain t q where "ToQuantity (f t) p = Inr q"
    by (cases ts) (auto simp: add_quantity_def sum_elims)
  then show ?thesis by (auto dest: ToQuantity_at quantity_at_sint)
qed

lemma zero_loop_exact:
  assumes "fold_sum (\<lambda>t s. add_quantity p (f t) s) ts (NewZeroQuantity p) = Inr r"
  shows "Quantity_ToBigInt r = sum_list (map (\<lambda>t. amount (f t)) ts)"
proof (cases "ts = []")
  case True
  with assms show ?thesis by auto
next
  case False
  from add_quantity_loop_sint [OF assms False] have "quantity_at p (NewZeroQuantity p)"
    by (rule NewZeroQuantity_at)
  from add_quantity_loop_exact [OF assms this] show ?thesis by simp
qed

lemma zero_loop_defined:
  assumes "0 \<le> sint p"
    and "\<And>t. t \<in> set ts \<Longrightarrow> is_ok (ToQuantity (f t) p)"
    and "fits_precision p (sum_list (map (\<lambda>t. amount (f t)) ts))"
  shows "\<exists>r. fold_sum (\<lambda>t s. add_quantity p (f t) s) ts (NewZeroQuantity p) = Inr r"
proof -
  let ?qs = "map (\<lambda>t. projr (ToQuantity (f t) p)) ts"
  have "list_all2 (\<lambda>t q. ToQuantity (f t) p = Inr q) ts ?qs"
    using assms(2) by (simp add: list_all2_conv_all_nth is_ok_projr)
  moreover have "sum_list (map Quantity_ToBigInt ?qs) = sum_list (map (\<lambda>t. amount (f t)) ts)"
    using ToQuantity_amounts [OF calculation] .
  ultimately show ?thesis
    using qa.sum_loop_defined [of f p ts ?qs "NewZeroQuantity p"] assms(1,3)
    by (simp add: add_quantity_def NewZeroQuantity_at)
qed

lemma quantity_at_inj:
  "quantity_at p a \<Longrightarrow> quantity_at p b \<Longrightarrow> Quantity_ToBigInt a = Quantity_ToBigInt b \<Longrightarrow> a = b"
  by (cases a; cases b) (auto intro: word_uint_eqI)

lemma int_Cmp_sgn: "int_Cmp x y = sgn (x - y)"
  by (simp add: int_Cmp_def)

lemma BitLen_diff_le: "0 \<le> y \<Longrightarrow> y \<le> x \<Longrightarrow> BitLen x \<le> k \<Longrightarrow> BitLen (x - y) \<le> k"
proof -
  assume "0 \<le> y" "y \<le> x" "BitLen x \<le> k"
  moreover from this BitLen_nonneg [of x] obtain n where "k = int n" by (metis nonneg_int_cases order_trans)
  ultimately show ?thesis by (simp add: BitLen_le_iff)
qed

lemma big_exceeds_word: "0 \<le> v \<Longrightarrow> 64 < BitLen v \<Longrightarrow> uint (u :: u64) < v"
  using BitLen_le_64 [of v] uint_bounded [of u] by simp

lemma Cmp_big_word:
  assumes "0 \<le> v" and "64 < BitLen v"
  shows "sgn (v - uint (u :: u64)) = 1" and "sgn (uint u - v) = - 1"
  using big_exceeds_word [OF assms, of u] by simp_all

lemma Quantity_Cmp_sgn:
  assumes "wf_quantity a" and "wf_quantity b"
  shows "Quantity_Cmp a b = sgn (Quantity_ToBigInt a - Quantity_ToBigInt b)"
  using assms by (cases a; cases b) (auto simp: int_Cmp_sgn word_less_def Cmp_big_word simp del: not_less)

section \<open>Properties\<close>

text \<open>
  C13: Addition is exact or fails: on two quantities of the same precision \<open>Add\<close> returns the
  integer sum at that precision when it fits, and reports an overflow exactly when it does not
  (for 64 bits: when the machine addition wraps).
\<close>
theorem Quantity_Add_exact_or_overflow:
  assumes "quantity_at p a" and "quantity_at p b"
  shows "(Quantity_Add a b = Inr c \<longleftrightarrow>
      quantity_at p c \<and> Quantity_ToBigInt c = Quantity_ToBigInt a + Quantity_ToBigInt b) \<and>
    (Quantity_Add a b = Inl e \<longleftrightarrow>
      e = ErrOverflow \<and> \<not> fits_precision p (Quantity_ToBigInt a + Quantity_ToBigInt b))"
proof (cases "fits_precision p (Quantity_ToBigInt a + Quantity_ToBigInt b)")
  case True
  then obtain d where "Quantity_Add a b = Inr d" "quantity_at p d"
    "Quantity_ToBigInt d = Quantity_ToBigInt a + Quantity_ToBigInt b"
    using Quantity_Add_cases [OF assms] by auto
  with True show ?thesis by (auto intro: quantity_at_inj)
next
  case False
  then have "Quantity_Add a b = Inl ErrOverflow" using Quantity_Add_cases [OF assms] by simp
  with False show ?thesis using quantity_at_fits [of p c] by auto
qed

theorem Quantity_Add_exact_or_overflow_witness:
  "Quantity_Add (UInt64Quantity 5) (UInt64Quantity 7) = Inr (UInt64Quantity 12) \<and>
   Quantity_Add (UInt64Quantity 18446744073709551615) (UInt64Quantity 1) = Inl ErrOverflow"
  using Quantity_Add_exact_or_overflow [of 64 "UInt64Quantity 5" "UInt64Quantity 7" "UInt64Quantity 12" ErrOverflow]
    Quantity_Add_exact_or_overflow [of 64 "UInt64Quantity 18446744073709551615" "UInt64Quantity 1" "UInt64Quantity 0" ErrOverflow]
  by (simp add: fits_precision_64)

text \<open>
  C14: Subtraction and comparison agree with the integers: \<open>Sub\<close> returns the exact difference or
  reports an underflow exactly when the subtrahend is larger, and \<open>Cmp\<close> returns the sign of the
  difference for any two well-formed quantities, also across the two representations, where the
  code takes a shortcut on the bit length.
\<close>
theorem Quantity_Sub_Cmp_correct:
  assumes "wf_quantity a" and "wf_quantity b"
  shows "Quantity_Cmp a b = sgn (Quantity_ToBigInt a - Quantity_ToBigInt b) \<and>
    (\<forall>p. quantity_at p a \<longrightarrow> quantity_at p b \<longrightarrow>
      (case Quantity_Sub a b of
         Inl e \<Rightarrow> e = ErrUnderflow \<and> Quantity_ToBigInt a < Quantity_ToBigInt b
       | Inr c \<Rightarrow> quantity_at p c \<and> Quantity_ToBigInt c = Quantity_ToBigInt a - Quantity_ToBigInt b))"
proof -
  note cmp = Quantity_Cmp_sgn [OF assms]
  have sub: "case Quantity_Sub a b of
         Inl e \<Rightarrow> e = ErrUnderflow \<and> Quantity_ToBigInt a < Quantity_ToBigInt b
       | Inr c \<Rightarrow> quantity_at p c \<and> Quantity_ToBigInt c = Quantity_ToBigInt a - Quantity_ToBigInt b"
    if "quantity_at p a" and "quantity_at p b" for p
    using that
    by (cases a; cases b)
      (auto simp: word_less_def not_less word_le_def uint_sub_lem intro: BitLen_diff_le)
  from cmp sub show ?thesis by blast
qed

theorem Quantity_Sub_Cmp_correct_witness:
  "Quantity_Cmp (BigQuantity (2 ^ 70) 128) (UInt64Quantity 9) = 1 \<and>
   Quantity_Sub (UInt64Quantity 9) (UInt64Quantity 4) = Inr (UInt64Quantity 5)"
proof -
  have wf: "wf_quantity (BigQuantity (2 ^ 70) 128)" by (simp add: BitLen_def bit_len.simps)
  have "Quantity_Cmp (BigQuantity (2 ^ 70) 128) (UInt64Quantity 9) = 1"
    using Quantity_Sub_Cmp_correct [OF wf, of "UInt64Quantity 9"] by simp
  moreover have "Quantity_Sub (UInt64Quantity 9) (UInt64Quantity 4) = Inr (UInt64Quantity 5)"
    using Quantity_Sub_Cmp_correct [of "UInt64Quantity 9" "UInt64Quantity 4"] by simp
  ultimately show ?thesis ..
qed

text \<open>
  C15: Printing and scanning quantities are inverse: the decimal and the hexadecimal text of a
  quantity, scanned at its precision by \<open>ToQuantity\<close> with base auto-detection, give the same
  quantity back.
\<close>
theorem ToQuantity_roundtrip:
  assumes "quantity_at p q" and "p \<noteq> 0"
  shows "ToQuantity (Quantity_Decimal q) p = Inr q \<and> ToQuantity (Quantity_Hex q) p = Inr q"
proof -
  have "0 \<le> Quantity_ToBigInt q" using assms(1) by (simp add: quantity_at_wf wf_quantity_nonneg)
  then have "SetString (Quantity_Decimal q) = Some (Quantity_ToBigInt q)"
    and "SetString (Quantity_Hex q) = Some (Quantity_ToBigInt q)"
    using SetString_decimal SetString_hex by (cases q; simp)+
  with assms show ?thesis by (simp add: ToQuantity_spec)
qed

theorem ToQuantity_roundtrip_witness:
  "ToQuantity ''255'' 64 = Inr (UInt64Quantity 255) \<and> ToQuantity ''0xff'' 64 = Inr (UInt64Quantity 255)"
proof -
  have "Quantity_Decimal (UInt64Quantity 255) = ''255''" "Quantity_Hex (UInt64Quantity 255) = ''0xff''"
    by (simp_all add: int_text_def nat_text.simps digit_char_def)
  then show ?thesis using ToQuantity_roundtrip [of 64 "UInt64Quantity 255"] by simp
qed

text \<open>
  C12: The sum of a list of tokens is the sum of the amounts their quantity strings denote. It is
  computed without error when every quantity is accepted at the precision and the total fits, and
  otherwise the loop fails (a panic in \<open>Sum\<close>): it never returns a wrapped or truncated total.
\<close>
theorem UnspentTokens_Sum_exact:
  assumes "0 < sint p"
  shows "(UnspentTokens_Sum p toks = Inr r \<longrightarrow>
      Quantity_ToBigInt r = (\<Sum>tok\<leftarrow>toks. amount (Ut_Quantity tok)) \<and> quantity_at p r) \<and>
    ((\<forall>tok \<in> set toks. is_ok (ToQuantity (Ut_Quantity tok) p)) \<and>
     fits_precision p (\<Sum>tok\<leftarrow>toks. amount (Ut_Quantity tok)) \<longleftrightarrow> is_ok (UnspentTokens_Sum p toks))"
proof -
  note loop = add_quantity_loop_exact [of p Ut_Quantity toks "NewZeroQuantity p"]
  have zero: "quantity_at p (NewZeroQuantity p)" using assms by (simp add: NewZeroQuantity_at)
  have exact: "Quantity_ToBigInt r = (\<Sum>tok\<leftarrow>toks. amount (Ut_Quantity tok)) \<and> quantity_at p r"
    if "UnspentTokens_Sum p toks = Inr r" for r
    using loop [of r] that zero by (simp add: UnspentTokens_Sum_def)
  have "(\<forall>tok \<in> set toks. is_ok (ToQuantity (Ut_Quantity tok) p))" if "is_ok (UnspentTokens_Sum p toks)"
    using that unfolding UnspentTokens_Sum_def is_ok_iff
    by (auto simp: add_quantity_def dest!: fold_sum_each simp: sum_elims)
  moreover have "fits_precision p (\<Sum>tok\<leftarrow>toks. amount (Ut_Quantity tok))"
    if "is_ok (UnspentTokens_Sum p toks)"
    using that exact quantity_at_fits by (fastforce simp: is_ok_iff)
  moreover have "is_ok (UnspentTokens_Sum p toks)"
    if "\<forall>tok \<in> set toks. is_ok (ToQuantity (Ut_Quantity tok) p)"
      and "fits_precision p (\<Sum>tok\<leftarrow>toks. amount (Ut_Quantity tok))"
    using zero_loop_defined [of p toks Ut_Quantity] that assms
    by (simp add: is_ok_iff UnspentTokens_Sum_def)
  ultimately show ?thesis using exact by blast
qed

definition example_unspent :: "unspent_token list" where
  "example_unspent =
     [\<lparr>Ut_Id = \<lparr>TxId = ''a'', Index = 0\<rparr>, Ut_Owner = [1], Ut_Type = ''USD'', Ut_Quantity = ''10''\<rparr>,
      \<lparr>Ut_Id = \<lparr>TxId = ''a'', Index = 1\<rparr>, Ut_Owner = [2], Ut_Type = ''USD'', Ut_Quantity = ''0x20''\<rparr>]"

theorem UnspentTokens_Sum_exact_witness:
  "UnspentTokens_Sum 64 example_unspent = Inr (UInt64Quantity 42) \<and>
   (\<Sum>tok\<leftarrow>example_unspent. amount (Ut_Quantity tok)) = 42"
proof -
  have "UnspentTokens_Sum 64 example_unspent = Inr (UInt64Quantity 42)"
    by (simp add: UnspentTokens_Sum_def example_unspent_def add_quantity_def ToQuantity_def SetString_def
        nat_scan_def scan_finish_def digit_val_def NewZeroQuantity_def validateBigIntForQuantity_def
        BitLen_def bit_len.simps)
  with UnspentTokens_Sum_exact [of 64 example_unspent "UInt64Quantity 42"] show ?thesis by simp
qed

end
