(* ===== verification/Identity_Codec.thy ===== *)
theory Identity_Codec
  imports Quantity
begin

text \<open>
  The DER codec of typed identities (\<open>src/token/services/identity/marshal/marshal.go\<close> and
  \<open>src/token/services/identity/typed.go\<close>).

  \<open>DecodeIdentity\<close> walks the bytes of a SEQUENCE that holds either an INTEGER or a string and an
  OCTET STRING; \<open>EncodeIdentity\<close> writes it. Positions are natural numbers; every read of the source
  that could be out of range is preceded by the check the source makes. A Go \<open>int32\<close> is a 32-bit
  word; the accumulators of \<open>readLen\<close> (at most 4 bytes) and \<open>parseInt32\<close> (at most 5 bytes) cannot
  overflow their 64-bit types and are a natural number and an integer.

  The lemmas show that the codec round-trips, and that an accepted encoding whose type is an
  INTEGER is the only one: the decoder accepts no alternative spelling of a length or an integer.
\<close>

unbundle bit_operations_syntax

section \<open>Definitions\<close>

datatype m_error =
    ErrTruncated
  | ErrUnexpectedTag
  | ErrIntOverflow
  | ErrInvalidLen
  | ErrTrailingBytes
  | ErrNonMinimalLen
  | ErrNonMinimalInt
  | ErrNonCanonical
  | ErrInvalidDestination
  | ErrAsn1

definition tagInteger :: byte where "tagInteger = 0x02"
definition tagOctetString :: byte where "tagOctetString = 0x04"
definition tagUTF8String :: byte where "tagUTF8String = 0x0C"
definition tagPrintableString :: byte where "tagPrintableString = 0x13"
definition tagSequence :: byte where "tagSequence = 0x30"

lemmas tag_defs = tagInteger_def tagOctetString_def tagUTF8String_def tagPrintableString_def
  tagSequence_def

type_synonym identity_type = u32

definition IdemixIdentityType :: identity_type where "IdemixIdentityType = 1"
definition X509IdentityType :: identity_type where "X509IdentityType = 2"
definition IdemixNymIdentityType :: identity_type where "IdemixNymIdentityType = 3"
definition HTLCScriptIdentityType :: identity_type where "HTLCScriptIdentityType = 4"
definition MultiSigIdentityType :: identity_type where "MultiSigIdentityType = 5"
definition PolicyIdentityType :: identity_type where "PolicyIdentityType = 6"

lemmas identity_type_defs = IdemixIdentityType_def X509IdentityType_def IdemixNymIdentityType_def
  HTLCScriptIdentityType_def MultiSigIdentityType_def PolicyIdentityType_def

text \<open>Big-endian accumulation: \<open>l << 8 | c\<close> over the bytes.\<close>

definition be_nat :: "bytes \<Rightarrow> nat" where
  "be_nat bs = foldl (\<lambda>l c. l * 256 + unat c) 0 bs"

definition readLen :: "bytes \<Rightarrow> nat \<Rightarrow> m_error + nat \<times> nat" where
  "readLen b pos =
     (if length b \<le> pos then Inl ErrTruncated
      else let fb = b ! pos in
        if fb < 0x80 then Inr (unat fb, pos + 1)
        else let n = unat (fb AND 0x7F) in
          if n = 0 \<or> n > 4 \<or> pos + 1 + n > length b then Inl ErrInvalidLen
          else if b ! (pos + 1) = 0 then Inl ErrNonMinimalLen
          else let l = be_nat (take n (drop (pos + 1) b)); pos' = pos + 1 + n in
            if l < 0x80 then Inl ErrNonMinimalLen
            else if l > length b - pos' then Inl ErrTruncated
            else Inr (l, pos'))"

text \<open>The sign-extended accumulation of \<open>parseInt32\<close>.\<close>

definition be_int :: "bytes \<Rightarrow> int" where
  "be_int bs =
     foldl (\<lambda>v c. v * 256 + uint c) (if hd bs AND 0x80 \<noteq> 0 then -1 else 0) bs"

definition nonMinimalInt :: "bytes \<Rightarrow> bool" where
  "nonMinimalInt b \<longleftrightarrow>
     (case b of x # y # _ \<Rightarrow> x = 0x00 \<and> y AND 0x80 = 0 \<or> x = 0xFF \<and> y AND 0x80 \<noteq> 0 | _ \<Rightarrow> False)"

definition parseInt32 :: "bytes \<Rightarrow> m_error + u32" where
  "parseInt32 b =
     (if b = [] \<or> length b > 5 then Inl ErrIntOverflow
      else if nonMinimalInt b then Inl ErrNonMinimalInt
      else let v = be_int b in
        if v > 2 ^ 31 - 1 \<or> v < - (2 ^ 31) then Inl ErrIntOverflow
        else Inr (word_of_int v))"

record result =
  IsInt :: bool
  Int32 :: u32
  Str :: bytes
  Data :: bytes

text \<open>The conversion of the string form to the integer form "for legacy reasons".\<close>

definition legacy_type :: "bytes \<Rightarrow> identity_type option" where
  "legacy_type s =
     (if s = bytes_of_string ''x509'' then Some X509IdentityType
      else if s = bytes_of_string ''idemix'' then Some IdemixIdentityType
      else if s = bytes_of_string ''idemixnym'' then Some IdemixNymIdentityType
      else if s = bytes_of_string ''multisig'' then Some MultiSigIdentityType
      else if s = bytes_of_string ''htlc'' then Some HTLCScriptIdentityType
      else None)"

definition slice :: "bytes \<Rightarrow> nat \<Rightarrow> nat \<Rightarrow> bytes" where
  "slice b from len = take len (drop from b)"

text \<open>Reads the payload range of the element whose tag is at \<open>pos\<close>.\<close>

definition readTLV :: "bytes \<Rightarrow> nat \<Rightarrow> m_error + nat \<times> nat" where
  "readTLV b pos =
     bind_sum (readLen b (pos + 1)) (\<lambda>(l, np).
       if np + l > length b then Inl ErrTruncated else Inr (l, np))"

definition decodeFirst :: "bytes \<Rightarrow> nat \<Rightarrow> m_error + result \<times> nat" where
  "decodeFirst b pos =
     (if length b \<le> pos then Inl ErrTruncated
      else if b ! pos = tagInteger then
        bind_sum (readTLV b pos) (\<lambda>(l, np).
          bind_sum (parseInt32 (slice b np l)) (\<lambda>v.
            Inr (\<lparr>IsInt = True, Int32 = v, Str = [], Data = []\<rparr>, np + l)))
      else if b ! pos = tagUTF8String \<or> b ! pos = tagPrintableString then
        bind_sum (readTLV b pos) (\<lambda>(l, np).
          Inr (\<lparr>IsInt = False, Int32 = 0, Str = slice b np l, Data = []\<rparr>, np + l))
      else Inl ErrUnexpectedTag)"

definition legacyConvert :: "result \<Rightarrow> result" where
  "legacyConvert r =
     (if IsInt r then r
      else case legacy_type (Str r) of
        Some t \<Rightarrow> r\<lparr>Int32 := t, IsInt := True\<rparr>
      | None \<Rightarrow> r)"

definition DecodeIdentity :: "bytes \<Rightarrow> m_error + result" where
  "DecodeIdentity b =
     (if b = [] \<or> hd b \<noteq> tagSequence then Inl ErrUnexpectedTag
      else bind_sum (readLen b 1) (\<lambda>(seqLen, pos).
        if pos + seqLen > length b then Inl ErrTruncated
        else if pos + seqLen < length b then Inl ErrTrailingBytes
        else bind_sum (decodeFirst b pos) (\<lambda>(r, pos).
          if length b \<le> pos then Inl ErrTruncated
          else if b ! pos \<noteq> tagOctetString then Inl ErrUnexpectedTag
          else bind_sum (readTLV b pos) (\<lambda>(l, np).
            if np + l \<noteq> length b then Inl ErrTrailingBytes
            else Inr (legacyConvert (r\<lparr>Data := slice b np l\<rparr>))))))"

definition derLength :: "nat \<Rightarrow> bytes" where
  "derLength l =
     (if l < 0x80 then [of_nat l]
      else if l < 0x100 then [0x81, of_nat l]
      else if l < 0x10000 then [0x82, of_nat (l div 256), of_nat l]
      else if l < 0x1000000 then [0x83, of_nat (l div 65536), of_nat (l div 256), of_nat l]
      else [0x84, of_nat (l div 16777216), of_nat (l div 65536), of_nat (l div 256), of_nat l])"

definition appendTLV :: "bytes \<Rightarrow> byte \<Rightarrow> bytes \<Rightarrow> bytes" where
  "appendTLV dst tag val = dst @ tag # derLength (length val) @ val"

fun strip00 :: "bytes \<Rightarrow> bytes" where
  "strip00 (x # y # r) = (if x = 0x00 \<and> y AND 0x80 = 0 then strip00 (y # r) else x # y # r)"
| "strip00 b = b"

fun stripFF :: "bytes \<Rightarrow> bytes" where
  "stripFF (x # y # r) = (if x = 0xFF \<and> y AND 0x80 \<noteq> 0 then stripFF (y # r) else x # y # r)"
| "stripFF b = b"

definition encodeInt32 :: "u32 \<Rightarrow> bytes" where
  "encodeInt32 v =
     stripFF (strip00 [ucast (drop_bit 24 v), ucast (drop_bit 16 v), ucast (drop_bit 8 v), ucast v])"

definition EncodeIdentity :: "u32 \<Rightarrow> bytes \<Rightarrow> bytes" where
  "EncodeIdentity t data =
     appendTLV [] tagSequence
       (appendTLV [] tagInteger (encodeInt32 t) @ appendTLV [] tagOctetString data)"

definition Encode :: "result \<Rightarrow> bytes" where
  "Encode r =
     (let first = (if IsInt r then appendTLV [] tagInteger (encodeInt32 (Int32 r))
                   else appendTLV [] tagUTF8String (Str r)) in
      appendTLV [] tagSequence (first @ appendTLV [] tagOctetString (Data r)))"

record typed_identity =
  Ti_Type :: identity_type
  Ti_Identity :: bytes

datatype typed_error = FailedUnmarshal m_error | TypeNotRecognized

definition UnmarshalTypedIdentity :: "bytes \<Rightarrow> typed_error + typed_identity" where
  "UnmarshalTypedIdentity b =
     bind_sum (wrap_err FailedUnmarshal (DecodeIdentity b)) (\<lambda>res.
       if IsInt res then Inr \<lparr>Ti_Type = Int32 res, Ti_Identity = Data res\<rparr>
       else Inl TypeNotRecognized)"

definition TypedIdentity_Bytes :: "typed_identity \<Rightarrow> bytes" where
  "TypedIdentity_Bytes i = EncodeIdentity (Ti_Type i) (Ti_Identity i)"

definition WrapWithType :: "identity_type \<Rightarrow> bytes \<Rightarrow> bytes" where
  "WrapWithType t b = TypedIdentity_Bytes \<lparr>Ti_Type = t, Ti_Identity = b\<rparr>"

definition TypeToString :: "identity_type \<Rightarrow> string" where
  "TypeToString t =
     (if t = IdemixIdentityType then ''idemix''
      else if t = IdemixNymIdentityType then ''idemixnym''
      else if t = X509IdentityType then ''x509''
      else if t = MultiSigIdentityType then ''multisig''
      else if t = HTLCScriptIdentityType then ''htlc''
      else ''Type ('' @ int_text 10 (sint t) @ '')'')"

text \<open>The sign extension of a minimal integer of at most four bytes is undone by the encoder.\<close>

definition sign_extend :: "bytes \<Rightarrow> bytes" where
  "sign_extend b = replicate (4 - length b) (if 128 \<le> unat (hd b) then 0xFF else 0) @ b"

text \<open>The shape of an encoded identity, whatever the element that carries the type.\<close>

definition wire :: "byte \<Rightarrow> bytes \<Rightarrow> bytes \<Rightarrow> bytes" where
  "wire t v data = appendTLV [] tagSequence (appendTLV [] t v @ appendTLV [] tagOctetString data)"

section \<open>Lengths\<close>

lemma and_80_iff: "(y :: byte) AND 0x80 = 0 \<longleftrightarrow> unat y < 128"
proof -
  have "y AND 2 ^ 7 = 0 \<longleftrightarrow> \<not> bit y 7" by (rule and_exp_eq_0_iff_not_bit)
  also have "\<dots> \<longleftrightarrow> \<not> bit (unat y) 7" by (simp add: bit_unsigned_iff)
  also have "\<dots> \<longleftrightarrow> even (unat y div 128)" by (simp add: bit_iff_odd)
  also have "\<dots> \<longleftrightarrow> unat y div 128 = 0"
  proof -
    have "unat y div 128 < 2" using unat_byte_bound [of y] by (simp add: less_mult_imp_div_less)
    then show ?thesis by (auto simp: less_2_cases_iff)
  qed
  also have "\<dots> \<longleftrightarrow> unat y < 128" by (simp add: div_eq_0_iff)
  finally show ?thesis by simp
qed

lemma unat_and_7F: "unat ((y :: byte) AND 0x7F) = unat y mod 128"
proof -
  have "unat (y AND 0x7F) = unat y AND mask 7" by (simp add: unsigned_and_eq mask_eq_exp_minus_1)
  then show ?thesis by (simp only: take_bit_eq_mask [symmetric] take_bit_eq_mod) simp
qed

lemma byte_of_nat_eq: "of_nat n = (x :: byte) \<longleftrightarrow> n mod 256 = unat x"
  by (simp add: word_unat_eq_iff unsigned_of_nat take_bit_eq_mod)

lemma byte_eq_0_iff: "x = (0 :: byte) \<longleftrightarrow> unat x = 0"
  by (simp add: word_unat_eq_iff)

lemma be_nat_simps [simp]:
  "be_nat [] = 0"
  "be_nat [a] = unat a"
  "be_nat [a, b] = unat a * 256 + unat b"
  "be_nat [a, b, c] = (unat a * 256 + unat b) * 256 + unat c"
  "be_nat [a, b, c, d] = ((unat a * 256 + unat b) * 256 + unat c) * 256 + unat d"
  by (simp_all add: be_nat_def)

lemma div_256_powers:
  "(n :: nat) div 65536 = n div 256 div 256"
  "(n :: nat) div 16777216 = n div 256 div 256 div 256"
  using div_mult2_eq [of n 256 256] div_mult2_eq [of n 65536 256] by simp_all

lemma horner_div_mod:
  "y < 256 \<Longrightarrow> (x * 256 + y) div 256 = (x :: nat)"
  "y < 256 \<Longrightarrow> (x * 256 + y) mod 256 = (y :: nat)"
  by simp_all

lemma long_length_cases:
  assumes "1 \<le> length bs" and "length bs \<le> 4"
  obtains a where "bs = [a]" | a b where "bs = [a, b]" | a b c where "bs = [a, b, c]"
    | a b c d where "bs = [a, b, c, d]"
proof -
  have "length bs = 1 \<or> length bs = 2 \<or> length bs = 3 \<or> length bs = 4" using assms by arith
  then show ?thesis
    using that by (auto simp: length_Suc_conv numeral_eq_Suc)
qed

text \<open>The long form of a length: the bytes after the first one are its minimal big-endian form.\<close>

lemma derLength_of_bytes:
  assumes "1 \<le> length bs" and "length bs \<le> 4" and "hd bs \<noteq> 0" and "128 \<le> be_nat bs"
  shows "derLength (be_nat bs) = of_nat (128 + length bs) # bs"
  using assms(1,2)
proof (cases rule: long_length_cases)
  case (1 a)
  then show ?thesis using assms(4) unat_byte_bound [of a]
    by (simp add: derLength_def)
next
  case (2 a b)
  have "0 < unat a" using assms(3) 2 by (simp add: byte_eq_0_iff)
  then have "256 \<le> be_nat bs" "be_nat bs < 65536"
    using 2 unat_byte_bound [of a] unat_byte_bound [of b] by simp_all
  moreover have "of_nat (be_nat bs) = b" "of_nat (be_nat bs div 256) = a"
    unfolding byte_of_nat_eq 2 be_nat_simps by (simp_all add: horner_div_mod unat_byte_bound)
  ultimately show ?thesis by (simp add: derLength_def 2 del: be_nat_simps)
next
  case (3 a b c)
  have "0 < unat a" using assms(3) 3 by (simp add: byte_eq_0_iff)
  then have "65536 \<le> be_nat bs" "be_nat bs < 16777216"
    using 3 unat_byte_bound [of a] unat_byte_bound [of b] unat_byte_bound [of c] by simp_all
  moreover have "of_nat (be_nat bs) = c" "of_nat (be_nat bs div 256) = b" "of_nat (be_nat bs div 65536) = a"
    unfolding byte_of_nat_eq 3 be_nat_simps div_256_powers
    by (simp_all only: horner_div_mod unat_byte_bound mod_less)
  ultimately show ?thesis by (simp add: derLength_def 3 del: be_nat_simps)
next
  case (4 a b c d)
  have "0 < unat a" using assms(3) 4 by (simp add: byte_eq_0_iff)
  then have "16777216 \<le> be_nat bs"
    using 4 by simp
  moreover have "of_nat (be_nat bs) = d" "of_nat (be_nat bs div 256) = c" "of_nat (be_nat bs div 65536) = b"
    "of_nat (be_nat bs div 16777216) = a"
    unfolding byte_of_nat_eq 4 be_nat_simps div_256_powers
    by (simp_all only: horner_div_mod unat_byte_bound mod_less)
  ultimately show ?thesis by (simp add: derLength_def 4 del: be_nat_simps)
qed

lemma derLength_long:
  assumes "128 \<le> l" and "l < 2 ^ 32"
  obtains bs where "derLength l = of_nat (128 + length bs) # bs" "1 \<le> length bs" "length bs \<le> 4"
    "hd bs \<noteq> 0" "be_nat bs = l"
proof -
  have unat_byte: "unat (of_nat n :: byte) = n mod 256" for n
    by (simp add: unsigned_of_nat take_bit_eq_mod)
  define x y z where "x = l div 256" and "y = x div 256" and "z = y div 256"
  have l: "l = x * 256 + l mod 256" and x: "x = y * 256 + x mod 256" and y: "y = z * 256 + y mod 256"
    by (simp_all add: x_def y_def z_def)
  have powers: "l div 256 = x" "l div 65536 = y" "l div 16777216 = z"
    unfolding div_256_powers x_def y_def z_def by (rule refl)+
  consider "l < 0x100" | "0x100 \<le> l" "l < 0x10000" | "0x10000 \<le> l" "l < 0x1000000" | "0x1000000 \<le> l"
    by linarith
  then show ?thesis
  proof cases
    case 1
    then show ?thesis using assms that [of "[of_nat l]"]
      by (simp add: derLength_def unat_byte byte_eq_0_iff)
  next
    case 2
    then have "x < 256" "0 < x" using l by linarith+
    with 2 l show ?thesis using that [of "[of_nat x, of_nat l]"]
      by (simp add: derLength_def unat_byte byte_eq_0_iff powers)
  next
    case 3
    then have "y < 256" "0 < y" using l x by linarith+
    moreover from this l x have "be_nat [of_nat y, of_nat x, of_nat l] = l" by (simp add: unat_byte)
    ultimately show ?thesis using 3 that [of "[of_nat y, of_nat x, of_nat l]"]
      by (simp add: derLength_def unat_byte byte_eq_0_iff powers del: be_nat_simps)
  next
    case 4
    then have "z < 256" "0 < z" using assms(2) l x y by simp_all
    moreover from this l x y have "be_nat [of_nat z, of_nat y, of_nat x, of_nat l] = l"
      by (simp add: unat_byte)
    ultimately show ?thesis using 4 that [of "[of_nat z, of_nat y, of_nat x, of_nat l]"]
      by (simp add: derLength_def unat_byte byte_eq_0_iff powers del: be_nat_simps)
  qed
qed

lemma be_nat_bound:
  assumes "1 \<le> length bs" and "length bs \<le> 4"
  shows "be_nat bs < 2 ^ 32"
  using assms
proof (cases rule: long_length_cases)
  case (1 a)
  then show ?thesis using unat_byte_bound [of a] by simp
next
  case (2 a b)
  then show ?thesis using unat_byte_bound [of a] unat_byte_bound [of b] by simp
next
  case (3 a b c)
  then show ?thesis using unat_byte_bound [of a] unat_byte_bound [of b] unat_byte_bound [of c] by simp
next
  case (4 a b c d)
  then show ?thesis
    using unat_byte_bound [of a] unat_byte_bound [of b] unat_byte_bound [of c] unat_byte_bound [of d] by simp
qed

lemma byte_less_80: "(fb :: byte) < 0x80 \<longleftrightarrow> unat fb < 128"
  by (simp add: word_less_nat_alt)

lemma derLength_short: "l < 128 \<Longrightarrow> derLength l = [of_nat l]"
  by (simp add: derLength_def)

lemma derLength_nonempty [simp]: "derLength l \<noteq> []"
  by (simp add: derLength_def)

text \<open>The decoder of lengths accepts exactly the lengths the encoder writes.\<close>

lemma readLen_sound:
  assumes "readLen b pos = Inr (l, np)"
  shows "\<exists>rest. drop pos b = derLength l @ rest \<and> np = pos + length (derLength l) \<and> l < 2 ^ 32 \<and>
    (128 \<le> l \<longrightarrow> l \<le> length rest)"
proof -
  have pos: "pos < length b" using assms by (auto simp: readLen_def split: if_splits)
  define fb where "fb = b ! pos"
  have drop: "drop pos b = fb # drop (pos + 1) b"
    using pos by (simp add: fb_def Cons_nth_drop_Suc)
  show ?thesis
  proof (cases "fb < 0x80")
    case True
    with assms pos have "l = unat fb" "np = pos + 1" by (simp_all add: readLen_def fb_def)
    with True show ?thesis
      by (simp add: drop derLength_short byte_less_80 order_less_trans [of _ 128])
  next
    case False
    define n where "n = unat (fb AND 0x7F)"
    define bs where "bs = take n (drop (pos + 1) b)"
    have n: "1 \<le> n" "n \<le> 4" "pos + 1 + n \<le> length b" and hd0: "b ! (pos + 1) \<noteq> 0"
      and l: "l = be_nat bs" "128 \<le> l" "l \<le> length b - (pos + 1 + n)" and np: "np = pos + 1 + n"
      using assms pos False
      by (auto simp: readLen_def Let_def fb_def n_def bs_def simp del: One_nat_def split: if_splits)
    have len: "length bs = n" using n by (simp add: bs_def)
    have "hd bs = b ! (pos + 1)" using n by (simp add: bs_def hd_drop_conv_nth)
    then have der: "derLength l = of_nat (128 + n) # bs"
      using derLength_of_bytes [of bs] n len hd0 l by simp
    have "128 + n = unat fb"
      using False unat_byte_bound [of fb] by (simp add: n_def unat_and_7F byte_less_80 le_mod_geq)
    then have "fb = of_nat (128 + n)" by (simp del: of_nat_add)
    then have "drop pos b = derLength l @ drop (pos + 1 + n) b"
      using der drop append_take_drop_id [of n "drop (pos + 1) b"] by (simp add: bs_def add.commute)
    moreover have "l < 2 ^ 32" using be_nat_bound [of bs] n len l by simp
    ultimately show ?thesis using l np der len by auto
  qed
qed

lemma readLen_complete:
  assumes "drop pos b = derLength l @ rest" and "l < 2 ^ 32" and "128 \<le> l \<longrightarrow> l \<le> length rest"
  shows "readLen b pos = Inr (l, pos + length (derLength l))"
proof -
  have pos: "pos < length b" using assms(1) by (metis derLength_nonempty append_is_Nil_conv drop_all not_le)
  show ?thesis
  proof (cases "l < 128")
    case True
    then have "b ! pos = of_nat l"
      using assms(1) pos by (simp add: derLength_short hd_drop_conv_nth [symmetric])
    with True pos show ?thesis
      by (simp add: readLen_def derLength_short byte_less_80 unsigned_of_nat take_bit_eq_mod)
  next
    case False
    then obtain bs where der: "derLength l = of_nat (128 + length bs) # bs"
      and bs: "1 \<le> length bs" "length bs \<le> 4" "hd bs \<noteq> 0" "be_nat bs = l"
      using assms(2) derLength_long [of l] by (metis not_le)
    have fb: "b ! pos = of_nat (128 + length bs)"
      using assms(1) pos der by (simp add: hd_drop_conv_nth [symmetric])
    have unat_fb: "unat (b ! pos) = 128 + length bs"
      unfolding fb using bs(2) by (simp add: unsigned_of_nat take_bit_eq_mod del: of_nat_add)
    have dr: "drop (pos + 1) b = bs @ rest"
      using assms(1) der pos by (metis Cons_nth_drop_Suc Suc_eq_plus1 append_Cons list.inject)
    have "length (drop (pos + 1) b) = length bs + length rest" unfolding dr by simp
    then have len: "length b = pos + 1 + length bs + length rest" using pos by simp
    have "bs \<noteq> []" using bs(1) by auto
    then have "b ! (pos + 1) = hd bs"
      using arg_cong [OF dr, of "\<lambda>xs. xs ! 0"] len by (simp add: nth_append hd_conv_nth)
    with \<open>bs \<noteq> []\<close> bs dr len pos unat_fb False assms(3) show ?thesis
      by (simp add: readLen_def Let_def byte_less_80 unat_and_7F der)
  qed
qed

section \<open>Integers\<close>

lemma and_80_iff_ge: "(y :: byte) AND 0x80 \<noteq> 0 \<longleftrightarrow> 128 \<le> unat y"
  by (simp add: and_80_iff not_less)

lemma uint_byte: "uint (y :: byte) = int (unat y)"
  by simp

lemma be_int_skip:
  "unat y < 128 \<Longrightarrow> be_int (0 # y # r) = be_int (y # r)"
  "128 \<le> unat y \<Longrightarrow> be_int (0xFF # y # r) = be_int (y # r)"
  by (simp_all add: be_int_def and_80_iff and_80_iff_ge)

lemma be_int_strip00: "be_int (strip00 b) = be_int b"
  by (induction b rule: strip00.induct) (simp_all add: and_80_iff be_int_skip)

lemma be_int_stripFF: "be_int (stripFF b) = be_int b"
  by (induction b rule: stripFF.induct) (simp_all add: and_80_iff_ge be_int_skip)

lemma strip00_minimal:
  "b \<noteq> [] \<Longrightarrow> \<exists>x r. strip00 b = x # r \<and> (\<forall>y r'. r = y # r' \<longrightarrow> \<not> (x = 0 \<and> y AND 0x80 = 0))"
  by (induction b rule: strip00.induct) auto

lemma stripFF_minimal:
  "b = x # r \<Longrightarrow> (\<And>y r'. r = y # r' \<Longrightarrow> \<not> (x = 0 \<and> y AND 0x80 = 0)) \<Longrightarrow>
   \<not> nonMinimalInt (stripFF b) \<and> stripFF b \<noteq> []"
proof (induction b arbitrary: x r rule: stripFF.induct)
  case (1 u v w)
  show ?case
  proof (cases "u = 0xFF \<and> v AND 0x80 \<noteq> 0")
    case True
    then have "v \<noteq> 0" by auto
    with True "1.IH" [OF True refl] show ?thesis by auto
  next
    case False
    with "1.prems" show ?thesis by (auto simp: nonMinimalInt_def)
  qed
qed (auto simp: nonMinimalInt_def)

lemma strip_minimal:
  assumes "b \<noteq> []"
  shows "\<not> nonMinimalInt (stripFF (strip00 b)) \<and> stripFF (strip00 b) \<noteq> []"
proof -
  obtain x r where xr: "strip00 b = x # r" "\<forall>y r'. r = y # r' \<longrightarrow> \<not> (x = 0 \<and> y AND 0x80 = 0)"
    using strip00_minimal [OF assms] by blast
  show ?thesis
    by (rule stripFF_minimal [OF xr(1)]) (use xr(2) in blast)
qed

lemma encodeInt32_minimal: "\<not> nonMinimalInt (encodeInt32 v) \<and> encodeInt32 v \<noteq> []"
  unfolding encodeInt32_def by (rule strip_minimal) simp

lemma length_strip00: "length (strip00 b) \<le> length b"
  by (induction b rule: strip00.induct) auto

lemma length_stripFF: "length (stripFF b) \<le> length b"
  by (induction b rule: stripFF.induct) auto

lemma horner_minus_one:
  "(((- 1 * 256 + x) * 256 + y) * 256 + z) * 256 + w =
   - 4294967296 + (((x * 256 + y) * 256 + z) * 256 + (w :: int))"
  by (simp add: algebra_simps)

lemma be_int_4:
  "be_int [a, b, c, d] =
    (if 128 \<le> unat a then - 4294967296 else 0) +
    (((uint a * 256 + uint b) * 256 + uint c) * 256 + uint d)"
proof (cases "128 \<le> unat a")
  case True
  then have "a AND 0x80 \<noteq> 0" by (simp only: and_80_iff_ge not_False_eq_True)
  then show ?thesis
    unfolding be_int_def foldl_Cons foldl_Nil list.sel if_P [OF True]
    by (simp only: not_False_eq_True if_True horner_minus_one)
next
  case False
  then have "a AND 0x80 = 0" by (metis and_80_iff_ge)
  then show ?thesis
    unfolding be_int_def foldl_Cons foldl_Nil list.sel if_not_P [OF False]
    by simp
qed

lemma be_int_encode: "be_int (encodeInt32 v) = be_int [ucast (drop_bit 24 v), ucast (drop_bit 16 v), ucast (drop_bit 8 v), ucast v]"
  by (simp only: encodeInt32_def be_int_strip00 be_int_stripFF)

lemma length_encodeInt32: "length (encodeInt32 v) \<le> 4"
  unfolding encodeInt32_def
  by (rule order_trans [OF length_stripFF order_trans [OF length_strip00]]) simp

lemma horner_int:
  "(((n div 256 div 256 div 256) * 256 + (n div 256 div 256) mod 256) * 256 +
     (n div 256) mod 256) * 256 + n mod 256 = (n :: int)"
  by (simp only: div_mult_mod_eq)

lemma uint_byte_of: "uint (ucast (drop_bit k (v :: u32)) :: byte) = (uint v div 2 ^ k) mod 256"
proof -
  have "uint (drop_bit k v) = drop_bit k (uint v)"
    using uint_bounded [of v] unfolding unsigned_drop_bit_eq by (simp add: take_bit_int_eq_self)
  then show ?thesis
    unfolding unsigned_ucast_eq take_bit_eq_mod [where 'a = int] by (simp add: drop_bit_eq_div [where 'a = int])
qed

lemma div_256_int:
  "(n :: int) div 2 ^ 8 = n div 256"
  "n div 2 ^ 16 = n div 256 div 256"
  "n div 2 ^ 24 = n div 256 div 256 div 256"
  using zdiv_zmult2_eq [of 256 n 256] zdiv_zmult2_eq [of 256 n 65536] zdiv_zmult2_eq [of 256 "n div 256" 256]
  by simp_all

lemma be_int_encodeInt32:
  "be_int (encodeInt32 v) = (if uint v < 2147483648 then 0 else - 4294967296) + uint v"
proof -
  define n where "n = uint v"
  let ?a = "ucast (drop_bit 24 v) :: byte"
  have b: "0 \<le> n" "n < 256 * (256 * (256 * 256))"
    using uint_bounded [of v] by (simp_all add: n_def)
  have q: "n div 256 div 256 div 256 = n div (256 * (256 * 256))"
    by (simp add: zdiv_zmult2_eq [symmetric])
  have "n div (256 * (256 * 256)) < 256"
    using b(2) by (simp add: div_less_iff_less_mult)
  then have a: "uint ?a = n div 256 div 256 div 256"
    using b(1) unfolding uint_byte_of div_256_int n_def [symmetric] q
    by (simp add: pos_imp_zdiv_nonneg_iff)
  have "128 \<le> unat ?a \<longleftrightarrow> 128 \<le> uint ?a"
    using uint_byte [of ?a] by linarith
  also have "\<dots> \<longleftrightarrow> \<not> n < 2147483648"
    unfolding a q using mult_div_mod_eq [of "256 * (256 * 256)" n]
      pos_mod_bound [of "256 * (256 * 256)" n] pos_mod_sign [of "256 * (256 * 256)" n]
    by simp linarith
  finally have sgn: "128 \<le> unat ?a \<longleftrightarrow> \<not> n < 2147483648" .
  have 0: "uint (ucast v :: byte) = n mod 256"
    using uint_byte_of [of 0 v] by (simp add: n_def)
  have "((uint ?a * 256 + uint (ucast (drop_bit 16 v) :: byte)) * 256 +
      uint (ucast (drop_bit 8 v) :: byte)) * 256 + uint (ucast v :: byte) = n"
    unfolding a 0 unfolding uint_byte_of div_256_int n_def [symmetric] by (rule horner_int)
  then show ?thesis
    unfolding be_int_encode be_int_4 sgn n_def by simp
qed

lemma parseInt32_encodeInt32: "parseInt32 (encodeInt32 v) = Inr v"
proof -
  have "word_of_int (- 4294967296 + uint v) = v"
  proof -
    have "word_of_int (- 4294967296 + uint v) = (word_of_int (- 4294967296) :: u32) + word_of_int (uint v)"
      by (rule of_int_add)
    then show ?thesis by simp
  qed
  moreover have "uint v < 4294967296" "\<not> uint v < - 2147483648"
    using uint_bounded [of v] uint_nonnegative [of v] by (simp, linarith)
  ultimately show ?thesis
    using encodeInt32_minimal [of v] length_encodeInt32 [of v]
    unfolding parseInt32_def Let_def be_int_encodeInt32 by simp
qed

lemma strip00_pad:
  "b = x # r \<Longrightarrow> unat x < 128 \<Longrightarrow> \<not> nonMinimalInt b \<Longrightarrow> strip00 (replicate k 0 @ b) = b"
proof (induction k)
  case 0
  then show ?case by (cases r) (auto simp: nonMinimalInt_def)
next
  case (Suc k)
  then show ?case by (cases k) (auto simp: and_80_iff)
qed

lemma stripFF_pad:
  "b = x # r \<Longrightarrow> 128 \<le> unat x \<Longrightarrow> \<not> nonMinimalInt b \<Longrightarrow> stripFF (replicate k 0xFF @ b) = b"
proof (induction k)
  case 0
  then show ?case by (cases r) (auto simp: nonMinimalInt_def)
next
  case (Suc k)
  have "128 \<le> unat (0xFF :: byte)" by simp
  with Suc show ?case by (cases k) (auto simp: and_80_iff_ge)
qed

lemma strip_id: "\<not> nonMinimalInt b \<Longrightarrow> strip00 b = b" "\<not> nonMinimalInt b \<Longrightarrow> stripFF b = b"
  by (cases b rule: strip00.cases; auto simp: nonMinimalInt_def)+

lemma strip00_high: "128 \<le> unat x \<Longrightarrow> strip00 (x # r) = x # r"
  by (cases r) auto

lemma strip_sign_extend:
  assumes "b \<noteq> []" "\<not> nonMinimalInt b"
  shows "stripFF (strip00 (sign_extend b)) = b"
proof -
  obtain x r where b: "b = x # r" using assms(1) by (cases b) auto
  show ?thesis
  proof (cases "128 \<le> unat x")
    case True
    have "strip00 (replicate k 0xFF @ b) = replicate k 0xFF @ b" for k
      using True by (cases k) (simp_all add: b strip00_high)
    then show ?thesis
      using True by (simp add: sign_extend_def stripFF_pad [OF b True assms(2)]) (simp add: b)
  next
    case False
    then show ?thesis
      using strip00_pad [OF b _ assms(2)] strip_id(2) [OF assms(2)] by (simp add: sign_extend_def b)
  qed
qed

lemma be_int_sign_extend: "b \<noteq> [] \<Longrightarrow> \<not> nonMinimalInt b \<Longrightarrow> be_int (sign_extend b) = be_int b"
  using be_int_stripFF [of "strip00 (sign_extend b)"] be_int_strip00 [of "sign_extend b"]
  by (simp add: strip_sign_extend)

lemma int_horner_step:
  "0 \<le> d \<Longrightarrow> d < 256 \<Longrightarrow> (x * 256 + d) div 256 = x \<and> (x * 256 + d) mod 256 = (d :: int)"
  by simp

lemma uint_byte_range: "0 \<le> uint (a :: byte)" "uint a < 256"
  using uint_bounded [of a] by simp_all

lemma bytes_of_word4:
  fixes w :: u32
  assumes w: "uint w = ((uint a * 256 + uint b) * 256 + uint c) * 256 + uint (d :: byte)"
  shows "[ucast (drop_bit 24 w), ucast (drop_bit 16 w), ucast (drop_bit 8 w), ucast w] = [a, b, c, d]"
proof -
  note r = uint_byte_range int_horner_step [OF uint_byte_range]
  have "uint (ucast w :: byte) = uint d"
    using uint_byte_of [of 0 w] unfolding w by (simp only: drop_bit_0 id_apply power_0 div_by_1 r)
  moreover have "uint (ucast (drop_bit 8 w) :: byte) = uint c"
    unfolding uint_byte_of div_256_int w by (simp only: r)
  moreover have "uint (ucast (drop_bit 16 w) :: byte) = uint b"
    unfolding uint_byte_of div_256_int w by (simp only: r)
  moreover have "uint (ucast (drop_bit 24 w) :: byte) = uint a"
    unfolding uint_byte_of div_256_int w
    by (simp only: r) (simp add: uint_byte_range)
  ultimately show ?thesis
    unfolding list.inject by (blast intro: word_uint_eqI)
qed

lemma horner_expand:
  "((a * 256 + b) * 256 + c) * 256 + d = a * 16777216 + b * 65536 + c * 256 + (d :: int)"
  by (simp add: algebra_simps)

lemma unat_ge_128_iff: "128 \<le> unat (y :: byte) \<longleftrightarrow> 128 \<le> uint y"
  using uint_byte [of y] by linarith

lemma be_int_5:
  "be_int [x0, x1, x2, x3, x4] =
    uint x0 * 4294967296 + (if 128 \<le> uint x0 then - 1099511627776 else 0) +
    (uint x1 * 16777216 + uint x2 * 65536 + uint x3 * 256 + uint x4)"
  by (simp add: be_int_def and_80_iff_ge unat_ge_128_iff)

lemma be_int_5_range:
  assumes v: "- 2147483648 \<le> be_int [x0, x1, x2, x3, x4]" "be_int [x0, x1, x2, x3, x4] \<le> 2147483647"
  shows "uint x0 = 255 \<and> 128 \<le> uint x1 \<or> uint x0 = 0 \<and> \<not> 128 \<le> uint x1"
proof -
  note r = uint_byte_range [of x0] uint_byte_range [of x1] uint_byte_range [of x2]
    uint_byte_range [of x3] uint_byte_range [of x4]
  show ?thesis
  proof (cases "128 \<le> uint x0")
    case True
    note v' = v [unfolded be_int_5 if_P [OF True]]
    have "uint x0 = 255" using v' r by linarith
    moreover from this have "128 \<le> uint x1" using v' r by linarith
    ultimately show ?thesis by blast
  next
    case False
    note v' = v [unfolded be_int_5 if_not_P [OF False]]
    have "uint x0 = 0" using v' r by linarith
    moreover from this have "\<not> 128 \<le> uint x1" using v' r by linarith
    ultimately show ?thesis by blast
  qed
qed

lemma parseInt32_length:
  assumes "parseInt32 b = Inr w"
  shows "b \<noteq> [] \<and> length b \<le> 4 \<and> \<not> nonMinimalInt b"
proof (rule ccontr)
  have p: "b \<noteq> []" "length b \<le> 5" "\<not> nonMinimalInt b" "- 2147483648 \<le> be_int b" "be_int b \<le> 2147483647"
    using assms by (auto simp: parseInt32_def Let_def split: if_splits)
  assume "\<not> ?thesis"
  with p have "length b = 5" by auto
  then obtain x0 x1 x2 x3 x4 where b: "b = [x0, x1, x2, x3, x4]"
    by (auto simp: length_Suc_conv numeral_eq_Suc)
  have "x0 = 0xFF \<longleftrightarrow> uint x0 = 255" "x0 = 0 \<longleftrightarrow> uint x0 = 0" "x1 AND 0x80 = 0 \<longleftrightarrow> \<not> 128 \<le> uint x1"
    using and_80_iff_ge [of x1] by (auto simp add: word_uint_eq_iff unat_ge_128_iff)
  then show False
    using be_int_5_range [of x0 x1 x2 x3 x4] p(3-5)
    by (auto simp only: b nonMinimalInt_def list.case)
qed

theorem encodeInt32_parseInt32:
  assumes "parseInt32 b = Inr w"
  shows "encodeInt32 w = b"
proof -
  have b: "b \<noteq> []" "length b \<le> 4" "\<not> nonMinimalInt b"
    using parseInt32_length [OF assms] by blast+
  have w: "w = word_of_int (be_int b)"
    using assms by (auto simp: parseInt32_def Let_def split: if_splits)
  have "length (sign_extend b) = 4" using b by (simp add: sign_extend_def)
  then obtain x0 x1 x2 x3 where e: "sign_extend b = [x0, x1, x2, x3]"
    by (auto simp: length_Suc_conv numeral_eq_Suc)
  note x = uint_byte_range [of x0] uint_byte_range [of x1] uint_byte_range [of x2] uint_byte_range [of x3]
  define u where "u = ((uint x0 * 256 + uint x1) * 256 + uint x2) * 256 + uint x3"
  have u: "0 \<le> u" "u < 4294967296"
    unfolding u_def horner_expand using x by linarith+
  have "be_int b = (if 128 \<le> unat x0 then - 4294967296 else 0) + u"
    using be_int_sign_extend [OF b(1,3)] by (simp only: e be_int_4 u_def)
  then have "be_int b mod 4294967296 = u"
    using u by (simp split: if_splits)
  then have "uint w = u"
    by (simp add: w unsigned_of_int take_bit_eq_mod)
  then have "[ucast (drop_bit 24 w), ucast (drop_bit 16 w), ucast (drop_bit 8 w), ucast w] = sign_extend b"
    unfolding e u_def by (rule bytes_of_word4)
  then show ?thesis
    unfolding encodeInt32_def by (simp only: strip_sign_extend [OF b(1,3)])
qed

section \<open>Elements\<close>

lemma appendTLV_prefix: "appendTLV dst t v = dst @ appendTLV [] t v"
  by (simp add: appendTLV_def)

lemma readTLV_sound:
  assumes "pos < length b" "readTLV b pos = Inr (l, np)"
  shows "drop pos b = appendTLV [] (b ! pos) (slice b np l) @ drop (np + l) b" and "np + l \<le> length b"
    and "pos < np"
proof -
  have r: "readLen b (pos + 1) = Inr (l, np)" "np + l \<le> length b"
    using assms(2) by (auto simp: readTLV_def bind_sum_eq_Inr split: if_splits)
  obtain rest where d: "drop (pos + 1) b = derLength l @ rest" "np = pos + 1 + length (derLength l)"
    using readLen_sound [OF r(1)] by blast
  have "rest = drop np b"
    using arg_cong [OF d(1), of "drop (length (derLength l))"] by (simp add: d(2) add.commute)
  then have "rest = slice b np l @ drop (np + l) b"
    by (simp add: slice_def add.commute flip: drop_drop)
  moreover have "length (slice b np l) = l"
    using r(2) by (simp add: slice_def)
  ultimately show "drop pos b = appendTLV [] (b ! pos) (slice b np l) @ drop (np + l) b"
    using d(1) assms(1) by (simp add: appendTLV_def Cons_nth_drop_Suc [symmetric])
  show "np + l \<le> length b" "pos < np" using r(2) d(2) by auto
qed

lemma readTLV_complete:
  assumes "drop pos b = appendTLV [] t v @ rest" "length v < 2 ^ 32"
  shows "pos < length b \<and> b ! pos = t \<and>
    (\<exists>np. readTLV b pos = Inr (length v, np) \<and> slice b np (length v) = v \<and>
      np + length v \<le> length b \<and> length b = np + length v + length rest \<and> drop (np + length v) b = rest)"
proof -
  let ?np = "pos + 1 + length (derLength (length v))"
  have p: "pos < length b"
    using assms(1) by (metis appendTLV_def append_is_Nil_conv drop_all list.distinct(1) not_le)
  have d: "b ! pos = t" "drop (pos + 1) b = derLength (length v) @ v @ rest"
    using assms(1) p by (simp_all add: appendTLV_def Cons_nth_drop_Suc [symmetric])
  have "drop ?np b = drop (length (derLength (length v))) (drop (pos + 1) b)"
    by (simp add: add.commute)
  then have n: "drop ?np b = v @ rest" unfolding d(2) by simp
  have "length (drop (pos + 1) b) = length (derLength (length v)) + length v + length rest"
    unfolding d(2) by simp
  then have len: "length b = ?np + length v + length rest" using p by simp
  have r: "readLen b (pos + 1) = Inr (length v, ?np)"
    by (rule readLen_complete [OF d(2) assms(2)]) simp
  have "drop (?np + length v) b = rest"
    using n by (metis add.commute append_eq_conv_conj drop_drop)
  with p d(1) n len r show ?thesis
    by (intro conjI exI [of _ ?np]) (auto simp: readTLV_def slice_def)
qed

section \<open>Identities\<close>

lemma decodeFirst_sound:
  assumes "decodeFirst b pos = Inr (r, pos')"
  shows "\<exists>t v. drop pos b = appendTLV [] t v @ drop pos' b \<and> pos < pos' \<and> pos' \<le> length b \<and> Data r = [] \<and>
    (t = tagInteger \<and> IsInt r \<and> Str r = [] \<and> parseInt32 v = Inr (Int32 r) \<or>
     (t = tagUTF8String \<or> t = tagPrintableString) \<and> \<not> IsInt r \<and> Int32 r = 0 \<and> Str r = v)"
proof -
  have p: "pos < length b" using assms by (auto simp: decodeFirst_def split: if_splits)
  obtain l np where r: "readTLV b pos = Inr (l, np)" "pos' = np + l"
    using assms by (auto simp: decodeFirst_def sum_elims split: if_splits)
  show ?thesis
    using assms p r(1) readTLV_sound [OF p r(1)]
    by (intro exI [of _ "b ! pos"] exI [of _ "slice b np l"])
      (auto simp: decodeFirst_def r(2) sum_elims split: if_splits)
qed

lemma decodeFirst_complete:
  assumes "drop pos b = appendTLV [] t v @ rest" "length v < 2 ^ 32"
    and "if t = tagInteger then parseInt32 v = Inr (Int32 r) \<and> IsInt r \<and> Str r = []
         else (t = tagUTF8String \<or> t = tagPrintableString) \<and> \<not> IsInt r \<and> Int32 r = 0 \<and> Str r = v"
    and "Data r = []"
  shows "\<exists>pos'. decodeFirst b pos = Inr (r, pos') \<and> drop pos' b = rest \<and> pos' \<le> length b"
proof -
  obtain np where n: "pos < length b" "b ! pos = t" "readTLV b pos = Inr (length v, np)"
      "slice b np (length v) = v" "drop (np + length v) b = rest" "np + length v \<le> length b"
    using readTLV_complete [OF assms(1,2)] by blast
  show ?thesis
    using n assms(3,4)
    by (intro exI [of _ "np + length v"]) (cases r, auto simp: decodeFirst_def split: if_splits)
qed

lemma EncodeIdentity_wire: "EncodeIdentity t data = wire tagInteger (encodeInt32 t) data"
  by (simp add: EncodeIdentity_def wire_def)

lemma DecodeIdentity_sound:
  assumes "DecodeIdentity b = Inr r"
  shows "\<exists>t v. b = wire t v (Data r) \<and>
    (t = tagInteger \<and> IsInt r \<and> Str r = [] \<and> parseInt32 v = Inr (Int32 r) \<or>
     (t = tagUTF8String \<or> t = tagPrintableString) \<and> Str r = v \<and> IsInt r = (legacy_type v \<noteq> None) \<and>
       Int32 r = (case legacy_type v of None \<Rightarrow> 0 | Some ty \<Rightarrow> ty))"
proof -
  obtain sl pos r0 pos1 l np where d: "b \<noteq> []" "hd b = tagSequence" "readLen b 1 = Inr (sl, pos)"
      "pos + sl = length b" "decodeFirst b pos = Inr (r0, pos1)" "pos1 < length b"
      "b ! pos1 = tagOctetString" "readTLV b pos1 = Inr (l, np)" "np + l = length b"
      "r = legacyConvert (r0\<lparr>Data := slice b np l\<rparr>)"
    using assms by (auto simp: DecodeIdentity_def sum_elims split: if_splits)
  have "readTLV b 0 = Inr (sl, pos)"
    using d(3,4) by (simp add: readTLV_def)
  from readTLV_sound [OF _ this] d(1,2,4)
  have 0: "b = appendTLV [] tagSequence (drop pos b)"
    by (simp add: hd_conv_nth slice_def)
  have 2: "drop pos1 b = appendTLV [] tagOctetString (slice b np l)"
    using readTLV_sound(1) [OF d(6,8)] d(7,9) by simp
  obtain t v where 1: "drop pos b = appendTLV [] t v @ drop pos1 b" "Data r0 = []"
      "t = tagInteger \<and> IsInt r0 \<and> Str r0 = [] \<and> parseInt32 v = Inr (Int32 r0) \<or>
       (t = tagUTF8String \<or> t = tagPrintableString) \<and> \<not> IsInt r0 \<and> Int32 r0 = 0 \<and> Str r0 = v"
    using decodeFirst_sound [OF d(5)] by blast
  have "b = wire t v (slice b np l)"
    unfolding wire_def using 0 1(1) 2 by simp
  moreover have "Data r = slice b np l"
    by (simp add: d(10) legacyConvert_def split: option.split)
  ultimately show ?thesis
    using 1(3) by (intro exI [of _ t] exI [of _ v]) (auto simp: d(10) legacyConvert_def split: option.split)
qed

lemma length_appendTLV: "length v < length (appendTLV d t v)"
  by (simp add: appendTLV_def)

lemma DecodeIdentity_complete:
  assumes "b = wire t v data" "length b < 2 ^ 32"
    and "if t = tagInteger then parseInt32 v = Inr (Int32 r) \<and> IsInt r \<and> Str r = []
         else (t = tagUTF8String \<or> t = tagPrintableString) \<and> \<not> IsInt r \<and> Int32 r = 0 \<and> Str r = v"
    and "Data r = []"
  shows "DecodeIdentity b = Inr (legacyConvert (r\<lparr>Data := data\<rparr>))"
proof -
  let ?in = "appendTLV [] t v @ appendTLV [] tagOctetString data"
  have lens: "length ?in < 2 ^ 32" "length v < 2 ^ 32" "length data < 2 ^ 32"
    using assms(2) length_appendTLV [of ?in "[]" tagSequence] length_appendTLV [of v "[]" t]
      length_appendTLV [of data "[]" tagOctetString]
    by (auto simp: assms(1) wire_def)
  have "drop 0 b = appendTLV [] tagSequence ?in @ []" by (simp add: assms(1) wire_def)
  from readTLV_complete [OF this lens(1)]
  obtain np where 0: "0 < length b" "b ! 0 = tagSequence" "readTLV b 0 = Inr (length ?in, np)"
      "slice b np (length ?in) = ?in" "length b = np + length ?in + length ([] :: bytes)"
    by blast
  have "drop np b = ?in" using 0(4,5) by (simp add: slice_def)
  from decodeFirst_complete [OF this lens(2) assms(3,4)]
  obtain pos' where 1: "decodeFirst b np = Inr (r, pos')" "drop pos' b = appendTLV [] tagOctetString data @ []"
    by auto
  from readTLV_complete [OF 1(2) lens(3)]
  obtain np' where 2: "pos' < length b" "b ! pos' = tagOctetString" "readTLV b pos' = Inr (length data, np')"
      "slice b np' (length data) = data" "length b = np' + length data + length ([] :: bytes)"
    by blast
  have "readLen b 1 = Inr (length ?in, np)"
    using 0(3) by (auto simp: readTLV_def sum_elims split: if_splits)
  moreover have "b \<noteq> []" "hd b = tagSequence" using 0(1,2) by (simp_all add: hd_conv_nth)
  moreover have "np + length ?in = length b" "np' + length data = length b" "\<not> length b \<le> pos'"
    using 0(5) 2(1,5) by simp_all
  ultimately show ?thesis
    using 1(1) 2(2-4) by (simp del: length_append add: DecodeIdentity_def)
qed

lemma DecodeIdentity_EncodeIdentity:
  "length (EncodeIdentity t data) < 2 ^ 32 \<Longrightarrow>
   DecodeIdentity (EncodeIdentity t data) = Inr \<lparr>IsInt = True, Int32 = t, Str = [], Data = data\<rparr>"
  using DecodeIdentity_complete [OF EncodeIdentity_wire, of t data "\<lparr>IsInt = True, Int32 = t, Str = [], Data = []\<rparr>"]
  by (simp add: parseInt32_encodeInt32 legacyConvert_def)

lemma length_derLength: "length (derLength l) \<le> 5"
  by (simp add: derLength_def)

lemma legacy_type_length: "legacy_type s = Some t \<Longrightarrow> 0 < length s \<and> length s \<le> 9"
  by (auto simp: legacy_type_def bytes_of_string_def split: if_splits)

text \<open>
  C17: A typed identity survives its wire format: decoding what \<open>WrapWithType\<close> wrote gives back the
  type (every int32, negative ones included) and the payload, as long as the encoding is within the
  4-byte lengths the format can express.
\<close>

theorem WrapWithType_roundtrip:
  assumes "length (WrapWithType t payload) < 2 ^ 32"
  shows "UnmarshalTypedIdentity (WrapWithType t payload) = Inr \<lparr>Ti_Type = t, Ti_Identity = payload\<rparr>"
  using assms DecodeIdentity_EncodeIdentity [of t payload]
  by (simp add: UnmarshalTypedIdentity_def WrapWithType_def TypedIdentity_Bytes_def)

theorem WrapWithType_roundtrip_witness:
  "length (WrapWithType 0xFFFFFFFE [1, 2, 3]) < 2 ^ 32 \<and>
   UnmarshalTypedIdentity (WrapWithType 0xFFFFFFFE [1, 2, 3]) =
     Inr \<lparr>Ti_Type = 0xFFFFFFFE, Ti_Identity = [1, 2, 3]\<rparr>"
proof -
  have "length (encodeInt32 0xFFFFFFFE) \<le> 4" by (rule length_encodeInt32)
  then have "length (WrapWithType 0xFFFFFFFE [1, 2, 3]) < 2 ^ 32"
    by (simp add: WrapWithType_def TypedIdentity_Bytes_def EncodeIdentity_def appendTLV_def derLength_def)
  then show ?thesis using WrapWithType_roundtrip by blast
qed

text \<open>
  C16: Canonicity of the decoder: a byte string that decodes to a typed identity is either exactly the
  encoding of that identity, or one of the legacy spellings, in which a UTF8String or PrintableString
  names the type. In particular no second spelling of a length or of an INTEGER is accepted, nothing
  may follow the SEQUENCE and nothing may hide behind the OCTET STRING.
\<close>

theorem UnmarshalTypedIdentity_canonical:
  assumes "UnmarshalTypedIdentity b = Inr i"
  shows "b = TypedIdentity_Bytes i \<or>
    (\<exists>tag s. (tag = tagUTF8String \<or> tag = tagPrintableString) \<and> legacy_type s = Some (Ti_Type i) \<and>
      b = appendTLV [] tagSequence (appendTLV [] tag s @ appendTLV [] tagOctetString (Ti_Identity i)))"
proof -
  obtain r where r: "DecodeIdentity b = Inr r" "IsInt r" "i = \<lparr>Ti_Type = Int32 r, Ti_Identity = Data r\<rparr>"
    using assms by (auto simp: UnmarshalTypedIdentity_def sum_elims wrap_err_def split: sum.splits if_splits)
  obtain t v where w: "b = wire t v (Data r)"
    and tv: "t = tagInteger \<and> parseInt32 v = Inr (Int32 r) \<or>
      (t = tagUTF8String \<or> t = tagPrintableString) \<and> legacy_type v = Some (Int32 r)"
    using DecodeIdentity_sound [OF r(1)] r(2) by (auto split: option.splits)
  from tv show ?thesis
  proof
    assume "t = tagInteger \<and> parseInt32 v = Inr (Int32 r)"
    then have "b = TypedIdentity_Bytes i"
      using encodeInt32_parseInt32 [of v "Int32 r"]
      by (simp add: w r(3) TypedIdentity_Bytes_def EncodeIdentity_wire)
    then show ?thesis ..
  next
    assume "(t = tagUTF8String \<or> t = tagPrintableString) \<and> legacy_type v = Some (Int32 r)"
    then show ?thesis using w r(3) unfolding wire_def by auto
  qed
qed

theorem UnmarshalTypedIdentity_canonical_witness:
  "UnmarshalTypedIdentity [0x30, 6, 2, 1, 2, 4, 1, 7] = Inr \<lparr>Ti_Type = 2, Ti_Identity = [7]\<rparr> \<and>
   ([0x30, 6, 2, 1, 2, 4, 1, 7] = TypedIdentity_Bytes \<lparr>Ti_Type = 2, Ti_Identity = [7]\<rparr> \<or>
    (\<exists>tag s. (tag = tagUTF8String \<or> tag = tagPrintableString) \<and> legacy_type s = Some 2 \<and>
      [0x30, 6, 2, 1, 2, 4, 1, 7] =
        appendTLV [] tagSequence (appendTLV [] tag s @ appendTLV [] tagOctetString [7])))"
proof -
  have u: "UnmarshalTypedIdentity [0x30, 6, 2, 1, 2, 4, 1, 7] = Inr \<lparr>Ti_Type = 2, Ti_Identity = [7]\<rparr>"
    by code_simp
  from UnmarshalTypedIdentity_canonical [OF this] u show ?thesis
    by simp
qed

text \<open>
  C18: The legacy spellings are real: for every type with a legacy name, the decoder maps at least two
  further byte strings (one per string tag) to the same typed identity as the canonical encoding, so a
  typed identity does not determine the bytes that \<open>UniqueID\<close> hashes.
\<close>

theorem legacy_spelling_accepted:
  assumes "legacy_type s = Some t" and "tag = tagUTF8String \<or> tag = tagPrintableString"
    and "length payload < 2 ^ 31"
  defines "b \<equiv> appendTLV [] tagSequence (appendTLV [] tag s @ appendTLV [] tagOctetString payload)"
  shows "UnmarshalTypedIdentity b = Inr \<lparr>Ti_Type = t, Ti_Identity = payload\<rparr> \<and>
    b \<noteq> TypedIdentity_Bytes \<lparr>Ti_Type = t, Ti_Identity = payload\<rparr>"
proof -
  have len: "length b < 2 ^ 32"
    using legacy_type_length [OF assms(1)] assms(3) length_derLength [of "length s"]
      length_derLength [of "length payload"]
      length_derLength [of "length (appendTLV [] tag s @ appendTLV [] tagOctetString payload)"]
    unfolding b_def by (simp add: appendTLV_def)
  have "tag \<noteq> tagInteger" using assms(2) by (auto simp: tag_defs)
  then have d: "DecodeIdentity b = Inr \<lparr>IsInt = True, Int32 = t, Str = s, Data = payload\<rparr>"
    using DecodeIdentity_complete [of b tag s payload "\<lparr>IsInt = False, Int32 = 0, Str = s, Data = []\<rparr>"]
      assms(1,2) len
    by (simp add: b_def wire_def legacyConvert_def)
  have "b \<noteq> EncodeIdentity t payload"
    using DecodeIdentity_EncodeIdentity [of t payload] d len legacy_type_length [OF assms(1)] by auto
  with d show ?thesis
    by (simp add: UnmarshalTypedIdentity_def TypedIdentity_Bytes_def)
qed

theorem legacy_spelling_accepted_witness:
  "UnmarshalTypedIdentity (appendTLV [] tagSequence
      (appendTLV [] tagUTF8String (bytes_of_string ''x509'') @ appendTLV [] tagOctetString [7])) =
    Inr \<lparr>Ti_Type = X509IdentityType, Ti_Identity = [7]\<rparr>"
  using legacy_spelling_accepted [of "bytes_of_string ''x509''" X509IdentityType tagUTF8String "[7]"]
  by (simp add: legacy_type_def)

end
