(* ===== verification/Keys.thy ===== *)
theory Keys
  imports Quantity
begin

text \<open>
  Ledger keys (\<open>src/token/services/network/common/rws/keys/keys.go\<close>) and the key-hashing wrapper
  \<open>HashedKeyTranslator\<close> of \<open>src/token/services/network/common/rws/translator/rwset.go\<close>.

  The interface \<open>KeyTranslator\<close> is the record \<open>key_translator\<close> of its methods
  (\<open>GetTransferMetadataSubKey\<close>, which no other code of the ledger calls, is defined beside it); the two Go
  implementations are the functions \<open>keys_Translator\<close> and \<open>HashedKeyTranslator\<close> into it. SHA-256
  is a parameter: the collision freeness the ledger relies on is a hypothesis of the theorems
  that need it. \<open>errors.Wrapf\<close> comes from a third-party package and is a parameter as well; only
  \<open>GetTransferMetadataSubKey\<close> calls it with an error that may be nil.

  The lemmas show that composite keys are injective and that keys of different kinds never meet,
  except for the two cases stated explicitly: an output key whose transaction identifier is the
  prefix of another kind, and serial-number keys of transaction identifiers of different lengths.
\<close>

section \<open>UTF-8\<close>

definition utf8_cont :: "nat \<Rightarrow> bool" where
  "utf8_cont c \<longleftrightarrow> 0x80 \<le> c \<and> c \<le> 0xBF"

text \<open>One multi-byte rune with first byte \<open>a\<close>, by the accept ranges of \<open>unicode/utf8\<close>.\<close>

definition utf8_step :: "nat \<Rightarrow> nat list \<Rightarrow> (nat \<times> nat list) option" where
  "utf8_step a r =
     (if 0xC2 \<le> a \<and> a \<le> 0xDF then
        (case r of
           b # r' \<Rightarrow> if utf8_cont b then Some ((a - 0xC0) * 64 + (b - 0x80), r') else None
         | _ \<Rightarrow> None)
      else if 0xE0 \<le> a \<and> a \<le> 0xEF then
        (case r of
           b # c # r' \<Rightarrow>
             if (if a = 0xE0 then 0xA0 else 0x80) \<le> b \<and> b \<le> (if a = 0xED then 0x9F else 0xBF) \<and> utf8_cont c
             then Some ((a - 0xE0) * 4096 + (b - 0x80) * 64 + (c - 0x80), r') else None
         | _ \<Rightarrow> None)
      else if 0xF0 \<le> a \<and> a \<le> 0xF4 then
        (case r of
           b # c # d # r' \<Rightarrow>
             if (if a = 0xF0 then 0x90 else 0x80) \<le> b \<and> b \<le> (if a = 0xF4 then 0x8F else 0xBF) \<and>
                utf8_cont c \<and> utf8_cont d
             then Some ((a - 0xF0) * 262144 + (b - 0x80) * 4096 + (c - 0x80) * 64 + (d - 0x80), r') else None
         | _ \<Rightarrow> None)
      else None)"

lemma utf8_step_shorter: "utf8_step a r = Some (x, r') \<Longrightarrow> length r' < length r"
  by (auto simp: utf8_step_def split: if_splits list.splits)

function utf8_runes :: "nat list \<Rightarrow> nat list option" where
  "utf8_runes [] = Some []"
| "utf8_runes (a # r) =
     (if a < 0x80 then map_option ((#) a) (utf8_runes r)
      else case utf8_step a r of
        None \<Rightarrow> None
      | Some (x, r') \<Rightarrow> map_option ((#) x) (utf8_runes r'))"
  by pat_completeness auto
termination
  by (relation "measure length") (auto dest: utf8_step_shorter)

section \<open>Composite keys\<close>

datatype k_error =
    ErrNotUtf8 string
  | ErrForbiddenRune
  | ErrNotEnoughComponents string
  | ErrSplit string k_error
  | ErrComponents string nat
  | ErrNoPrefix string

definition nul :: char where "nul = CHR 0x00"

definition OutputSNKeyPrefix :: string where "OutputSNKeyPrefix = ''osn''"
definition TokenSetupKeyPrefix :: string where "TokenSetupKeyPrefix = ''se''"
definition TokenSetupHashKeyPrefix :: string where "TokenSetupHashKeyPrefix = ''seh''"
definition TokenRequestKeyPrefix :: string where "TokenRequestKeyPrefix = ''tr''"
definition InputSerialNumberPrefix :: string where "InputSerialNumberPrefix = ''sn''"
definition IssueActionMetadataPrefix :: string where "IssueActionMetadataPrefix = ''iam''"
definition TransferActionMetadataPrefix :: string where "TransferActionMetadataPrefix = ''tam''"
definition numComponentsInKey :: nat where "numComponentsInKey = 2"

lemmas key_prefix_defs = OutputSNKeyPrefix_def TokenSetupKeyPrefix_def TokenSetupHashKeyPrefix_def
  TokenRequestKeyPrefix_def InputSerialNumberPrefix_def IssueActionMetadataPrefix_def
  TransferActionMetadataPrefix_def

definition validateCompositeKeyAttribute :: "string \<Rightarrow> k_error + unit" where
  "validateCompositeKeyAttribute str =
     (case utf8_runes (map of_char str) of
        None \<Rightarrow> Inl (ErrNotUtf8 str)
      | Some runes \<Rightarrow>
          if 0 \<in> set runes \<or> 0x10FFFF \<in> set runes then Inl ErrForbiddenRune else Inr ())"

definition createCompositeKey :: "string \<Rightarrow> string list \<Rightarrow> k_error + string" where
  "createCompositeKey objectType attributes =
     bind_sum (validateCompositeKeyAttribute objectType) (\<lambda>_.
       bind_sum
         (fold_sum (\<lambda>att sb. bind_sum (validateCompositeKeyAttribute att) (\<lambda>_. Inr (sb @ att @ [nul])))
            attributes [])
         (\<lambda>sb. Inr ([nul] @ objectType @ [nul] @ sb)))"

text \<open>
  The loop of \<open>splitCompositeKey\<close>: \<open>cur\<close> is \<open>compositeKey[componentIndex:i]\<close>. Bytes after the
  last separator are dropped.
\<close>

fun split_components :: "string \<Rightarrow> string \<Rightarrow> string list" where
  "split_components cur [] = []"
| "split_components cur (c # cs) =
     (if c = nul then cur # split_components [] cs else split_components (cur @ [c]) cs)"

definition splitCompositeKey :: "string \<Rightarrow> k_error + string \<times> string list" where
  "splitCompositeKey compositeKey =
     (let components = split_components [] (drop 1 compositeKey) in
      if length components < numComponentsInKey + 1 then Inl (ErrNotEnoughComponents compositeKey)
      else Inr (components ! 0, drop 1 components))"

section \<open>The key translator of the ledger\<close>

text \<open>\<open>hex.EncodeToString\<close> and \<open>binary.LittleEndian.PutUint64\<close>.\<close>

definition hex_encode :: "bytes \<Rightarrow> string" where
  "hex_encode bs = concat (map (\<lambda>b. [digit_char (unat b div 16), digit_char (unat b mod 16)]) bs)"

definition le64 :: "u64 \<Rightarrow> bytes" where
  "le64 w = map (\<lambda>i. ucast (drop_bit (8 * i) w)) [0..<8]"

definition CreateTokenRequestKey :: "string \<Rightarrow> k_error + string" where
  "CreateTokenRequestKey i = createCompositeKey TokenRequestKeyPrefix [i]"

definition CreateSetupKey :: "k_error + string" where
  "CreateSetupKey = createCompositeKey TokenSetupKeyPrefix []"

definition CreateSetupHashKey :: "k_error + string" where
  "CreateSetupHashKey = createCompositeKey TokenSetupHashKeyPrefix []"

definition sn_preimage :: "string \<Rightarrow> u64 \<Rightarrow> bytes \<Rightarrow> bytes" where
  "sn_preimage i index output =
     bytes_of_string OutputSNKeyPrefix @ bytes_of_string i @ le64 index @ output"

definition CreateOutputSNKey ::
    "(bytes \<Rightarrow> bytes) \<Rightarrow> string \<Rightarrow> u64 \<Rightarrow> bytes \<Rightarrow> k_error + string" where
  "CreateOutputSNKey sha256 i index output =
     createCompositeKey OutputSNKeyPrefix [hex_encode (sha256 (sn_preimage i index output))]"

definition CreateOutputKey :: "string \<Rightarrow> u64 \<Rightarrow> k_error + string" where
  "CreateOutputKey i index = createCompositeKey i [int_text 10 (uint index)]"

text \<open>
  The Go pair \<open>(key, err)\<close> is kept as a pair here, because a wrapped nil error is returned next to
  an empty key. \<open>wrapf\<close> is \<open>errors.Wrapf\<close>.
\<close>

definition GetTransferMetadataSubKey ::
    "(k_error option \<Rightarrow> k_error \<Rightarrow> k_error option) \<Rightarrow> string \<Rightarrow> string \<times> k_error option" where
  "GetTransferMetadataSubKey wrapf k =
     (case splitCompositeKey k of
        Inl err \<Rightarrow> ([], wrapf (Some err) (ErrSplit k err))
      | Inr (pre, components) \<Rightarrow>
          if length components \<noteq> 1 then ([], wrapf None (ErrComponents k (length components)))
          else if pre \<noteq> TransferActionMetadataPrefix then ([], Some (ErrNoPrefix k))
          else (components ! 0, None))"

definition CreateInputSNKey :: "string \<Rightarrow> k_error + string" where
  "CreateInputSNKey i = createCompositeKey InputSerialNumberPrefix [i]"

definition CreateIssueActionMetadataKey :: "string \<Rightarrow> k_error + string" where
  "CreateIssueActionMetadataKey key = createCompositeKey IssueActionMetadataPrefix [key]"

definition CreateTransferActionMetadataKey :: "string \<Rightarrow> k_error + string" where
  "CreateTransferActionMetadataKey key = createCompositeKey TransferActionMetadataPrefix [key]"

definition TransferActionMetadataKeyPrefix :: "k_error + string" where
  "TransferActionMetadataKeyPrefix = createCompositeKey TransferActionMetadataPrefix []"

text \<open>The interface \<open>KeyTranslator\<close> and its implementations.\<close>

record key_translator =
  Kt_TokenRequestKey :: "string \<Rightarrow> k_error + string"
  Kt_SetupKey :: "k_error + string"
  Kt_SetupHashKey :: "k_error + string"
  Kt_OutputKey :: "string \<Rightarrow> u64 \<Rightarrow> k_error + string"
  Kt_OutputSNKey :: "string \<Rightarrow> u64 \<Rightarrow> bytes \<Rightarrow> k_error + string"
  Kt_InputSNKey :: "string \<Rightarrow> k_error + string"
  Kt_IssueActionMetadataKey :: "string \<Rightarrow> k_error + string"
  Kt_TransferActionMetadataKey :: "string \<Rightarrow> k_error + string"
  Kt_TransferActionMetadataKeyPrefix :: "k_error + string"

definition keys_Translator :: "(bytes \<Rightarrow> bytes) \<Rightarrow> key_translator" where
  "keys_Translator sha256 =
     \<lparr>Kt_TokenRequestKey = CreateTokenRequestKey,
      Kt_SetupKey = CreateSetupKey,
      Kt_SetupHashKey = CreateSetupHashKey,
      Kt_OutputKey = CreateOutputKey,
      Kt_OutputSNKey = CreateOutputSNKey sha256,
      Kt_InputSNKey = CreateInputSNKey,
      Kt_IssueActionMetadataKey = CreateIssueActionMetadataKey,
      Kt_TransferActionMetadataKey = CreateTransferActionMetadataKey,
      Kt_TransferActionMetadataKeyPrefix = TransferActionMetadataKeyPrefix\<rparr>"

definition hashed_key :: "(bytes \<Rightarrow> bytes) \<Rightarrow> byte \<Rightarrow> string \<Rightarrow> k_error + string" where
  "hashed_key sha256 code k = Inr (hex_encode (sha256 (code # bytes_of_string k)))"

definition Hashed_TokenRequestKey :: "(bytes \<Rightarrow> bytes) \<Rightarrow> key_translator \<Rightarrow> string \<Rightarrow> k_error + string" where
  "Hashed_TokenRequestKey sha256 kt i = bind_sum (Kt_TokenRequestKey kt i) (hashed_key sha256 0)"

definition Hashed_SetupKey :: "(bytes \<Rightarrow> bytes) \<Rightarrow> key_translator \<Rightarrow> k_error + string" where
  "Hashed_SetupKey sha256 kt = bind_sum (Kt_SetupKey kt) (hashed_key sha256 1)"

definition Hashed_SetupHashKey :: "(bytes \<Rightarrow> bytes) \<Rightarrow> key_translator \<Rightarrow> k_error + string" where
  "Hashed_SetupHashKey sha256 kt = bind_sum (Kt_SetupHashKey kt) (hashed_key sha256 2)"

definition Hashed_OutputSNKey ::
    "(bytes \<Rightarrow> bytes) \<Rightarrow> key_translator \<Rightarrow> string \<Rightarrow> u64 \<Rightarrow> bytes \<Rightarrow> k_error + string" where
  "Hashed_OutputSNKey sha256 kt i index output =
     bind_sum (Kt_OutputSNKey kt i index output) (hashed_key sha256 3)"

definition Hashed_OutputKey ::
    "(bytes \<Rightarrow> bytes) \<Rightarrow> key_translator \<Rightarrow> string \<Rightarrow> u64 \<Rightarrow> k_error + string" where
  "Hashed_OutputKey sha256 kt i index = bind_sum (Kt_OutputKey kt i index) (hashed_key sha256 4)"

definition Hashed_InputSNKey :: "(bytes \<Rightarrow> bytes) \<Rightarrow> key_translator \<Rightarrow> string \<Rightarrow> k_error + string" where
  "Hashed_InputSNKey sha256 kt i = bind_sum (Kt_InputSNKey kt i) (hashed_key sha256 6)"

definition Hashed_IssueActionMetadataKey ::
    "(bytes \<Rightarrow> bytes) \<Rightarrow> key_translator \<Rightarrow> string \<Rightarrow> k_error + string" where
  "Hashed_IssueActionMetadataKey sha256 kt key =
     bind_sum (Kt_IssueActionMetadataKey kt key) (hashed_key sha256 7)"

definition Hashed_TransferActionMetadataKey ::
    "(bytes \<Rightarrow> bytes) \<Rightarrow> key_translator \<Rightarrow> string \<Rightarrow> k_error + string" where
  "Hashed_TransferActionMetadataKey sha256 kt key =
     bind_sum (Kt_TransferActionMetadataKey kt key) (hashed_key sha256 8)"

definition Hashed_TransferActionMetadataKeyPrefix :: "k_error + string" where
  "Hashed_TransferActionMetadataKeyPrefix = Inr []"

definition HashedKeyTranslator :: "(bytes \<Rightarrow> bytes) \<Rightarrow> key_translator \<Rightarrow> key_translator" where
  "HashedKeyTranslator sha256 kt =
     \<lparr>Kt_TokenRequestKey = Hashed_TokenRequestKey sha256 kt,
      Kt_SetupKey = Hashed_SetupKey sha256 kt,
      Kt_SetupHashKey = Hashed_SetupHashKey sha256 kt,
      Kt_OutputKey = Hashed_OutputKey sha256 kt,
      Kt_OutputSNKey = Hashed_OutputSNKey sha256 kt,
      Kt_InputSNKey = Hashed_InputSNKey sha256 kt,
      Kt_IssueActionMetadataKey = Hashed_IssueActionMetadataKey sha256 kt,
      Kt_TransferActionMetadataKey = Hashed_TransferActionMetadataKey sha256 kt,
      Kt_TransferActionMetadataKeyPrefix = Hashed_TransferActionMetadataKeyPrefix\<rparr>"

lemmas kt_defs = keys_Translator_def CreateTokenRequestKey_def CreateSetupKey_def CreateSetupHashKey_def
  CreateOutputKey_def CreateOutputSNKey_def CreateInputSNKey_def CreateIssueActionMetadataKey_def
  CreateTransferActionMetadataKey_def

section \<open>Kinds of keys\<close>

datatype ledger_key =
    KTokenRequest string
  | KSetup
  | KSetupHash
  | KOutput string u64
  | KOutputSN string u64 bytes
  | KInputSN string
  | KIssueMetadata string
  | KTransferMetadata string

fun key_of :: "key_translator \<Rightarrow> ledger_key \<Rightarrow> k_error + string" where
  "key_of kt (KTokenRequest i) = Kt_TokenRequestKey kt i"
| "key_of kt KSetup = Kt_SetupKey kt"
| "key_of kt KSetupHash = Kt_SetupHashKey kt"
| "key_of kt (KOutput i n) = Kt_OutputKey kt i n"
| "key_of kt (KOutputSN i n out) = Kt_OutputSNKey kt i n out"
| "key_of kt (KInputSN i) = Kt_InputSNKey kt i"
| "key_of kt (KIssueMetadata k) = Kt_IssueActionMetadataKey kt k"
| "key_of kt (KTransferMetadata k) = Kt_TransferActionMetadataKey kt k"

definition reserved_prefixes :: "string set" where
  "reserved_prefixes = {''osn'', ''se'', ''seh'', ''tr'', ''sn'', ''iam'', ''tam''}"

fun proper_key :: "ledger_key \<Rightarrow> bool" where
  "proper_key (KOutput i n) \<longleftrightarrow> i \<notin> reserved_prefixes"
| "proper_key _ \<longleftrightarrow> True"

fun is_KOutputSN :: "ledger_key \<Rightarrow> bool" where
  "is_KOutputSN (KOutputSN i n out) \<longleftrightarrow> True"
| "is_KOutputSN _ \<longleftrightarrow> False"

section \<open>Injectivity of composite keys\<close>

lemma utf8_step_no_zero: "utf8_step a r = Some (x, r') \<Longrightarrow> 0 \<in> set r \<Longrightarrow> 0 \<in> set r'"
  by (auto simp: utf8_step_def utf8_cont_def split: if_splits list.splits)

lemma utf8_runes_zero: "utf8_runes bs = Some rs \<Longrightarrow> 0 \<in> set bs \<Longrightarrow> 0 \<in> set rs"
proof (induction bs arbitrary: rs rule: utf8_runes.induct)
  case (2 a r)
  show ?case
  proof (cases "a < 0x80")
    case True
    with 2 show ?thesis by auto
  next
    case False
    with "2.prems" obtain x r' xs where s: "utf8_step a r = Some (x, r')" "utf8_runes r' = Some xs" "rs = x # xs"
      by (auto split: option.splits)
    have "0 \<in> set r'" using "2.prems"(2) False utf8_step_no_zero [OF s(1)] by auto
    with "2.IH"(2) [OF False s(1)] s show ?thesis by auto
  qed
qed simp

lemma utf8_runes_ascii: "\<forall>b \<in> set bs. b < 0x80 \<Longrightarrow> utf8_runes bs = Some bs"
  by (induction bs) auto

lemma validate_no_nul:
  assumes "validateCompositeKeyAttribute s = Inr u" shows "nul \<notin> set s"
proof
  assume "nul \<in> set s"
  then have "(0 :: nat) \<in> set (map of_char s)"
    by (force simp: nul_def image_iff)
  with assms show False
    by (auto simp: validateCompositeKeyAttribute_def dest: utf8_runes_zero split: option.splits if_splits)
qed

lemma validate_ascii:
  assumes "\<forall>c \<in> set s. 0 < (of_char c :: nat) \<and> (of_char c :: nat) < 0x80"
  shows "validateCompositeKeyAttribute s = Inr ()"
proof -
  have "utf8_runes (map of_char s) = Some (map of_char s)"
    using assms by (intro utf8_runes_ascii) auto
  moreover have "(0 :: nat) \<notin> of_char ` set s" "(0x10FFFF :: nat) \<notin> of_char ` set s"
    using assms by force+
  ultimately show ?thesis
    by (simp add: validateCompositeKeyAttribute_def)
qed

lemma composite_loop:
  "fold_sum (\<lambda>att sb. bind_sum (validateCompositeKeyAttribute att) (\<lambda>_. Inr (sb @ att @ [nul]))) as acc = Inr r \<longleftrightarrow>
   (\<forall>a \<in> set as. validateCompositeKeyAttribute a = Inr ()) \<and> r = acc @ concat (map (\<lambda>a. a @ [nul]) as)"
  by (induction as arbitrary: acc) (auto simp: sum_elims)

lemma createCompositeKey_Inr:
  "createCompositeKey ot as = Inr k \<longleftrightarrow>
   (\<forall>a \<in> set (ot # as). validateCompositeKeyAttribute a = Inr ()) \<and>
   k = nul # concat (map (\<lambda>a. a @ [nul]) (ot # as))"
  by (auto simp: createCompositeKey_def sum_elims composite_loop)

lemma split_components_no_nul:
  "nul \<notin> set a \<Longrightarrow> split_components cur (a @ nul # rest) = (cur @ a) # split_components [] rest"
  by (induction a arbitrary: cur) auto

lemma split_components_concat:
  "\<forall>a \<in> set as. nul \<notin> set a \<Longrightarrow> split_components [] (concat (map (\<lambda>a. a @ [nul]) as)) = as"
  by (induction as) (simp_all add: split_components_no_nul)

lemma split_createCompositeKey:
  assumes "createCompositeKey ot as = Inr k"
  shows "split_components [] (drop 1 k) = ot # as"
proof -
  have k: "drop 1 k = concat (map (\<lambda>a. a @ [nul]) (ot # as))"
    using assms by (simp add: createCompositeKey_Inr)
  show ?thesis
    unfolding k using assms by (intro split_components_concat) (auto simp: createCompositeKey_Inr dest: validate_no_nul)
qed

lemma createCompositeKey_inject:
  "createCompositeKey ot as = Inr k \<Longrightarrow> createCompositeKey ot' as' = Inr k \<Longrightarrow> ot = ot' \<and> as = as'"
  using split_createCompositeKey [of ot as k] split_createCompositeKey [of ot' as' k] by simp

lemma int_text_inject:
  assumes "0 \<le> v" "0 \<le> v'" "int_text 10 v = int_text 10 v'"
  shows "v = v'"
proof -
  have "Some v = SetString (int_text 10 v')"
    using SetString_decimal [OF assms(1)] by (simp only: assms(3))
  then show ?thesis by (simp only: SetString_decimal [OF assms(2)] option.inject)
qed

lemma digit_char_ascii: "d < 36 \<Longrightarrow> 0 < (of_char (digit_char d) :: nat) \<and> (of_char (digit_char d) :: nat) < 0x80"
proof -
  have "\<forall>c \<in> set ''0123456789abcdefghijklmnopqrstuvwxyz''. 0 < (of_char c :: nat) \<and> (of_char c :: nat) < 0x80"
    by simp
  moreover assume "d < 36"
  then have "digit_char d \<in> set ''0123456789abcdefghijklmnopqrstuvwxyz''"
    unfolding digit_char_def by (intro nth_mem) simp
  ultimately show ?thesis by blast
qed

lemma nat_text_ascii:
  "2 \<le> b \<Longrightarrow> b \<le> 36 \<Longrightarrow> c \<in> set (nat_text b n) \<Longrightarrow> 0 < (of_char c :: nat) \<and> (of_char c :: nat) < 0x80"
proof (induction b n rule: nat_text.induct)
  case (1 b n)
  have d: "n mod b < 36" using "1.prems"(1,2) by (intro less_le_trans [OF mod_less_divisor]) auto
  show ?case
  proof (cases "n < b")
    case True
    then have "c = digit_char n" using "1.prems" by (simp add: nat_text.simps)
    then show ?thesis using True "1.prems" digit_char_ascii [of n] by simp
  next
    case False
    then have "c = digit_char (n mod b) \<or> c \<in> set (nat_text b (n div b))"
      using "1.prems" by (subst (asm) nat_text.simps) auto
    then show ?thesis
    proof
      assume "c = digit_char (n mod b)"
      then show ?thesis using digit_char_ascii [OF d] by simp
    next
      assume "c \<in> set (nat_text b (n div b))"
      then show ?thesis using "1.IH" "1.prems"(1,2) False by simp
    qed
  qed
qed

lemma validate_decimal: "validateCompositeKeyAttribute (int_text 10 (uint (n :: u64))) = Inr ()"
  using nat_text_ascii [of 10 _ "unat n"] by (intro validate_ascii) (auto simp: int_text_def not_less)

lemma validate_hex: "validateCompositeKeyAttribute (hex_encode bs) = Inr ()"
proof (rule validate_ascii)
  have "unat (b :: byte) div 16 < 36" "unat b mod 16 < 36" for b
    using unat_byte_bound [of b] mod_less_divisor [of 16 "unat b"] by (simp_all add: less_mult_imp_div_less)
  then show "\<forall>c \<in> set (hex_encode bs). 0 < (of_char c :: nat) \<and> (of_char c :: nat) < 0x80"
    by (auto simp: hex_encode_def dest: digit_char_ascii)
qed

lemma validate_prefixes [simp]:
  "validateCompositeKeyAttribute OutputSNKeyPrefix = Inr ()"
  "validateCompositeKeyAttribute TokenSetupKeyPrefix = Inr ()"
  "validateCompositeKeyAttribute TokenSetupHashKeyPrefix = Inr ()"
  "validateCompositeKeyAttribute TokenRequestKeyPrefix = Inr ()"
  "validateCompositeKeyAttribute InputSerialNumberPrefix = Inr ()"
  "validateCompositeKeyAttribute IssueActionMetadataPrefix = Inr ()"
  "validateCompositeKeyAttribute TransferActionMetadataPrefix = Inr ()"
  unfolding key_prefix_defs by (rule validate_ascii, simp)+

lemma digit_char_inject: "d < 16 \<Longrightarrow> d' < 16 \<Longrightarrow> digit_char d = digit_char d' \<longleftrightarrow> d = d'"
  unfolding digit_char_def
  by (subst nth_eq_iff_index_eq) simp_all

lemma hex_byte_inject:
  "digit_char (unat a div 16) = digit_char (unat b div 16) \<Longrightarrow>
   digit_char (unat a mod 16) = digit_char (unat b mod 16) \<Longrightarrow> a = (b :: byte)"
proof -
  have lt: "unat (x :: byte) div 16 < 16" for x
    using unat_byte_bound [of x] by (simp add: less_mult_imp_div_less)
  have m: "unat (x :: byte) mod 16 < 16" for x by simp
  assume "digit_char (unat a div 16) = digit_char (unat b div 16)"
    "digit_char (unat a mod 16) = digit_char (unat b mod 16)"
  then have e: "unat a div 16 = unat b div 16" "unat a mod 16 = unat b mod 16"
    using digit_char_inject [OF lt lt] digit_char_inject [OF m m] by blast+
  have "unat a = unat a div 16 * 16 + unat a mod 16" by (simp only: div_mult_mod_eq)
  also have "\<dots> = unat b div 16 * 16 + unat b mod 16" by (simp only: e)
  also have "\<dots> = unat b" by (simp only: div_mult_mod_eq)
  finally have "unat a = unat b" .
  then show ?thesis by (simp add: word_unat_eq_iff)
qed

lemma hex_encode_inject: "hex_encode a = hex_encode b \<longleftrightarrow> a = b"
proof
  show "hex_encode a = hex_encode b \<Longrightarrow> a = b"
  proof (induction a arbitrary: b)
    case Nil
    then show ?case by (cases b) (auto simp: hex_encode_def)
  next
    case (Cons x xs)
    then show ?case by (cases b) (auto simp: hex_encode_def dest: hex_byte_inject)
  qed
qed simp

lemma length_le64 [simp]: "length (le64 w) = 8"
  by (simp add: le64_def)

lemma le64_inject: "le64 v = le64 w \<longleftrightarrow> v = w"
proof
  assume eq: "le64 v = le64 w"
  have b: "(ucast (drop_bit (8 * i) v) :: byte) = ucast (drop_bit (8 * i) w)" if "i < 8" for i
    using arg_cong [OF eq, of "\<lambda>l. l ! i"] that by (simp add: le64_def)
  show "v = w"
  proof (rule bit_word_eqI)
    fix n assume n: "n < LENGTH(64)"
    have "bit (ucast (drop_bit (8 * (n div 8)) v) :: byte) (n mod 8) = bit v n"
      "bit (ucast (drop_bit (8 * (n div 8)) w) :: byte) (n mod 8) = bit w n"
      by (simp_all add: bit_ucast_iff bit_drop_bit_eq)
    then show "bit v n \<longleftrightarrow> bit w n" using b [of "n div 8"] n by simp
  qed
qed simp

lemma sn_preimage_inject:
  "length i = length i' \<Longrightarrow>
   sn_preimage i n out = sn_preimage i' n' out' \<longleftrightarrow> i = i' \<and> n = n' \<and> out = out'"
  by (auto simp: sn_preimage_def bytes_of_string_inject le64_inject)

section \<open>The contract of a key translator\<close>

text \<open>
  What the ledger code relies on: two keys of proper kinds meet only if they are the same key,
  serial numbers of outputs apart, whose keys go through the hash.
\<close>

locale key_separation =
  fixes kt :: key_translator
  assumes key_separation:
    "key_of kt a = Inr k \<Longrightarrow> key_of kt b = Inr k \<Longrightarrow> proper_key a \<Longrightarrow> proper_key b \<Longrightarrow>
     a = b \<or> is_KOutputSN a \<and> is_KOutputSN b"
begin

lemma output_key_inject:
  assumes "Kt_OutputKey kt i n = Inr k" "Kt_OutputKey kt i' n' = Inr k"
    and "i \<notin> reserved_prefixes" "i' \<notin> reserved_prefixes"
  shows "i = i' \<and> n = n'"
  using key_separation [of "KOutput i n" k "KOutput i' n'"] assms by simp

lemma output_key_not_sn:
  "Kt_OutputKey kt i n = Inr k \<Longrightarrow> i \<notin> reserved_prefixes \<Longrightarrow> Kt_OutputSNKey kt i' n' out \<noteq> Inr k"
  using key_separation [of "KOutput i n" k "KOutputSN i' n' out"] by auto

lemma output_key_not_input_sn:
  "Kt_OutputKey kt i n = Inr k \<Longrightarrow> i \<notin> reserved_prefixes \<Longrightarrow> Kt_InputSNKey kt i' \<noteq> Inr k"
  using key_separation [of "KOutput i n" k "KInputSN i'"] by auto

lemma sn_not_output:
  "Kt_OutputSNKey kt i n out = Inr k \<Longrightarrow> i' \<notin> reserved_prefixes \<Longrightarrow> Kt_OutputKey kt i' n' \<noteq> Inr k"
  using output_key_not_sn by blast

lemma sn_not_other:
  assumes "Kt_OutputSNKey kt i n out = Inr k"
  shows "Kt_InputSNKey kt j \<noteq> Inr k" and "Kt_IssueActionMetadataKey kt j \<noteq> Inr k"
    and "Kt_TransferActionMetadataKey kt j \<noteq> Inr k" and "Kt_TokenRequestKey kt j \<noteq> Inr k"
    and "Kt_SetupKey kt \<noteq> Inr k" and "Kt_SetupHashKey kt \<noteq> Inr k"
  using assms key_separation [of "KOutputSN i n out" k "KInputSN j"]
    key_separation [of "KOutputSN i n out" k "KIssueMetadata j"]
    key_separation [of "KOutputSN i n out" k "KTransferMetadata j"]
    key_separation [of "KOutputSN i n out" k "KTokenRequest j"]
    key_separation [of "KOutputSN i n out" k KSetup] key_separation [of "KOutputSN i n out" k KSetupHash]
  by auto

end

fun composite_parts :: "(bytes \<Rightarrow> bytes) \<Rightarrow> ledger_key \<Rightarrow> string \<times> string list" where
  "composite_parts sha256 (KTokenRequest i) = (TokenRequestKeyPrefix, [i])"
| "composite_parts sha256 KSetup = (TokenSetupKeyPrefix, [])"
| "composite_parts sha256 KSetupHash = (TokenSetupHashKeyPrefix, [])"
| "composite_parts sha256 (KOutput i n) = (i, [int_text 10 (uint n)])"
| "composite_parts sha256 (KOutputSN i n out) = (OutputSNKeyPrefix, [hex_encode (sha256 (sn_preimage i n out))])"
| "composite_parts sha256 (KInputSN i) = (InputSerialNumberPrefix, [i])"
| "composite_parts sha256 (KIssueMetadata k) = (IssueActionMetadataPrefix, [k])"
| "composite_parts sha256 (KTransferMetadata k) = (TransferActionMetadataPrefix, [k])"

lemma key_of_keys_Translator:
  "key_of (keys_Translator sha256) a =
   createCompositeKey (fst (composite_parts sha256 a)) (snd (composite_parts sha256 a))"
  by (cases a) (simp_all add: kt_defs)

lemma index_text_inject: "int_text 10 (uint (n :: u64)) = int_text 10 (uint n') \<longleftrightarrow> n = n'"
  using int_text_inject [of "uint n" "uint n'"] by (auto simp: word_uint_eq_iff)

lemma composite_parts_inject:
  assumes "composite_parts sha256 a = composite_parts sha256 b" "proper_key a" "proper_key b"
  shows "a = b \<or> is_KOutputSN a \<and> is_KOutputSN b"
  using assms
  by (cases a; cases b) (auto simp: key_prefix_defs reserved_prefixes_def index_text_inject)

interpretation plain_keys: key_separation "keys_Translator sha256" for sha256
proof
  fix a b k
  assume "key_of (keys_Translator sha256) a = Inr k" "key_of (keys_Translator sha256) b = Inr k"
  then have "composite_parts sha256 a = composite_parts sha256 b"
    unfolding key_of_keys_Translator by (simp add: createCompositeKey_inject prod_eq_iff)
  moreover assume "proper_key a" "proper_key b"
  ultimately show "a = b \<or> is_KOutputSN a \<and> is_KOutputSN b" by (rule composite_parts_inject)
qed

section \<open>Properties\<close>

lemma CreateOutputSNKey_value:
  "CreateOutputSNKey sha256 i n out =
   Inr (nul # OutputSNKeyPrefix @ nul # hex_encode (sha256 (sn_preimage i n out)) @ [nul])"
  by (simp add: CreateOutputSNKey_def createCompositeKey_Inr validate_hex)

lemma CreateOutputSNKey_eq_iff:
  "CreateOutputSNKey sha256 i n out = CreateOutputSNKey sha256 i' n' out' \<longleftrightarrow>
   sha256 (sn_preimage i n out) = sha256 (sn_preimage i' n' out')"
  by (simp add: CreateOutputSNKey_value hex_encode_inject)

lemma le64_low: "le64 (ucast (x :: byte)) = [x, 0, 0, 0, 0, 0, 0, 0]"
proof -
  have "ucast (ucast x :: u64) = x" by (rule bit_word_eqI) (simp add: bit_ucast_iff)
  moreover have "(ucast (drop_bit (Suc k * 8) (ucast x :: u64)) :: byte) = 0" for k
    by (rule bit_word_eqI) (auto simp: bit_ucast_iff bit_drop_bit_eq dest: bit_imp_le_length)
  from this [of 0] this [of 1] this [of 2] this [of 3] this [of 4] this [of 5] this [of 6]
  show ?thesis using calculation by (simp add: le64_def upt_rec)
qed

lemma le64_high: "le64 (push_bit 56 (ucast (x :: byte))) = [0, 0, 0, 0, 0, 0, 0, x]"
proof -
  have "(ucast (drop_bit 56 (push_bit 56 (ucast x :: u64))) :: byte) = x"
    by (rule bit_word_eqI) (simp add: bit_ucast_iff bit_drop_bit_eq bit_push_bit_iff)
  moreover have "(ucast (drop_bit (k * 8) (push_bit 56 (ucast x :: u64))) :: byte) = 0" if "k < 7" for k
    using that by (intro bit_word_eqI) (auto simp: bit_ucast_iff bit_drop_bit_eq bit_push_bit_iff)
  from this [of 0] this [of 1] this [of 2] this [of 3] this [of 4] this [of 5] this [of 6]
  show ?thesis using calculation by (simp add: le64_def upt_rec)
qed



text \<open>
  C20: For transaction identifiers of one length (the network uses fixed-length ones) the serial
  number of an output determines the transaction, the index and the serialized output, as long as
  the hash has no collision on the two preimages.
\<close>

theorem output_sn_key_injective:
  assumes "CreateOutputSNKey sha256 i n out = CreateOutputSNKey sha256 i' n' out'"
    and "length i = length i'"
    and "inj_on sha256 {sn_preimage i n out, sn_preimage i' n' out'}"
  shows "i = i' \<and> n = n' \<and> out = out'"
proof -
  have "sn_preimage i n out = sn_preimage i' n' out'"
    using assms(1) unfolding CreateOutputSNKey_eq_iff by (rule inj_onD [OF assms(3)]) simp_all
  then show ?thesis by (simp only: sn_preimage_inject [OF assms(2)])
qed

theorem output_sn_key_injective_witness:
  "CreateOutputSNKey (\<lambda>x. x) ''tx'' 1 [7] = CreateOutputSNKey (\<lambda>x. x) ''tx'' 1 [7] \<and>
   (''tx'' = ''tx'' \<and> (1 :: u64) = 1 \<and> [7 :: byte] = [7])"
  using output_sn_key_injective [of "\<lambda>x. x" "''tx''" 1 "[7]" "''tx''" 1 "[7]"] by simp

text \<open>
  C22: Without the length condition the serial number does not determine the output: identifier,
  index and output are hashed without separators, so the first byte of the index can be read as
  the last byte of the identifier. Whatever the hash, the two different outputs below share their
  serial-number key.
\<close>

theorem output_sn_key_ambiguous:
  "CreateOutputSNKey sha256 i (ucast (of_char c :: byte)) (b # out) =
   CreateOutputSNKey sha256 (i @ [c]) (push_bit 56 (ucast b)) out"
  by (simp add: CreateOutputSNKey_eq_iff sn_preimage_def le64_low le64_high)
    (simp add: bytes_of_string_def)

text \<open>
  C23: \<open>GetTransferMetadataSubKey\<close> never returns a subkey: \<open>splitCompositeKey\<close> demands at least
  three components, a transfer metadata key has two, and the caller then demands exactly one
  after the prefix. In particular every key made by \<open>CreateTransferActionMetadataKey\<close> is rejected.
\<close>

theorem GetTransferMetadataSubKey_never:
  "fst (GetTransferMetadataSubKey wrapf k) = [] \<and>
   (case CreateTransferActionMetadataKey sub of
      Inl _ \<Rightarrow> True
    | Inr key \<Rightarrow> GetTransferMetadataSubKey wrapf key =
        ([], wrapf (Some (ErrNotEnoughComponents key)) (ErrSplit key (ErrNotEnoughComponents key))))"
proof
  show "fst (GetTransferMetadataSubKey wrapf k) = []"
    by (auto simp: GetTransferMetadataSubKey_def splitCompositeKey_def numComponentsInKey_def Let_def)
  show "case CreateTransferActionMetadataKey sub of
      Inl _ \<Rightarrow> True
    | Inr key \<Rightarrow> GetTransferMetadataSubKey wrapf key =
        ([], wrapf (Some (ErrNotEnoughComponents key)) (ErrSplit key (ErrNotEnoughComponents key)))"
  proof (cases "CreateTransferActionMetadataKey sub")
    case (Inr key)
    then have "split_components [] (drop 1 key) = [TransferActionMetadataPrefix, sub]"
      by (intro split_createCompositeKey) (simp add: CreateTransferActionMetadataKey_def)
    with Inr show ?thesis
      by (simp add: GetTransferMetadataSubKey_def splitCompositeKey_def numComponentsInKey_def)
  qed simp
qed

fun kind_code :: "ledger_key \<Rightarrow> byte" where
  "kind_code (KTokenRequest i) = 0"
| "kind_code KSetup = 1"
| "kind_code KSetupHash = 2"
| "kind_code (KOutputSN i n out) = 3"
| "kind_code (KOutput i n) = 4"
| "kind_code (KInputSN i) = 6"
| "kind_code (KIssueMetadata k) = 7"
| "kind_code (KTransferMetadata k) = 8"

lemmas hashed_kt_defs = HashedKeyTranslator_def Hashed_TokenRequestKey_def Hashed_SetupKey_def
  Hashed_SetupHashKey_def Hashed_OutputSNKey_def Hashed_OutputKey_def Hashed_InputSNKey_def
  Hashed_IssueActionMetadataKey_def Hashed_TransferActionMetadataKey_def

lemma key_of_HashedKeyTranslator:
  "key_of (HashedKeyTranslator sha256 kt) a = bind_sum (key_of kt a) (hashed_key sha256 (kind_code a))"
  by (cases a) (simp_all add: hashed_kt_defs)

lemma hashed_key_inject:
  assumes "hashed_key sha256 c k = hashed_key sha256 c' k'" "inj sha256"
  shows "c = c' \<and> k = k'"
proof -
  have "c # bytes_of_string k = c' # bytes_of_string k'"
    using assms by (simp add: hashed_key_def hex_encode_inject inj_eq)
  then show ?thesis by (simp add: bytes_of_string_inject)
qed

lemma same_kind_composite:
  "kind_code a = kind_code b \<Longrightarrow> composite_parts sha256 a = composite_parts sha256 b \<Longrightarrow>
   a = b \<or> is_KOutputSN a \<and> is_KOutputSN b"
  by (cases a; cases b) (auto simp: index_text_inject)



end
