(* ===== verification/Rwset.thy ===== *)
theory Rwset
  imports Keys
begin

text \<open>
  Read-write sets: the interfaces \<open>RWSet\<close> and \<open>ExRWSet\<close> and the wrapper \<open>RWSetWrapper\<close> of
  \<open>src/token/services/network/common/rws/translator/rwset.go\<close>, the chaincode wrapper of
  \<open>src/token/services/network/fabric/tcc/rwset.go\<close> and the wrapper of
  \<open>src/token/services/network/fabricx/endorsement/rwset.go\<close>.

  The read-write set itself belongs to the ledger platform. It is a record of functions on an
  abstract state, and what the platform documents about it is the locale \<open>rw_backend\<close>: writes and
  deletions accumulate, a read returns what the ledger holds or what was written before. Both
  read-your-own-writes and committed-state-only platforms satisfy it. The locale \<open>ex_rwset_laws\<close>
  is the contract of \<open>ExRWSet\<close> that the translator relies on; \<open>RWSetWrapper\<close> implements it over
  every such platform.

  An operation returns \<open>Inl\<close> and no state when the platform reports an error: the caller then
  abandons the transaction.
\<close>

section \<open>Definitions\<close>

type_synonym KeyVersion = int

definition Latest :: KeyVersion where "Latest = 0"
definition VersionZero :: KeyVersion where "VersionZero = 1"

datatype rw_error =
    RwBackend string
  | ErrReadState string string rw_error
  | ErrStateExists string string
  | ErrStateMissing string string
  | ErrInvalidVersion KeyVersion

record 's rw_set =
  Rw_SetState :: "string \<Rightarrow> string \<Rightarrow> bytes \<Rightarrow> 's \<Rightarrow> rw_error + 's"
  Rw_GetState :: "string \<Rightarrow> string \<Rightarrow> 's \<Rightarrow> rw_error + bytes \<times> 's"
  Rw_DeleteState :: "string \<Rightarrow> string \<Rightarrow> 's \<Rightarrow> rw_error + 's"

record 's ex_rwset =
  Ex_SetState :: "string \<Rightarrow> bytes \<Rightarrow> 's \<Rightarrow> rw_error + 's"
  Ex_GetState :: "string \<Rightarrow> 's \<Rightarrow> rw_error + bytes \<times> 's"
  Ex_DeleteState :: "string \<Rightarrow> 's \<Rightarrow> rw_error + 's"
  Ex_StateMustNotExist :: "string \<Rightarrow> 's \<Rightarrow> rw_error + 's"
  Ex_StateMustExist :: "string \<Rightarrow> KeyVersion \<Rightarrow> 's \<Rightarrow> rw_error + 's"

definition RWSetWrapper_SetState :: "'s rw_set \<Rightarrow> string \<Rightarrow> string \<Rightarrow> bytes \<Rightarrow> 's \<Rightarrow> rw_error + 's" where
  "RWSetWrapper_SetState w ns key val s = Rw_SetState w ns key val s"

definition RWSetWrapper_GetState :: "'s rw_set \<Rightarrow> string \<Rightarrow> string \<Rightarrow> 's \<Rightarrow> rw_error + bytes \<times> 's" where
  "RWSetWrapper_GetState w ns key s = Rw_GetState w ns key s"

definition RWSetWrapper_DeleteState :: "'s rw_set \<Rightarrow> string \<Rightarrow> string \<Rightarrow> 's \<Rightarrow> rw_error + 's" where
  "RWSetWrapper_DeleteState w ns key s = Rw_DeleteState w ns key s"

definition RWSetWrapper_StateMustNotExist :: "'s rw_set \<Rightarrow> string \<Rightarrow> string \<Rightarrow> 's \<Rightarrow> rw_error + 's" where
  "RWSetWrapper_StateMustNotExist w ns key s =
     bind_sum (wrap_err (ErrReadState ns key) (Rw_GetState w ns key s)) (\<lambda>(tr, s).
       if length tr \<noteq> 0 then Inl (ErrStateExists ns key) else Inr s)"

definition RWSetWrapper_StateMustExist ::
    "'s rw_set \<Rightarrow> string \<Rightarrow> string \<Rightarrow> KeyVersion \<Rightarrow> 's \<Rightarrow> rw_error + 's" where
  "RWSetWrapper_StateMustExist w ns key version s =
     bind_sum (wrap_err (ErrReadState ns key) (Rw_GetState w ns key s)) (\<lambda>(h, s).
       if length h = 0 then Inl (ErrStateMissing ns key) else Inr s)"

definition RWSetWrapper :: "'s rw_set \<Rightarrow> string \<Rightarrow> 's ex_rwset" where
  "RWSetWrapper w ns =
     \<lparr>Ex_SetState = RWSetWrapper_SetState w ns,
      Ex_GetState = RWSetWrapper_GetState w ns,
      Ex_DeleteState = RWSetWrapper_DeleteState w ns,
      Ex_StateMustNotExist = RWSetWrapper_StateMustNotExist w ns,
      Ex_StateMustExist = RWSetWrapper_StateMustExist w ns\<rparr>"

text \<open>The chaincode stub and its wrapper, which drops the namespace.\<close>

record 's chaincode_stub =
  PutState :: "string \<Rightarrow> bytes \<Rightarrow> 's \<Rightarrow> rw_error + 's"
  GetState :: "string \<Rightarrow> 's \<Rightarrow> rw_error + bytes \<times> 's"
  DelState :: "string \<Rightarrow> 's \<Rightarrow> rw_error + 's"

definition rwsWrapper :: "'s chaincode_stub \<Rightarrow> 's rw_set" where
  "rwsWrapper stub =
     \<lparr>Rw_SetState = \<lambda>ns. PutState stub,
      Rw_GetState = \<lambda>ns. GetState stub,
      Rw_DeleteState = \<lambda>ns. DelState stub\<rparr>"

text \<open>
  The fabricx wrapper records version dependencies (\<open>addReadAt\<close>) in place of reading;
  \<open>marshalVersion\<close> is the platform's version encoding.
\<close>

definition Fabricx_StateMustNotExist ::
    "(string \<Rightarrow> string \<Rightarrow> bytes option \<Rightarrow> 's \<Rightarrow> rw_error + 's) \<Rightarrow> string \<Rightarrow> string \<Rightarrow> 's \<Rightarrow> rw_error + 's" where
  "Fabricx_StateMustNotExist addReadAt ns key s = addReadAt ns key None s"

definition Fabricx_StateMustExist ::
    "(string \<Rightarrow> string \<Rightarrow> bytes option \<Rightarrow> 's \<Rightarrow> rw_error + 's) \<Rightarrow> (u64 \<Rightarrow> bytes) \<Rightarrow> u64 \<Rightarrow>
     string \<Rightarrow> string \<Rightarrow> KeyVersion \<Rightarrow> 's \<Rightarrow> rw_error + 's" where
  "Fabricx_StateMustExist addReadAt marshalVersion ppVersion ns key version s =
     (if version = VersionZero then addReadAt ns key (Some (marshalVersion 0)) s
      else if version = Latest then addReadAt ns key (Some (marshalVersion ppVersion)) s
      else Inl (ErrInvalidVersion version))"

definition Fabricx_RWSetWrapper ::
    "'s rw_set \<Rightarrow> (string \<Rightarrow> string \<Rightarrow> bytes option \<Rightarrow> 's \<Rightarrow> rw_error + 's) \<Rightarrow> (u64 \<Rightarrow> bytes) \<Rightarrow> u64 \<Rightarrow>
     string \<Rightarrow> 's ex_rwset" where
  "Fabricx_RWSetWrapper w addReadAt marshalVersion ppVersion ns =
     \<lparr>Ex_SetState = Rw_SetState w ns,
      Ex_GetState = Rw_GetState w ns,
      Ex_DeleteState = Rw_DeleteState w ns,
      Ex_StateMustNotExist = Fabricx_StateMustNotExist addReadAt ns,
      Ex_StateMustExist = Fabricx_StateMustExist addReadAt marshalVersion ppVersion ns\<rparr>"

section \<open>Contracts\<close>

text \<open>
  \<open>ledger s\<close> is the part of the ledger under the namespace the transaction runs against (an absent
  key reads as the empty value), \<open>writes s\<close> the writes collected so far, a deletion being a write
  of the empty value.
\<close>

locale rw_backend =
  fixes w :: "'s rw_set"
    and namespace :: string
    and ledger :: "'s \<Rightarrow> string \<Rightarrow> bytes"
    and writes :: "'s \<Rightarrow> string \<Rightarrow> bytes option"
  assumes set_state: "Rw_SetState w namespace k v s = Inr s' \<Longrightarrow>
      ledger s' = ledger s \<and> writes s' = (writes s)(k \<mapsto> v)"
    and delete_state: "Rw_DeleteState w namespace k s = Inr s' \<Longrightarrow>
      ledger s' = ledger s \<and> writes s' = (writes s)(k \<mapsto> [])"
    and get_state: "Rw_GetState w namespace k s = Inr (v, s') \<Longrightarrow>
      ledger s' = ledger s \<and> writes s' = writes s \<and> (v = ledger s k \<or> writes s k = Some v)"

locale ex_rwset_laws =
  fixes x :: "'s ex_rwset"
    and ledger :: "'s \<Rightarrow> string \<Rightarrow> bytes"
    and writes :: "'s \<Rightarrow> string \<Rightarrow> bytes option"
  assumes ex_set: "Ex_SetState x k v s = Inr s' \<Longrightarrow> ledger s' = ledger s \<and> writes s' = (writes s)(k \<mapsto> v)"
    and ex_delete: "Ex_DeleteState x k s = Inr s' \<Longrightarrow> ledger s' = ledger s \<and> writes s' = (writes s)(k \<mapsto> [])"
    and ex_get: "Ex_GetState x k s = Inr (v, s') \<Longrightarrow>
      ledger s' = ledger s \<and> writes s' = writes s \<and> (v = ledger s k \<or> writes s k = Some v)"
    and ex_must_not_exist: "Ex_StateMustNotExist x k s = Inr s' \<Longrightarrow>
      ledger s' = ledger s \<and> writes s' = writes s \<and> (ledger s k = [] \<or> writes s k = Some [])"
    and ex_must_exist: "Ex_StateMustExist x k ver s = Inr s' \<Longrightarrow>
      ledger s' = ledger s \<and> writes s' = writes s \<and>
      (ledger s k \<noteq> [] \<or> (\<exists>v. writes s k = Some v \<and> v \<noteq> []))"

lemmas RWSetWrapper_defs = RWSetWrapper_def RWSetWrapper_SetState_def RWSetWrapper_GetState_def
  RWSetWrapper_DeleteState_def RWSetWrapper_StateMustNotExist_def RWSetWrapper_StateMustExist_def

sublocale rw_backend \<subseteq> wrapped: ex_rwset_laws "RWSetWrapper w namespace" ledger writes
  by unfold_locales
    (auto simp: RWSetWrapper_defs sum_elims dest: set_state delete_state get_state split: if_splits)

context rw_backend
begin

lemma wrapped_laws: "ex_rwset_laws (RWSetWrapper w namespace) ledger writes"
  by (rule wrapped.ex_rwset_laws_axioms)

end

section \<open>The chaincode stub\<close>

text \<open>
  The stub as the chaincode API documents it: \<open>PutState\<close> and \<open>DelState\<close> only extend the write set
  and reject an empty key, \<open>GetState\<close> reads the committed ledger.
\<close>

record sim =
  Sim_committed :: "string \<Rightarrow> bytes"
  Sim_pending :: "string \<Rightarrow> bytes option"

definition shim_stub :: "sim chaincode_stub" where
  "shim_stub =
     \<lparr>PutState = \<lambda>k v s. if k = [] then Inl (RwBackend ''key must not be an empty string'')
                    else Inr (s\<lparr>Sim_pending := (Sim_pending s)(k \<mapsto> v)\<rparr>),
      GetState = \<lambda>k s. Inr (Sim_committed s k, s),
      DelState = \<lambda>k s. Inr (s\<lparr>Sim_pending := (Sim_pending s)(k \<mapsto> [])\<rparr>)\<rparr>"

interpretation chaincode: rw_backend "rwsWrapper shim_stub" namespace Sim_committed Sim_pending
  for namespace
  by unfold_locales (auto simp: rwsWrapper_def shim_stub_def split: if_splits)

end
