(* ===== verification/Translator.thy ===== *)
theory Translator
  imports Rwset Token
begin

text \<open>
  The translator (\<open>src/token/services/network/common/rws/translator/translator.go\<close>): it turns the
  actions of a validated token request into reads and writes of the ledger.

  \<open>tr_env\<close> holds what \<open>New\<close> fixes (the read-write set, the key translator, the transaction id, the
  hash), \<open>tr_state\<close> what the methods change (the read-write set's state, \<open>SpentIDs\<close>, \<open>counter\<close>).
  An action is the record of what its interface methods return. Go iterates over the metadata map
  in an unspecified order: \<open>Ia_Metadata\<close> and \<open>Ta_Metadata\<close> list the entries in the order of the run,
  so a theorem about every list is a theorem about every order. A nil token identifier and an index
  out of range panic: \<open>TPanic\<close>.

  The lemmas show which keys a successful run reads and writes; on top of them the properties
  state that no token is spent twice, neither within a transaction nor across the ledger's history.
\<close>

section \<open>Actions, environment and state\<close>

record action_inputs =
  In_IDs :: "token_id option list"
  In_Serialized :: "string + bytes list"
  In_SerialNumbers :: "string list"

record issue_view =
  Ia_Inputs :: action_inputs
  Ia_SerializedOutputs :: "string + bytes list"
  Ia_IsGraphHiding :: bool
  Ia_Metadata :: "(string \<times> bytes) list"

record transfer_view =
  Ta_Inputs :: action_inputs
  Ta_NumOutputs :: nat
  Ta_IsRedeemAt :: "nat \<Rightarrow> bool"
  Ta_SerializeOutputAt :: "nat \<Rightarrow> string + bytes"
  Ta_IsGraphHiding :: bool
  Ta_Metadata :: "(string \<times> bytes) list"

datatype ledger_action =
    IssueAction issue_view
  | TransferAction transfer_view
  | SetupAction "string + bytes"
  | OtherAction

datatype t_error =
    TKey k_error
  | TRead rw_error
  | TWrite rw_error
  | TAction string
  | TLengthMismatch
  | TAlreadySpent string
  | TUnknownAction
  | TMetadataOccupied string
  | TQueryErrors nat
  | TPanic

record 's tr_env =
  RWSet :: "'s ex_rwset"
  KeyTranslator :: key_translator
  TxID :: string
  Sha256 :: "bytes \<Rightarrow> bytes"

record 's tr_state =
  Rws :: 's
  SpentIDs :: "string list"
  counter :: u64

definition NotEmpty :: bytes where "NotEmpty = [1]"

definition Translator_New :: "'s \<Rightarrow> 's tr_state" where
  "Translator_New rws = \<lparr>Rws = rws, SpentIDs = [], counter = 0\<rparr>"

text \<open>Running an operation of the read-write set.\<close>

definition on_rws :: "(rw_error \<Rightarrow> t_error) \<Rightarrow> ('s \<Rightarrow> rw_error + 's) \<Rightarrow> 's tr_state \<Rightarrow> t_error + 's tr_state" where
  "on_rws e f t = bind_sum (wrap_err e (f (Rws t))) (\<lambda>s. Inr (t\<lparr>Rws := s\<rparr>))"

definition read_rws :: "'s tr_env \<Rightarrow> string \<Rightarrow> 's tr_state \<Rightarrow> t_error + bytes \<times> 's tr_state" where
  "read_rws env k t =
     bind_sum (wrap_err TRead (Ex_GetState (RWSet env) k (Rws t))) (\<lambda>(v, s). Inr (v, t\<lparr>Rws := s\<rparr>))"

section \<open>Reading the ledger\<close>

definition CommitTokenRequest ::
    "'s tr_env \<Rightarrow> bytes \<Rightarrow> bool \<Rightarrow> 's tr_state \<Rightarrow> t_error + bytes option \<times> 's tr_state" where
  "CommitTokenRequest env raw storeHash t =
     bind_sum (wrap_err TKey (Kt_TokenRequestKey (KeyTranslator env) (TxID env))) (\<lambda>key.
     bind_sum (on_rws TRead (Ex_StateMustNotExist (RWSet env) key) t) (\<lambda>t.
       let raw' = (if storeHash then Sha256 env raw else raw);
           h = (if storeHash then Some raw' else None) in
       bind_sum (on_rws TWrite (Ex_SetState (RWSet env) key raw') t) (\<lambda>t. Inr (h, t))))"

definition ReadTokenRequest :: "'s tr_env \<Rightarrow> 's tr_state \<Rightarrow> t_error + bytes \<times> 's tr_state" where
  "ReadTokenRequest env t =
     bind_sum (wrap_err TKey (Kt_TokenRequestKey (KeyTranslator env) (TxID env))) (\<lambda>key.
       read_rws env key t)"

definition ReadSetupParameters :: "'s tr_env \<Rightarrow> 's tr_state \<Rightarrow> t_error + bytes \<times> 's tr_state" where
  "ReadSetupParameters env t =
     bind_sum (wrap_err TKey (Kt_SetupKey (KeyTranslator env))) (\<lambda>setupKey. read_rws env setupKey t)"

definition AddPublicParamsDependency :: "'s tr_env \<Rightarrow> 's tr_state \<Rightarrow> t_error + 's tr_state" where
  "AddPublicParamsDependency env t =
     bind_sum (wrap_err TKey (Kt_SetupHashKey (KeyTranslator env))) (\<lambda>setupKey.
       on_rws TRead (Ex_StateMustExist (RWSet env) setupKey Latest) t)"

text \<open>One iteration of \<open>QueryTokens\<close>: the entry for the id, or one more error.\<close>

definition query_token ::
    "'s tr_env \<Rightarrow> token_id option \<Rightarrow> bytes option list \<times> nat \<times> 's tr_state \<Rightarrow>
     bytes option list \<times> nat \<times> 's tr_state" where
  "query_token env tid st =
     (case st of (res, errs, t) \<Rightarrow>
        (case tid of
           None \<Rightarrow> (res @ [None], Suc errs, t)
         | Some i \<Rightarrow>
             (case Kt_OutputKey (KeyTranslator env) (TxId i) (Index i) of
                Inl _ \<Rightarrow> (res @ [None], Suc errs, t)
              | Inr outputID \<Rightarrow>
                  (case read_rws env outputID t of
                     Inl _ \<Rightarrow> (res @ [None], Suc errs, t)
                   | Inr (v, t') \<Rightarrow>
                       (res @ [if length v = 0 then None else Some v], errs, t')))))"

definition QueryTokens ::
    "'s tr_env \<Rightarrow> token_id option list \<Rightarrow> 's tr_state \<Rightarrow> t_error + bytes option list \<times> 's tr_state" where
  "QueryTokens env ids t =
     (case fold (query_token env) ids ([], 0, t) of
        (res, errs, t') \<Rightarrow> if errs \<noteq> 0 then Inl (TQueryErrors errs) else Inr (res, t'))"

definition AreTokensSpent ::
    "'s tr_env \<Rightarrow> string list \<Rightarrow> bool \<Rightarrow> 's tr_state \<Rightarrow> t_error + bool list \<times> 's tr_state" where
  "AreTokensSpent env ids graphHiding t =
     fold_sum (\<lambda>i (res, t).
         if graphHiding then
           bind_sum (wrap_err TKey (Kt_InputSNKey (KeyTranslator env) i)) (\<lambda>k.
           bind_sum (read_rws env k t) (\<lambda>(v, t). Inr (res @ [length v \<noteq> 0], t)))
         else
           bind_sum (read_rws env i t) (\<lambda>(v, t). Inr (res @ [length v = 0], t)))
       ids ([], t)"

section \<open>Checking and spending inputs\<close>

definition appendSpentID :: "string \<Rightarrow> 's tr_state \<Rightarrow> t_error + 's tr_state" where
  "appendSpentID i t =
     (if i \<in> set (SpentIDs t) then Inl (TAlreadySpent i)
      else Inr (t\<lparr>SpentIDs := SpentIDs t @ [i]\<rparr>))"

text \<open>\<open>input.TxId\<close> and \<open>serializedInputs[i]\<close>, both of which may panic.\<close>

definition deref :: "token_id option \<Rightarrow> t_error + token_id" where
  "deref p = (case p of None \<Rightarrow> Inl TPanic | Some i \<Rightarrow> Inr i)"

definition index_at :: "'a list \<Rightarrow> nat \<Rightarrow> t_error + 'a" where
  "index_at xs i = (if i < length xs then Inr (xs ! i) else Inl TPanic)"

definition check_input ::
    "'s tr_env \<Rightarrow> bytes list \<Rightarrow> nat \<times> token_id option \<Rightarrow> 's tr_state \<Rightarrow> t_error + 's tr_state" where
  "check_input env serializedInputs e t =
     (case e of (i, input) \<Rightarrow>
        bind_sum (deref input) (\<lambda>tid.
        bind_sum (index_at serializedInputs i) (\<lambda>ser.
        bind_sum (wrap_err TKey (Kt_OutputSNKey (KeyTranslator env) (TxId tid) (Index tid) ser)) (\<lambda>key.
          on_rws TRead (Ex_StateMustExist (RWSet env) key VersionZero) t))))"

definition checkInputs :: "'s tr_env \<Rightarrow> action_inputs \<Rightarrow> 's tr_state \<Rightarrow> t_error + 's tr_state" where
  "checkInputs env action t =
     bind_sum (fold_sum (\<lambda>key. on_rws TRead (Ex_StateMustNotExist (RWSet env) key)) (In_SerialNumbers action) t) (\<lambda>t.
     bind_sum (wrap_err TAction (In_Serialized action)) (\<lambda>serializedInputs.
       if length serializedInputs \<noteq> length (In_IDs action) then Inl TLengthMismatch
       else fold_sum (check_input env serializedInputs) (enumerate 0 (In_IDs action)) t))"

definition spend_input ::
    "'s tr_env \<Rightarrow> bytes list \<Rightarrow> nat \<times> token_id option \<Rightarrow> 's tr_state \<Rightarrow> t_error + 's tr_state" where
  "spend_input env serializedInputs e t =
     (case e of (i, input) \<Rightarrow>
        bind_sum (deref input) (\<lambda>tid.
        bind_sum (index_at serializedInputs i) (\<lambda>ser.
        bind_sum (wrap_err TKey (Kt_OutputSNKey (KeyTranslator env) (TxId tid) (Index tid) ser)) (\<lambda>sn.
        bind_sum (on_rws TWrite (Ex_DeleteState (RWSet env) sn) t) (\<lambda>t.
        bind_sum (wrap_err TKey (Kt_OutputKey (KeyTranslator env) (TxId tid) (Index tid))) (\<lambda>out.
        bind_sum (on_rws TWrite (Ex_DeleteState (RWSet env) out) t) (\<lambda>t.
          appendSpentID out t)))))))"

definition spend_serial_number :: "'s tr_env \<Rightarrow> string \<Rightarrow> 's tr_state \<Rightarrow> t_error + 's tr_state" where
  "spend_serial_number env i t =
     bind_sum (wrap_err TKey (Kt_InputSNKey (KeyTranslator env) i)) (\<lambda>k.
     bind_sum (on_rws TWrite (Ex_SetState (RWSet env) k NotEmpty) t) (\<lambda>t.
       appendSpentID i t))"

definition spendInputs :: "'s tr_env \<Rightarrow> action_inputs \<Rightarrow> 's tr_state \<Rightarrow> t_error + 's tr_state" where
  "spendInputs env action t =
     bind_sum
       (if In_IDs action \<noteq> [] then
          bind_sum (wrap_err TAction (In_Serialized action)) (\<lambda>serializedInputs.
            fold_sum (spend_input env serializedInputs) (enumerate 0 (In_IDs action)) t)
        else Inr t)
       (fold_sum (spend_serial_number env) (In_SerialNumbers action))"

section \<open>Committing actions\<close>

text \<open>Storing the output at position \<open>i\<close> of an action whose outputs start at \<open>base\<close>.\<close>

definition store_output ::
    "'s tr_env \<Rightarrow> u64 \<Rightarrow> bool \<Rightarrow> nat \<Rightarrow> bytes \<Rightarrow> 's tr_state \<Rightarrow> t_error + 's tr_state" where
  "store_output env base graphNonHiding i output t =
     bind_sum (wrap_err TKey (Kt_OutputKey (KeyTranslator env) (TxID env) (base + of_nat i))) (\<lambda>outputID.
     bind_sum (on_rws TWrite (Ex_SetState (RWSet env) outputID output) t) (\<lambda>t.
       if graphNonHiding then
         bind_sum (wrap_err TKey (Kt_OutputSNKey (KeyTranslator env) (TxID env) (base + of_nat i) output)) (\<lambda>sn.
           on_rws TWrite (Ex_SetState (RWSet env) sn NotEmpty) t)
       else Inr t))"

definition store_metadata ::
    "'s tr_env \<Rightarrow> (string \<Rightarrow> k_error + string) \<Rightarrow> string \<times> bytes \<Rightarrow> 's tr_state \<Rightarrow> t_error + 's tr_state" where
  "store_metadata env mk kv t =
     (case kv of (key, val) \<Rightarrow>
        bind_sum (wrap_err TKey (mk key)) (\<lambda>k.
        bind_sum (on_rws (\<lambda>_. TMetadataOccupied key) (Ex_StateMustNotExist (RWSet env) k) t) (\<lambda>t.
          on_rws TWrite (Ex_SetState (RWSet env) k val) t)))"

definition commitIssueAction :: "'s tr_env \<Rightarrow> issue_view \<Rightarrow> 's tr_state \<Rightarrow> t_error + 's tr_state" where
  "commitIssueAction env a t =
     (let base = counter t; graphNonHiding = (\<not> Ia_IsGraphHiding a) in
      bind_sum (wrap_err TAction (Ia_SerializedOutputs a)) (\<lambda>outputs.
      bind_sum (fold_sum (\<lambda>(i, out). store_output env base graphNonHiding i out) (enumerate 0 outputs) t) (\<lambda>t.
      bind_sum (spendInputs env (Ia_Inputs a) t) (\<lambda>t.
      bind_sum (fold_sum (store_metadata env (Kt_IssueActionMetadataKey (KeyTranslator env))) (Ia_Metadata a) t) (\<lambda>t.
        Inr (t\<lparr>counter := counter t + of_nat (length outputs)\<rparr>))))))"

definition store_transfer_output ::
    "'s tr_env \<Rightarrow> u64 \<Rightarrow> transfer_view \<Rightarrow> nat \<Rightarrow> 's tr_state \<Rightarrow> t_error + 's tr_state" where
  "store_transfer_output env base a i t =
     (if \<not> Ta_IsRedeemAt a i then
        bind_sum (wrap_err TAction (Ta_SerializeOutputAt a i)) (\<lambda>output.
          store_output env base (\<not> Ta_IsGraphHiding a) i output t)
      else Inr t)"

definition commitTransferAction :: "'s tr_env \<Rightarrow> transfer_view \<Rightarrow> 's tr_state \<Rightarrow> t_error + 's tr_state" where
  "commitTransferAction env a t =
     (let base = counter t in
      bind_sum (fold_sum (store_transfer_output env base a) [0..<Ta_NumOutputs a] t) (\<lambda>t.
      bind_sum (spendInputs env (Ta_Inputs a) t) (\<lambda>t.
      bind_sum (fold_sum (store_metadata env (Kt_TransferActionMetadataKey (KeyTranslator env))) (Ta_Metadata a) t) (\<lambda>t.
        Inr (t\<lparr>counter := counter t + of_nat (Ta_NumOutputs a)\<rparr>)))))"

definition commitSetupAction :: "'s tr_env \<Rightarrow> string + bytes \<Rightarrow> 's tr_state \<Rightarrow> t_error + 's tr_state" where
  "commitSetupAction env params t =
     bind_sum (wrap_err TAction params) (\<lambda>raw.
     bind_sum (wrap_err TKey (Kt_SetupKey (KeyTranslator env))) (\<lambda>setupKey.
     bind_sum (on_rws TWrite (Ex_SetState (RWSet env) setupKey raw) t) (\<lambda>t.
     bind_sum (wrap_err TKey (Kt_SetupHashKey (KeyTranslator env))) (\<lambda>setupHashKey.
       on_rws TWrite (Ex_SetState (RWSet env) setupHashKey (Sha256 env raw)) t))))"

fun checkAction :: "'s tr_env \<Rightarrow> ledger_action \<Rightarrow> 's tr_state \<Rightarrow> t_error + 's tr_state" where
  "checkAction env (IssueAction a) t = checkInputs env (Ia_Inputs a) t"
| "checkAction env (TransferAction a) t = checkInputs env (Ta_Inputs a) t"
| "checkAction env (SetupAction p) t = Inr t"
| "checkAction env OtherAction t = Inl TUnknownAction"

fun commitAction :: "'s tr_env \<Rightarrow> ledger_action \<Rightarrow> 's tr_state \<Rightarrow> t_error + 's tr_state" where
  "commitAction env (IssueAction a) t = commitIssueAction env a t"
| "commitAction env (TransferAction a) t = commitTransferAction env a t"
| "commitAction env (SetupAction p) t = commitSetupAction env p t"
| "commitAction env OtherAction t = Inr t"

definition Translator_Write :: "'s tr_env \<Rightarrow> ledger_action \<Rightarrow> 's tr_state \<Rightarrow> t_error + 's tr_state" where
  "Translator_Write env action t = bind_sum (checkAction env action t) (commitAction env action)"

section \<open>What a successful run does\<close>

text \<open>
  The client of the two contracts: a translator running over a read-write set that satisfies
  \<open>ex_rwset_laws\<close> with keys that satisfy \<open>key_separation\<close>. \<open>untouched\<close> relates the states before and
  after an operation that leaves the serial numbers of outputs alone.
\<close>

locale translator_run = ex_rwset_laws x ledger writes + key_separation kt
  for x :: "'s ex_rwset" and ledger :: "'s \<Rightarrow> string \<Rightarrow> bytes"
    and writes :: "'s \<Rightarrow> string \<Rightarrow> bytes option" and kt :: key_translator
begin

definition is_sn :: "string \<Rightarrow> bool" where
  "is_sn k \<longleftrightarrow> (\<exists>i n out. Kt_OutputSNKey kt i n out = Inr k)"

definition same_ledger :: "'s tr_state \<Rightarrow> 's tr_state \<Rightarrow> bool" where
  "same_ledger t t' \<longleftrightarrow> ledger (Rws t') = ledger (Rws t) \<and> counter t' = counter t"

definition untouched :: "'s tr_state \<Rightarrow> 's tr_state \<Rightarrow> bool" where
  "untouched t t' \<longleftrightarrow> same_ledger t t' \<and> (\<forall>k. is_sn k \<longrightarrow> writes (Rws t') k = writes (Rws t) k)"

definition present :: "'s tr_state \<Rightarrow> string \<Rightarrow> bool" where
  "present t k \<longleftrightarrow> ledger (Rws t) k \<noteq> [] \<or> (\<exists>v. writes (Rws t) k = Some v \<and> v \<noteq> [])"

lemma on_rws_write:
  assumes "on_rws e (Ex_SetState x k v) t = Inr t'"
  shows "same_ledger t t' \<and> SpentIDs t' = SpentIDs t \<and> writes (Rws t') = (writes (Rws t))(k \<mapsto> v)"
  using assms by (auto simp: on_rws_def same_ledger_def sum_elims dest: ex_set)

lemma on_rws_delete:
  assumes "on_rws e (Ex_DeleteState x k) t = Inr t'"
  shows "same_ledger t t' \<and> SpentIDs t' = SpentIDs t \<and> writes (Rws t') = (writes (Rws t))(k \<mapsto> [])"
  using assms by (auto simp: on_rws_def same_ledger_def sum_elims dest: ex_delete)

lemma on_rws_must_not_exist:
  assumes "on_rws e (Ex_StateMustNotExist x k) t = Inr t'"
  shows "same_ledger t t' \<and> SpentIDs t' = SpentIDs t \<and> writes (Rws t') = writes (Rws t) \<and>
    (ledger (Rws t) k = [] \<or> writes (Rws t) k = Some [])"
  using assms by (auto simp: on_rws_def same_ledger_def sum_elims dest: ex_must_not_exist)

lemma on_rws_must_exist:
  assumes "on_rws e (Ex_StateMustExist x k ver) t = Inr t'"
  shows "same_ledger t t' \<and> SpentIDs t' = SpentIDs t \<and> writes (Rws t') = writes (Rws t) \<and> present t k"
  using assms by (auto simp: on_rws_def same_ledger_def present_def sum_elims dest: ex_must_exist)

lemma same_ledger_trans: "same_ledger a b \<Longrightarrow> same_ledger b c \<Longrightarrow> same_ledger a c"
  by (simp add: same_ledger_def)

lemma untouched_refl [simp]: "untouched t t"
  by (simp add: untouched_def same_ledger_def)

lemma untouched_trans: "untouched a b \<Longrightarrow> untouched b c \<Longrightarrow> untouched a c"
  by (auto simp: untouched_def intro: same_ledger_trans)

lemma store_metadata_effect:
  assumes "store_metadata env mk kv t = Inr t'" "RWSet env = x"
    and "\<And>key k. mk key = Inr k \<Longrightarrow> \<not> is_sn k"
  shows "untouched t t' \<and> SpentIDs t' = SpentIDs t"
proof -
  obtain k t1 where k: "mk (fst kv) = Inr k"
      "on_rws (\<lambda>_. TMetadataOccupied (fst kv)) (Ex_StateMustNotExist x k) t = Inr t1"
      "on_rws TWrite (Ex_SetState x k (snd kv)) t1 = Inr t'"
    using assms(1,2) by (auto simp: store_metadata_def sum_elims split: prod.splits)
  show ?thesis
    using on_rws_must_not_exist [OF k(2)] on_rws_write [OF k(3)] assms(3) [OF k(1)]
    by (auto simp: untouched_def intro: same_ledger_trans)
qed

lemma fold_untouched:
  assumes "fold_sum f xs t = Inr t'"
    and "\<And>e u u'. f e u = Inr u' \<Longrightarrow> untouched u u' \<and> SpentIDs u' = SpentIDs u"
  shows "untouched t t' \<and> SpentIDs t' = SpentIDs t"
  using assms(1)
  by (rule fold_sum_invariant [where P = "\<lambda>u. untouched t u \<and> SpentIDs u = SpentIDs t"])
    (auto dest: assms(2) intro: untouched_trans)

lemma sn_separate:
  "is_sn k \<Longrightarrow> Kt_InputSNKey kt j \<noteq> Inr k" "is_sn k \<Longrightarrow> Kt_IssueActionMetadataKey kt j \<noteq> Inr k"
  "is_sn k \<Longrightarrow> Kt_TransferActionMetadataKey kt j \<noteq> Inr k" "is_sn k \<Longrightarrow> Kt_TokenRequestKey kt j \<noteq> Inr k"
  "is_sn k \<Longrightarrow> Kt_SetupKey kt \<noteq> Inr k" "is_sn k \<Longrightarrow> Kt_SetupHashKey kt \<noteq> Inr k"
  "is_sn k \<Longrightarrow> i \<notin> reserved_prefixes \<Longrightarrow> Kt_OutputKey kt i n \<noteq> Inr k"
  unfolding is_sn_def by (auto dest: sn_not_other sn_not_output)

lemma check_input_effect:
  assumes "check_input env ser (j, input) t = Inr t'" "RWSet env = x" "KeyTranslator env = kt"
  shows "same_ledger t t' \<and> SpentIDs t' = SpentIDs t \<and> writes (Rws t') = writes (Rws t) \<and>
    (\<exists>tid k. input = Some tid \<and> j < length ser \<and> Kt_OutputSNKey kt (TxId tid) (Index tid) (ser ! j) = Inr k \<and> present t k)"
proof -
  obtain tid k where k: "input = Some tid" "j < length ser"
      "Kt_OutputSNKey kt (TxId tid) (Index tid) (ser ! j) = Inr k"
      "on_rws TRead (Ex_StateMustExist x k VersionZero) t = Inr t'"
    using assms by (auto simp: check_input_def deref_def index_at_def sum_elims split: option.splits if_splits)
  then show ?thesis using on_rws_must_exist [OF k(4)] by blast
qed

lemma spend_input_effect:
  assumes "spend_input env ser (j, input) t = Inr t'" "RWSet env = x" "KeyTranslator env = kt"
  shows "\<exists>tid sn out. input = Some tid \<and> j < length ser \<and>
    Kt_OutputSNKey kt (TxId tid) (Index tid) (ser ! j) = Inr sn \<and> Kt_OutputKey kt (TxId tid) (Index tid) = Inr out \<and>
    out \<notin> set (SpentIDs t) \<and> SpentIDs t' = SpentIDs t @ [out] \<and> same_ledger t t' \<and>
    writes (Rws t') = (writes (Rws t))(sn \<mapsto> [], out \<mapsto> [])"
proof -
  obtain tid sn t1 out t2 where s: "input = Some tid" "j < length ser"
      "Kt_OutputSNKey kt (TxId tid) (Index tid) (ser ! j) = Inr sn"
      "on_rws TWrite (Ex_DeleteState x sn) t = Inr t1"
      "Kt_OutputKey kt (TxId tid) (Index tid) = Inr out"
      "on_rws TWrite (Ex_DeleteState x out) t1 = Inr t2" "appendSpentID out t2 = Inr t'"
    using assms by (auto simp: spend_input_def deref_def index_at_def sum_elims split: option.splits if_splits)
  have t': "t' = t2\<lparr>SpentIDs := SpentIDs t2 @ [out]\<rparr>" "out \<notin> set (SpentIDs t2)"
    using s(7) by (auto simp: appendSpentID_def split: if_splits)
  show ?thesis
    using s on_rws_delete [OF s(4)] on_rws_delete [OF s(6)] t'
    by (auto simp: same_ledger_def)
qed

lemma spend_serial_number_effect:
  assumes "spend_serial_number env i t = Inr t'" "RWSet env = x" "KeyTranslator env = kt"
  shows "untouched t t' \<and> i \<notin> set (SpentIDs t) \<and> SpentIDs t' = SpentIDs t @ [i]"
proof -
  obtain k t1 where k: "Kt_InputSNKey kt i = Inr k" "on_rws TWrite (Ex_SetState x k NotEmpty) t = Inr t1"
      "appendSpentID i t1 = Inr t'"
    using assms by (auto simp: spend_serial_number_def sum_elims)
  have "\<not> is_sn k" using sn_separate(1) k(1) by blast
  then show ?thesis
    using on_rws_write [OF k(2)] k(3)
    by (auto simp: untouched_def same_ledger_def appendSpentID_def split: if_splits)
qed

lemma store_output_effect:
  assumes "store_output env base g j out t = Inr t'" "RWSet env = x" "KeyTranslator env = kt"
    and "TxID env \<notin> reserved_prefixes"
  shows "same_ledger t t' \<and> SpentIDs t' = SpentIDs t \<and>
    (if g then \<exists>sn. Kt_OutputSNKey kt (TxID env) (base + of_nat j) out = Inr sn \<and>
         (\<forall>k. is_sn k \<longrightarrow> writes (Rws t') k = ((writes (Rws t))(sn \<mapsto> NotEmpty)) k)
     else untouched t t')"
proof -
  obtain ok t1 where k: "Kt_OutputKey kt (TxID env) (base + of_nat j) = Inr ok"
      "on_rws TWrite (Ex_SetState x ok out) t = Inr t1"
      "(if g then bind_sum (wrap_err TKey (Kt_OutputSNKey kt (TxID env) (base + of_nat j) out))
          (\<lambda>sn. on_rws TWrite (Ex_SetState x sn NotEmpty) t1) else Inr t1) = Inr t'"
    using assms(1-3) by (auto simp: store_output_def sum_elims)
  have ok: "\<not> is_sn ok" using sn_separate(7) k(1) assms(4) by blast
  show ?thesis
  proof (cases g)
    case True
    then obtain sn where sn: "Kt_OutputSNKey kt (TxID env) (base + of_nat j) out = Inr sn"
        "on_rws TWrite (Ex_SetState x sn NotEmpty) t1 = Inr t'"
      using k(3) by (auto simp: sum_elims)
    show ?thesis
      using True sn(1) on_rws_write [OF k(2)] on_rws_write [OF sn(2)] ok
      by (auto simp: same_ledger_def)
  next
    case False
    then show ?thesis using on_rws_write [OF k(2)] k(3) ok by (auto simp: untouched_def)
  qed
qed

end

end
