(* ===== verification/Ledger_History.thy ===== *)
theory Ledger_History
  imports Translator
begin

text \<open>
  The history of the ledger: transactions run one after the other, each against the ledger its
  predecessors left. \<open>writeRequest\<close> is what the token chaincode
  (\<open>src/token/services/network/fabric/tcc/tcc.go\<close>, \<open>ProcessRequest\<close>) does with the actions of a
  verified request: write every action, depend on the public parameters, store the request.

  \<open>ledger_run\<close> relates the ledger before and after a list of transactions. The main result is that a
  history never spends a token twice. It rests on the order of the operations of the translator:
  inputs are checked before outputs are stored, outputs of one transaction have increasing
  indices, spending deletes the serial number and refuses an output key seen before, and the
  request key makes every transaction identifier unique.
\<close>

section \<open>Definitions\<close>

definition writeRequest ::
    "'s tr_env \<Rightarrow> ledger_action list \<Rightarrow> bytes \<Rightarrow> 's tr_state \<Rightarrow> t_error + 's tr_state" where
  "writeRequest env actions toSign t =
     bind_sum (fold_sum (Translator_Write env) actions t) (\<lambda>t.
     bind_sum (AddPublicParamsDependency env t) (\<lambda>t.
     bind_sum (CommitTokenRequest env toSign True t) (\<lambda>(h, t). Inr t)))"

record ledger_tx =
  Tx_ID :: string
  Tx_Actions :: "ledger_action list"
  Tx_ToSign :: bytes

definition input_tokens :: "action_inputs \<Rightarrow> (string \<times> u64) list" where
  "input_tokens a = [(TxId i, Index i). Some i \<leftarrow> In_IDs a]"

fun action_tokens :: "ledger_action \<Rightarrow> (string \<times> u64) list" where
  "action_tokens (IssueAction a) = input_tokens (Ia_Inputs a)"
| "action_tokens (TransferAction a) = input_tokens (Ta_Inputs a)"
| "action_tokens _ = []"

fun action_outputs :: "ledger_action \<Rightarrow> nat" where
  "action_outputs (IssueAction a) = (case Ia_SerializedOutputs a of Inl _ \<Rightarrow> 0 | Inr outs \<Rightarrow> length outs)"
| "action_outputs (TransferAction a) = Ta_NumOutputs a"
| "action_outputs _ = 0"

definition tx_tokens :: "ledger_tx \<Rightarrow> (string \<times> u64) list" where
  "tx_tokens tx = concat (map action_tokens (Tx_Actions tx))"

text \<open>The ledger after the writes of a transaction were committed.\<close>

definition commit_writes :: "(string \<Rightarrow> bytes option) \<Rightarrow> (string \<Rightarrow> bytes) \<Rightarrow> string \<Rightarrow> bytes" where
  "commit_writes W L k = (case W k of None \<Rightarrow> L k | Some v \<Rightarrow> v)"

inductive ledger_run ::
    "'s ex_rwset \<Rightarrow> ('s \<Rightarrow> string \<Rightarrow> bytes) \<Rightarrow> ('s \<Rightarrow> string \<Rightarrow> bytes option) \<Rightarrow> key_translator \<Rightarrow>
     (bytes \<Rightarrow> bytes) \<Rightarrow> (string \<Rightarrow> bytes) \<Rightarrow> ledger_tx list \<Rightarrow> (string \<Rightarrow> bytes) \<Rightarrow> bool"
  for x ledger writes kt sha256
where
  run_empty: "ledger_run x ledger writes kt sha256 L [] L"
| run_step:
    "ledger_run x ledger writes kt sha256 L txs L' \<Longrightarrow>
     ledger s = L' \<Longrightarrow> writes s = (\<lambda>_. None) \<Longrightarrow>
     writeRequest \<lparr>RWSet = x, KeyTranslator = kt, TxID = Tx_ID tx, Sha256 = sha256\<rparr>
       (Tx_Actions tx) (Tx_ToSign tx) (Translator_New s) = Inr t \<Longrightarrow>
     ledger_run x ledger writes kt sha256 L (txs @ [tx]) (commit_writes (writes (Rws t)) L')"

text \<open>
  The identifiers \<open>V\<close> for which the serial number of an output determines the output, none of them a
  reserved prefix.
\<close>

definition sn_unique :: "key_translator \<Rightarrow> string set \<Rightarrow> bool" where
  "sn_unique kt V \<longleftrightarrow> V \<inter> reserved_prefixes = {} \<and>
     (\<forall>i \<in> V. \<forall>i' \<in> V. \<forall>n n' out out' k.
        Kt_OutputSNKey kt i n out = Inr k \<longrightarrow> Kt_OutputSNKey kt i' n' out' = Inr k \<longrightarrow>
        i = i' \<and> n = n' \<and> out = out')"

text \<open>
  The transactions of a history: identifiers of the transaction and of its inputs in \<open>V\<close>, and fewer
  outputs than a 64-bit counter can number.
\<close>

definition tx_in :: "string set \<Rightarrow> ledger_tx \<Rightarrow> bool" where
  "tx_in V tx \<longleftrightarrow> Tx_ID tx \<in> V \<and> (\<forall>i \<in> set (tx_tokens tx). fst i \<in> V) \<and>
     sum_list (map action_outputs (Tx_Actions tx)) < 2 ^ 64"

section \<open>Bookkeeping of serial numbers\<close>

context translator_run
begin

definition live :: "(string \<Rightarrow> bytes option) \<Rightarrow> string \<Rightarrow> bool" where
  "live W k \<longleftrightarrow> (\<exists>v. W k = Some v \<and> v \<noteq> [])"

text \<open>
  \<open>book L V past spent\<close>: on the ledger, a serial number belongs to an output of a past transaction
  that was not spent, and there is one per output index.
\<close>

definition book :: "(string \<Rightarrow> bytes) \<Rightarrow> string set \<Rightarrow> string set \<Rightarrow> (string \<times> u64) set \<Rightarrow> bool" where
  "book L V past spent \<longleftrightarrow>
     (\<forall>i \<in> V. \<forall>n out k. Kt_OutputSNKey kt i n out = Inr k \<longrightarrow> L k \<noteq> [] \<longrightarrow>
        i \<in> past \<and> (i, n) \<notin> spent \<and>
        (\<forall>out' k'. Kt_OutputSNKey kt i n out' = Inr k' \<longrightarrow> L k' \<noteq> [] \<longrightarrow> out' = out))"

text \<open>
  \<open>page L W V tx c used\<close>: during transaction \<open>tx\<close>, the pending serial numbers are of its own outputs
  with index below \<open>c\<close> that were not used, and a used token has no serial number left.
\<close>

definition page_live ::
    "(string \<Rightarrow> bytes option) \<Rightarrow> string set \<Rightarrow> string \<Rightarrow> nat \<Rightarrow> (string \<times> u64) list \<Rightarrow> bool" where
  "page_live W V tx c used \<longleftrightarrow>
     (\<forall>i \<in> V. \<forall>n out k. Kt_OutputSNKey kt i n out = Inr k \<longrightarrow> live W k \<longrightarrow>
        i = tx \<and> unat n < c \<and> (i, n) \<notin> set used \<and>
        (\<forall>out' k'. Kt_OutputSNKey kt i n out' = Inr k' \<longrightarrow> live W k' \<longrightarrow> out' = out))"

definition page_used ::
    "(string \<Rightarrow> bytes) \<Rightarrow> (string \<Rightarrow> bytes option) \<Rightarrow> string set \<Rightarrow> string \<Rightarrow> nat \<Rightarrow> (string \<times> u64) list \<Rightarrow> bool" where
  "page_used L W V tx c used \<longleftrightarrow>
     (\<forall>(i, n) \<in> set used. i \<in> V \<and> (i = tx \<longrightarrow> unat (n :: u64) < c) \<and>
        (i = tx \<or> (\<exists>out k. Kt_OutputSNKey kt i n out = Inr k \<and> L k \<noteq> [])) \<and>
        (\<forall>out k. Kt_OutputSNKey kt i n out = Inr k \<longrightarrow> commit_writes W L k = []))"

definition page ::
    "(string \<Rightarrow> bytes) \<Rightarrow> (string \<Rightarrow> bytes option) \<Rightarrow> string set \<Rightarrow> string \<Rightarrow> nat \<Rightarrow> (string \<times> u64) list \<Rightarrow> bool" where
  "page L W V tx c used \<longleftrightarrow> page_live W V tx c used \<and> page_used L W V tx c used \<and> distinct used"

definition agree_sn :: "(string \<Rightarrow> bytes option) \<Rightarrow> (string \<Rightarrow> bytes option) \<Rightarrow> bool" where
  "agree_sn W W' \<longleftrightarrow> (\<forall>k. is_sn k \<longrightarrow> W' k = W k)"

lemma is_snI: "Kt_OutputSNKey kt i n out = Inr k \<Longrightarrow> is_sn k"
  by (auto simp: is_sn_def)

lemma agree_live: "agree_sn W W' \<Longrightarrow> is_sn k \<Longrightarrow> live W' k = live W k"
  by (simp add: agree_sn_def live_def)

lemma agree_commit: "agree_sn W W' \<Longrightarrow> is_sn k \<Longrightarrow> commit_writes W' L k = commit_writes W L k"
  by (simp add: agree_sn_def commit_writes_def)

lemma page_liveI:
  assumes "\<And>i n out k. i \<in> V \<Longrightarrow> Kt_OutputSNKey kt i n out = Inr k \<Longrightarrow> live W k \<Longrightarrow>
      i = tx \<and> unat n < c \<and> (i, n) \<notin> set used"
    and "\<And>i n out k out' k'. i \<in> V \<Longrightarrow> Kt_OutputSNKey kt i n out = Inr k \<Longrightarrow> live W k \<Longrightarrow>
      Kt_OutputSNKey kt i n out' = Inr k' \<Longrightarrow> live W k' \<Longrightarrow> out' = out"
  shows "page_live W V tx c used"
  unfolding page_live_def using assms by blast

lemma page_liveD:
  assumes "page_live W V tx c used" "i \<in> V" "Kt_OutputSNKey kt i n out = Inr k" "live W k"
  shows "i = tx" "unat n < c" "(i, n) \<notin> set used"
    "Kt_OutputSNKey kt i n out' = Inr k' \<Longrightarrow> live W k' \<Longrightarrow> out' = out"
  using assms unfolding page_live_def by blast+

lemma page_usedI:
  assumes "\<And>i n. (i, n) \<in> set used \<Longrightarrow> i \<in> V \<and> (i = tx \<longrightarrow> unat n < c) \<and>
      (i = tx \<or> (\<exists>out k. Kt_OutputSNKey kt i n out = Inr k \<and> L k \<noteq> []))"
    and "\<And>i n out k. (i, n) \<in> set used \<Longrightarrow> Kt_OutputSNKey kt i n out = Inr k \<Longrightarrow> commit_writes W L k = []"
  shows "page_used L W V tx c used"
  unfolding page_used_def using assms by blast

lemma page_usedD:
  assumes "page_used L W V tx c used" "(i, n) \<in> set used"
  shows "i \<in> V" "i = tx \<Longrightarrow> unat n < c"
    "i = tx \<or> (\<exists>out k. Kt_OutputSNKey kt i n out = Inr k \<and> L k \<noteq> [])"
    "Kt_OutputSNKey kt i n out = Inr k \<Longrightarrow> commit_writes W L k = []"
  using assms unfolding page_used_def by blast+

lemma bookI:
  assumes "\<And>i n out k. i \<in> V \<Longrightarrow> Kt_OutputSNKey kt i n out = Inr k \<Longrightarrow> L k \<noteq> [] \<Longrightarrow>
      i \<in> past \<and> (i, n) \<notin> spent"
    and "\<And>i n out k out' k'. i \<in> V \<Longrightarrow> Kt_OutputSNKey kt i n out = Inr k \<Longrightarrow> L k \<noteq> [] \<Longrightarrow>
      Kt_OutputSNKey kt i n out' = Inr k' \<Longrightarrow> L k' \<noteq> [] \<Longrightarrow> out' = out"
  shows "book L V past spent"
  unfolding book_def using assms by blast

lemma bookD:
  assumes "book L V past spent" "i \<in> V" "Kt_OutputSNKey kt i n out = Inr k" "L k \<noteq> []"
  shows "i \<in> past" "(i, n) \<notin> spent"
    "Kt_OutputSNKey kt i n out' = Inr k' \<Longrightarrow> L k' \<noteq> [] \<Longrightarrow> out' = out"
  using assms unfolding book_def by blast+

lemma sn_uniqueD:
  assumes "sn_unique kt V" "i \<in> V" "i' \<in> V" "Kt_OutputSNKey kt i n out = Inr k"
    "Kt_OutputSNKey kt i' n' out' = Inr k"
  shows "i = i'" "n = n'" "out = out'"
  using assms unfolding sn_unique_def by blast+

lemma page_agree:
  assumes "page L W V tx c used" "agree_sn W W'"
  shows "page L W' V tx c used"
proof -
  have l: "live W' k = live W k" "commit_writes W' L k = commit_writes W L k"
    if "Kt_OutputSNKey kt i n out = Inr k" for i n out k
    using that assms(2) agree_live agree_commit is_snI by blast+
  have pl: "page_live W V tx c used" and pu: "page_used L W V tx c used" and "distinct used"
    using assms(1) by (simp_all add: page_def)
  moreover have "page_live W' V tx c used"
    by (rule page_liveI) (auto simp: l dest: page_liveD [OF pl])
  moreover have "page_used L W' V tx c used"
    by (rule page_usedI) (use page_usedD [OF pu] in \<open>auto simp: l\<close>)
  ultimately show ?thesis by (simp add: page_def)
qed

lemma page_mono:
  assumes "page L W V tx c used" "c \<le> c'"
  shows "page L W V tx c' used"
proof -
  have pl: "page_live W V tx c used" and pu: "page_used L W V tx c used" and "distinct used"
    using assms(1) by (simp_all add: page_def)
  moreover have "page_live W V tx c' used"
    by (rule page_liveI) (meson page_liveD [OF pl] assms(2) less_le_trans)+
  moreover have "page_used L W V tx c' used"
    by (rule page_usedI) (meson page_usedD [OF pu] assms(2) less_le_trans)+
  ultimately show ?thesis by (simp add: page_def)
qed

lemma page_empty: "page L (\<lambda>_. None) V tx 0 []"
  by (simp add: page_def page_live_def page_used_def live_def)

lemma page_store:
  assumes pg: "page L W V tx c used" and u: "sn_unique kt V" "tx \<in> V"
    and k0: "Kt_OutputSNKey kt tx n0 out0 = Inr k0" and c: "c \<le> unat n0" and v: "v \<noteq> []"
  shows "page L (W(k0 \<mapsto> v)) V tx (Suc (unat n0)) used"
proof -
  have pl: "page_live W V tx c used" and pu: "page_used L W V tx c used" and "distinct used"
    using pg by (simp_all add: page_def)
  have fresh: "\<not> live W k" if "Kt_OutputSNKey kt tx n0 out = Inr k" for out k
    using page_liveD(2) [OF pl u(2) that] c by auto
  have unused: "(tx, n0) \<notin> set used"
    using page_usedD(2) [OF pu] c by fastforce
  have l: "live (W(k0 \<mapsto> v)) k \<longleftrightarrow> k = k0 \<or> live W k" for k
    using v by (simp add: live_def)
  have "page_live (W(k0 \<mapsto> v)) V tx (Suc (unat n0)) used"
  proof (rule page_liveI)
    fix i n out k
    assume i: "i \<in> V" "Kt_OutputSNKey kt i n out = Inr k" "live (W(k0 \<mapsto> v)) k"
    show "i = tx \<and> unat n < Suc (unat n0) \<and> (i, n) \<notin> set used"
    proof (cases "k = k0")
      case True
      then have "i = tx" "n = n0" using sn_uniqueD [OF u(1) i(1) u(2) i(2)] k0 by auto
      then show ?thesis using unused by simp
    next
      case False
      then have "live W k" using i(3) l by simp
      then show ?thesis using page_liveD [OF pl i(1,2)] c by fastforce
    qed
  next
    fix i n out k out' k'
    assume i: "i \<in> V" "Kt_OutputSNKey kt i n out = Inr k" "live (W(k0 \<mapsto> v)) k"
      "Kt_OutputSNKey kt i n out' = Inr k'" "live (W(k0 \<mapsto> v)) k'"
    have n0: "k = k0 \<Longrightarrow> i = tx \<and> n = n0" "k' = k0 \<Longrightarrow> i = tx \<and> n = n0"
      using sn_uniqueD [OF u(1) i(1) u(2) i(2)] sn_uniqueD [OF u(1) i(1) u(2) i(4)] k0 by auto
    show "out' = out"
    proof (cases "k = k0 \<or> k' = k0")
      case True
      then have "i = tx" "n = n0" using n0 by auto
      then have "k = k0" "k' = k0" using i l fresh by blast+
      then show ?thesis using sn_uniqueD(3) [OF u(1) i(1) i(1) i(4)] i(2) by blast
    next
      case False
      then show ?thesis using page_liveD(4) [OF pl i(1,2)] i l by blast
    qed
  qed
  moreover have "page_used L (W(k0 \<mapsto> v)) V tx (Suc (unat n0)) used"
  proof (rule page_usedI)
    fix i n out k
    assume i: "(i, n) \<in> set used" "Kt_OutputSNKey kt i n out = Inr k"
    have "k \<noteq> k0"
    proof
      assume "k = k0"
      then have "i = tx" "n = n0"
        using sn_uniqueD [OF u(1) page_usedD(1) [OF pu i(1)] u(2) i(2)] k0 by auto
      then show False using i(1) unused by simp
    qed
    then show "commit_writes (W(k0 \<mapsto> v)) L k = []"
      using page_usedD(4) [OF pu i] by (simp add: commit_writes_def)
  qed (use page_usedD [OF pu] c in fastforce)
  ultimately show ?thesis using \<open>distinct used\<close> by (simp add: page_def)
qed

lemma spend_own:
  "book L V past spent \<Longrightarrow> tx \<notin> past \<Longrightarrow> tx \<in> V \<Longrightarrow> Kt_OutputSNKey kt tx n out = Inr k \<Longrightarrow> L k = []"
  using bookD(1) by blast

lemma spend_dead:
  assumes pl: "page_live W V tx c used" and bk: "book L V past spent" "tx \<notin> past"
    and i0: "i0 \<in> V"
    and k0: "Kt_OutputSNKey kt i0 n0 out0 = Inr k0" "L k0 \<noteq> [] \<or> live W k0"
    and that: "Kt_OutputSNKey kt i0 n0 out = Inr k" "k \<noteq> k0"
  shows "L k = [] \<and> \<not> live W k"
proof (cases "L k0 = []")
  case True
  then have lv: "live W k0" using k0(2) by simp
  have "i0 = tx" using page_liveD(1) [OF pl i0 k0(1) lv] .
  moreover have "\<not> live W k"
  proof
    assume "live W k"
    then have "out = out0" using page_liveD(4) [OF pl i0 k0(1) lv that(1)] by simp
    then show False using that k0(1) by simp
  qed
  ultimately show ?thesis using spend_own [OF bk] i0 that(1) by blast
next
  case False
  have "i0 \<noteq> tx" using bookD(1) [OF bk(1) i0 k0(1) False] bk(2) by auto
  then have "\<not> live W k" using page_liveD(1) [OF pl i0 that(1)] by blast
  moreover have "L k = []"
  proof (rule ccontr)
    assume "L k \<noteq> []"
    then have "out = out0" using bookD(3) [OF bk(1) i0 k0(1) False that(1)] by simp
    then show False using that k0(1) by simp
  qed
  ultimately show ?thesis by blast
qed

lemma page_spend:
  assumes pg: "page L W V tx c used" and u: "sn_unique kt V" and bk: "book L V past spent" "tx \<notin> past"
    and i0: "i0 \<in> V" "(i0, n0) \<notin> set used"
    and k0: "Kt_OutputSNKey kt i0 n0 out0 = Inr k0" "L k0 \<noteq> [] \<or> live W k0"
  shows "page L (W(k0 \<mapsto> [])) V tx c (used @ [(i0, n0)])"
proof -
  have pl: "page_live W V tx c used" and pu: "page_used L W V tx c used" and "distinct used"
    using pg by (simp_all add: page_def)
  have l: "live (W(k0 \<mapsto> [])) k \<longleftrightarrow> k \<noteq> k0 \<and> live W k" for k
    by (simp add: live_def)
  have own: "L k = []" if "i0 = tx" "Kt_OutputSNKey kt i0 n out = Inr k" for n out k
    using spend_own [OF bk] i0(1) that by blast
  note dead = spend_dead [OF pl bk i0(1) k0]
  have "page_live (W(k0 \<mapsto> [])) V tx c (used @ [(i0, n0)])"
  proof (rule page_liveI)
    fix i n out k
    assume i: "i \<in> V" "Kt_OutputSNKey kt i n out = Inr k" "live (W(k0 \<mapsto> [])) k"
    have "(i, n) \<noteq> (i0, n0)" using i dead l by blast
    then show "i = tx \<and> unat n < c \<and> (i, n) \<notin> set (used @ [(i0, n0)])"
      using page_liveD(1-3) [OF pl i(1,2)] i(3) l by auto
  next
    fix i n out k out' k'
    assume i: "i \<in> V" "Kt_OutputSNKey kt i n out = Inr k" "live (W(k0 \<mapsto> [])) k"
      "Kt_OutputSNKey kt i n out' = Inr k'" "live (W(k0 \<mapsto> [])) k'"
    then show "out' = out" using page_liveD(4) [OF pl i(1,2)] l by blast
  qed
  moreover have "page_used L (W(k0 \<mapsto> [])) V tx c (used @ [(i0, n0)])"
  proof (rule page_usedI)
    fix i n
    assume "(i, n) \<in> set (used @ [(i0, n0)])"
    then consider "(i, n) \<in> set used" | "i = i0" "n = n0" by auto
    then show "i \<in> V \<and> (i = tx \<longrightarrow> unat n < c) \<and>
        (i = tx \<or> (\<exists>out k. Kt_OutputSNKey kt i n out = Inr k \<and> L k \<noteq> []))"
    proof cases
      case 1
      then show ?thesis using page_usedD(1-3) [OF pu] by blast
    next
      case 2
      have "live W k0" if "i0 = tx" using own [OF that k0(1)] k0(2) by simp
      then show ?thesis using 2 i0(1) k0 page_liveD(1,2) [OF pl i0(1) k0(1)] by blast
    qed
  next
    fix i n out k
    assume i: "(i, n) \<in> set (used @ [(i0, n0)])" "Kt_OutputSNKey kt i n out = Inr k"
    show "commit_writes (W(k0 \<mapsto> [])) L k = []"
    proof (cases "(i, n) = (i0, n0)")
      case True
      then show ?thesis
        using dead [of out k] i(2) by (cases "k = k0") (auto simp: commit_writes_def live_def split: option.split)
    next
      case False
      then have "(i, n) \<in> set used" using i(1) by auto
      then show ?thesis
        using page_usedD(4) [OF pu _ i(2)] by (simp add: commit_writes_def)
    qed
  qed
  ultimately show ?thesis using \<open>distinct used\<close> i0(2) by (simp add: page_def)
qed

text \<open>Turning the page: the ledger after the transaction.\<close>

lemma book_commit:
  assumes pg: "page L W V tx c used" and bk: "book L V past spent" "tx \<notin> past" and sp: "fst ` spent \<subseteq> past"
  shows "book (commit_writes W L) V (insert tx past) (spent \<union> set used)"
proof -
  have pl: "page_live W V tx c used" and pu: "page_used L W V tx c used"
    using pg by (simp_all add: page_def)
  have split: "live W k \<or> W k = None \<and> L k \<noteq> []" if "commit_writes W L k \<noteq> []" for k
    using that by (auto simp: commit_writes_def live_def split: option.splits)
  show ?thesis
  proof (rule bookI)
    fix i n out k
    assume i: "i \<in> V" "Kt_OutputSNKey kt i n out = Inr k" "commit_writes W L k \<noteq> []"
    have "(i, n) \<notin> set used" using page_usedD(4) [OF pu _ i(2)] i(3) by blast
    moreover from split [OF i(3)] have "i \<in> insert tx past \<and> (i, n) \<notin> spent"
    proof
      assume "live W k"
      then have "i = tx" using page_liveD(1) [OF pl i(1,2)] by blast
      then show ?thesis using sp bk(2) by force
    next
      assume "W k = None \<and> L k \<noteq> []"
      then show ?thesis using bookD(1,2) [OF bk(1) i(1,2)] by blast
    qed
    ultimately show "i \<in> insert tx past \<and> (i, n) \<notin> spent \<union> set used" by blast
  next
    fix i n out k out' k'
    assume i: "i \<in> V" "Kt_OutputSNKey kt i n out = Inr k" "commit_writes W L k \<noteq> []"
      "Kt_OutputSNKey kt i n out' = Inr k'" "commit_writes W L k' \<noteq> []"
    have "live W k \<longleftrightarrow> live W k'"
      using split [OF i(3)] split [OF i(5)] page_liveD(1) [OF pl i(1)] bookD(1) [OF bk(1) i(1)] bk(2) i(2,4) by metis
    then show "out' = out"
      using split [OF i(3)] split [OF i(5)] page_liveD(4) [OF pl i(1,2)] bookD(3) [OF bk(1) i(1,2)] i(4) by blast
  qed
qed

section \<open>Actions keep the book\<close>

text \<open>The inputs of an action with their serialized tokens, and those that can still be spent.\<close>

definition spendable ::
    "(string \<Rightarrow> bytes) \<Rightarrow> (string \<Rightarrow> bytes option) \<Rightarrow> (string \<times> u64) list \<Rightarrow> string \<Rightarrow> u64 \<Rightarrow> bytes \<Rightarrow> bool" where
  "spendable L W used i n out \<longleftrightarrow>
     (i, n) \<in> set used \<or> (\<exists>k. Kt_OutputSNKey kt i n out = Inr k \<and> (L k \<noteq> [] \<or> live W k))"

lemma spendable_agree:
  "spendable L W used i n out \<Longrightarrow> agree_sn W W' \<Longrightarrow> spendable L W' used i n out"
  unfolding spendable_def using agree_live is_snI by blast

lemma spendable_store:
  "spendable L W used i n out \<Longrightarrow> v \<noteq> [] \<Longrightarrow> spendable L (W(k0 \<mapsto> v)) used i n out"
  unfolding spendable_def live_def by auto

lemma spendable_spend:
  assumes "spendable L W used i n out" "sn_unique kt V" "i \<in> V" "i0 \<in> V"
    "Kt_OutputSNKey kt i0 n0 out0 = Inr k0"
  shows "spendable L (W(k0 \<mapsto> [])) (used @ [(i0, n0)]) i n out"
proof (cases "(i, n) = (i0, n0)")
  case False
  have "k \<noteq> k0" if "Kt_OutputSNKey kt i n out = Inr k" for k
    using sn_uniqueD(1,2) [OF assms(2,3,4) that, of n0 out0] assms(5) False by blast
  then show ?thesis using assms(1) unfolding spendable_def live_def by auto
qed (simp add: spendable_def)

definition entry_spendable ::
    "(string \<Rightarrow> bytes) \<Rightarrow> (string \<Rightarrow> bytes option) \<Rightarrow> (string \<times> u64) list \<Rightarrow> string set \<Rightarrow> bytes list \<Rightarrow>
     nat \<times> token_id option \<Rightarrow> bool" where
  "entry_spendable L W used V ser e \<longleftrightarrow> (\<exists>tid. snd e = Some tid \<and> TxId tid \<in> V \<and>
     spendable L W used (TxId tid) (Index tid) (ser ! fst e))"

definition inputs_spendable ::
    "(string \<Rightarrow> bytes) \<Rightarrow> (string \<Rightarrow> bytes option) \<Rightarrow> (string \<times> u64) list \<Rightarrow> string set \<Rightarrow> action_inputs \<Rightarrow> bool" where
  "inputs_spendable L W used V a \<longleftrightarrow>
     (\<exists>ser. In_Serialized a = Inr ser \<and>
       (\<forall>e \<in> set (enumerate 0 (In_IDs a)). entry_spendable L W used V ser e))"

text \<open>The state of a transaction in progress.\<close>

definition open_page ::
    "'s tr_state \<Rightarrow> (string \<Rightarrow> bytes) \<Rightarrow> string set \<Rightarrow> string \<Rightarrow> nat \<Rightarrow> (string \<times> u64) list \<Rightarrow> bool" where
  "open_page t L V tx c used \<longleftrightarrow>
     ledger (Rws t) = L \<and> page L (writes (Rws t)) V tx c used \<and>
     (\<forall>(i, n) \<in> set used. \<exists>k. Kt_OutputKey kt i n = Inr k \<and> k \<in> set (SpentIDs t))"

lemma open_page_untouched:
  assumes "open_page t L V tx c used" "untouched t t'" "set (SpentIDs t) \<subseteq> set (SpentIDs t')"
  shows "open_page t' L V tx c used"
proof -
  have "agree_sn (writes (Rws t)) (writes (Rws t'))"
    using assms(2) by (auto simp: untouched_def agree_sn_def)
  then show ?thesis
    using assms page_agree unfolding open_page_def untouched_def same_ledger_def by fastforce
qed

lemma checkInputs_effect:
  assumes "checkInputs env a t = Inr t'" "RWSet env = x" "KeyTranslator env = kt"
    and "\<forall>i \<in> set (input_tokens a). fst i \<in> V"
  shows "same_ledger t t' \<and> SpentIDs t' = SpentIDs t \<and> writes (Rws t') = writes (Rws t) \<and>
    inputs_spendable (ledger (Rws t)) (writes (Rws t)) used V a"
proof -
  let ?R = "\<lambda>u v. same_ledger u v \<and> SpentIDs v = SpentIDs u \<and> writes (Rws v) = writes (Rws u)"
  have R: "?R u u" "?R u v \<Longrightarrow> ?R v w \<Longrightarrow> ?R u w" for u v w
    by (auto simp: same_ledger_def)
  obtain t1 ser where s: "fold_sum (\<lambda>key. on_rws TRead (Ex_StateMustNotExist x key)) (In_SerialNumbers a) t = Inr t1"
      "In_Serialized a = Inr ser" "length ser = length (In_IDs a)"
      "fold_sum (check_input env ser) (enumerate 0 (In_IDs a)) t1 = Inr t'"
    using assms(1-3) by (auto simp: checkInputs_def sum_elims split: if_splits)
  have 1: "?R t t1"
    using s(1) by (rule fold_sum_invariant [where P = "?R t"])
      (use on_rws_must_not_exist R in \<open>blast+\<close>)
  have c: "?R u v" if "check_input env ser e u = Inr v" for e u v
    using check_input_effect [of env ser "fst e" "snd e" u v] that assms(2,3) by simp
  have 2: "?R t1 t'"
    using s(4) by (rule fold_sum_invariant [where P = "?R t1"]) (use c R in \<open>blast+\<close>)
  have "entry_spendable (ledger (Rws t)) (writes (Rws t)) used V ser (j, input)"
    if e: "(j, input) \<in> set (enumerate 0 (In_IDs a))" for j input
  proof -
    obtain u v where u: "check_input env ser (j, input) u = Inr v" "?R t1 u"
      using fold_sum_each_rel [OF s(4) e, of ?R] c R by blast
    obtain tid k where k: "input = Some tid" "Kt_OutputSNKey kt (TxId tid) (Index tid) (ser ! j) = Inr k" "present u k"
      using check_input_effect [OF u(1) assms(2,3)] by blast
    have "Some tid \<in> set (In_IDs a)" using enumerate_elem [OF e] k(1) by simp
    then have "TxId tid \<in> V" using assms(4) by (force simp: input_tokens_def)
    moreover have "spendable (ledger (Rws t)) (writes (Rws t)) used (TxId tid) (Index tid) (ser ! j)"
      using k(2,3) 1 u(2) unfolding spendable_def present_def live_def same_ledger_def by auto
    ultimately show ?thesis using k(1) by (simp add: entry_spendable_def)
  qed
  then show ?thesis using R(2) [OF 1 2] s(2) unfolding inputs_spendable_def by auto
qed

lemma sn_unique_reserved: "sn_unique kt V \<Longrightarrow> i \<in> V \<Longrightarrow> i \<notin> reserved_prefixes"
  by (auto simp: sn_unique_def)

lemma spend_one:
  assumes s: "spend_input env ser e t = Inr t'" and env: "RWSet env = x" "KeyTranslator env = kt"
    and u: "sn_unique kt V" and bk: "book L V past spent" "tx \<notin> past"
    and pg: "open_page t L V tx c used" and es: "entry_spendable L (writes (Rws t)) used V ser e"
  shows "\<exists>tid. snd e = Some tid \<and> open_page t' L V tx c (used @ [(TxId tid, Index tid)]) \<and>
    counter t' = counter t \<and>
    (\<forall>e'. entry_spendable L (writes (Rws t)) used V ser e' \<longrightarrow>
       entry_spendable L (writes (Rws t')) (used @ [(TxId tid, Index tid)]) V ser e')"
proof -
  obtain tid sn out where i: "snd e = Some tid"
      and sn: "Kt_OutputSNKey kt (TxId tid) (Index tid) (ser ! fst e) = Inr sn"
      and out: "Kt_OutputKey kt (TxId tid) (Index tid) = Inr out" "out \<notin> set (SpentIDs t)"
      and t': "SpentIDs t' = SpentIDs t @ [out]" "same_ledger t t'"
        "writes (Rws t') = (writes (Rws t))(sn \<mapsto> [], out \<mapsto> [])"
    using spend_input_effect [of env ser "fst e" "snd e" t t'] s env by auto
  let ?W = "writes (Rws t)" and ?tok = "(TxId tid, Index tid)"
  have V: "TxId tid \<in> V" and sp: "spendable L ?W used (TxId tid) (Index tid) (ser ! fst e)"
    using es i by (auto simp: entry_spendable_def)
  have unused: "?tok \<notin> set used"
    using pg out by (auto simp: open_page_def)
  have k0: "L sn \<noteq> [] \<or> live ?W sn" using sp unused sn by (auto simp: spendable_def)
  have pgW: "page L ?W V tx c used" using pg by (simp add: open_page_def)
  have "\<not> is_sn out" using sn_separate(7) out(1) sn_unique_reserved [OF u V] by blast
  then have ag: "agree_sn (?W(sn \<mapsto> [])) (writes (Rws t'))" by (auto simp: agree_sn_def t'(3))
  have "page L (writes (Rws t')) V tx c (used @ [?tok])"
    by (rule page_agree [OF page_spend [OF pgW u bk V unused sn k0] ag])
  then have "open_page t' L V tx c (used @ [?tok])"
    using pg out t' by (fastforce simp: open_page_def same_ledger_def)
  moreover have "entry_spendable L (writes (Rws t')) (used @ [?tok]) V ser e'"
    if "entry_spendable L ?W used V ser e'" for e'
    using that spendable_agree [OF spendable_spend [OF _ u _ V sn] ag]
    unfolding entry_spendable_def by blast
  ultimately show ?thesis using i t'(2) by (auto simp: same_ledger_def)
qed

definition entry_tokens :: "(nat \<times> token_id option) list \<Rightarrow> (string \<times> u64) list" where
  "entry_tokens xs = [(TxId i, Index i). (j, Some i) \<leftarrow> xs]"

lemma spend_loop:
  assumes "fold_sum (spend_input env ser) xs t = Inr t'" and env: "RWSet env = x" "KeyTranslator env = kt"
    and u: "sn_unique kt V" and bk: "book L V past spent" "tx \<notin> past"
    and "open_page t L V tx c used" and "\<forall>e \<in> set xs. entry_spendable L (writes (Rws t)) used V ser e"
  shows "open_page t' L V tx c (used @ entry_tokens xs) \<and> counter t' = counter t"
  using assms(1,7,8)
proof (induction xs arbitrary: t used)
  case Nil
  then show ?case by (simp add: entry_tokens_def)
next
  case (Cons e xs)
  then obtain t1 where t1: "spend_input env ser e t = Inr t1" "fold_sum (spend_input env ser) xs t1 = Inr t'"
    by (auto simp: sum_elims)
  obtain tid where tid: "snd e = Some tid" "open_page t1 L V tx c (used @ [(TxId tid, Index tid)])"
      "counter t1 = counter t"
      "\<And>e'. entry_spendable L (writes (Rws t)) used V ser e' \<Longrightarrow>
         entry_spendable L (writes (Rws t1)) (used @ [(TxId tid, Index tid)]) V ser e'"
    using spend_one [OF t1(1) env u bk Cons.prems(2)] Cons.prems(3) by auto
  have rest: "\<forall>e' \<in> set xs. entry_spendable L (writes (Rws t1)) (used @ [(TxId tid, Index tid)]) V ser e'"
    using Cons.prems(3) tid(4) unfolding list.set(2) ball_simps(7) by blast
  have "open_page t' L V tx c ((used @ [(TxId tid, Index tid)]) @ entry_tokens xs) \<and> counter t' = counter t1"
    by (rule Cons.IH [OF t1(2) tid(2) rest])
  then show ?case using tid(1,3) by (cases e) (simp add: entry_tokens_def)
qed

lemma entry_tokens_enumerate: "entry_tokens (enumerate n (In_IDs a)) = input_tokens a"
proof -
  have "entry_tokens (enumerate n ids) = [(TxId i, Index i). Some i \<leftarrow> ids]" for ids :: "token_id option list"
    by (induction ids arbitrary: n) (auto simp: entry_tokens_def split: option.split)
  then show ?thesis by (simp add: input_tokens_def)
qed

lemma spendInputs_page:
  assumes "spendInputs env a t = Inr t'" and env: "RWSet env = x" "KeyTranslator env = kt"
    and u: "sn_unique kt V" and bk: "book L V past spent" "tx \<notin> past"
    and pg: "open_page t L V tx c used" and sp: "inputs_spendable L (writes (Rws t)) used V a"
  shows "open_page t' L V tx c (used @ input_tokens a) \<and> counter t' = counter t"
proof -
  obtain ser where ser: "In_Serialized a = Inr ser"
      "\<forall>e \<in> set (enumerate 0 (In_IDs a)). entry_spendable L (writes (Rws t)) used V ser e"
    using sp by (auto simp: inputs_spendable_def)
  obtain t1 where t1: "fold_sum (spend_input env ser) (enumerate 0 (In_IDs a)) t = Inr t1"
      "fold_sum (spend_serial_number env) (In_SerialNumbers a) t1 = Inr t'"
    using assms(1) ser(1) by (cases "In_IDs a = []") (auto simp: spendInputs_def sum_elims)
  have 1: "open_page t1 L V tx c (used @ input_tokens a)" "counter t1 = counter t"
    using spend_loop [OF t1(1) env u bk pg ser(2)] by (simp_all add: entry_tokens_enumerate)
  have "open_page t' L V tx c (used @ input_tokens a) \<and> counter t' = counter t1"
    using t1(2)
  proof (rule fold_sum_invariant [where P = "\<lambda>w. open_page w L V tx c (used @ input_tokens a) \<and> counter w = counter t1"])
    show "open_page t1 L V tx c (used @ input_tokens a) \<and> counter t1 = counter t1" using 1 by simp
  next
    fix i w w'
    assume w: "open_page w L V tx c (used @ input_tokens a) \<and> counter w = counter t1"
      "spend_serial_number env i w = Inr w'"
    show "open_page w' L V tx c (used @ input_tokens a) \<and> counter w' = counter t1"
      using spend_serial_number_effect [OF w(2) env] w(1)
        open_page_untouched [of w L V tx c "used @ input_tokens a" w']
      by (simp add: untouched_def same_ledger_def) blast
  qed
  then show ?thesis using 1(2) by simp
qed

lemma inputs_spendable_mono:
  assumes "inputs_spendable L W used V a"
    and "\<And>i n out. spendable L W used i n out \<Longrightarrow> spendable L W' used i n out"
  shows "inputs_spendable L W' used V a"
proof -
  obtain ser where ser: "In_Serialized a = Inr ser"
      "\<forall>e \<in> set (enumerate 0 (In_IDs a)). entry_spendable L W used V ser e"
    using assms(1) unfolding inputs_spendable_def by (elim exE conjE)
  have "entry_spendable L W' used V ser e" if "entry_spendable L W used V ser e" for e
    using that assms(2) unfolding entry_spendable_def by (elim exE conjE) simp
  with ser show ?thesis unfolding inputs_spendable_def by blast
qed

lemma inputs_spendable_agree:
  "inputs_spendable L W used V a \<Longrightarrow> agree_sn W W' \<Longrightarrow> inputs_spendable L W' used V a"
  by (erule inputs_spendable_mono) (rule spendable_agree)

lemma inputs_spendable_store:
  "inputs_spendable L W used V a \<Longrightarrow> v \<noteq> [] \<Longrightarrow> inputs_spendable L (W(k0 \<mapsto> v)) used V a"
  by (erule inputs_spendable_mono) (rule spendable_store)

lemma store_output_page:
  assumes s: "store_output env base g j out t = Inr t'" and env: "RWSet env = x" "KeyTranslator env = kt" "TxID env = tx"
    and u: "sn_unique kt V" "tx \<in> V" and c: "c = unat base + j" "unat base + j < 2 ^ 64"
    and pg: "open_page t L V tx c used" and sp: "inputs_spendable L (writes (Rws t)) used V a"
  shows "open_page t' L V tx (Suc c) used \<and> counter t' = counter t \<and>
    inputs_spendable L (writes (Rws t')) used V a"
proof (cases g)
  case True
  obtain sn where sn: "Kt_OutputSNKey kt tx (base + of_nat j) out = Inr sn"
      "\<forall>k. is_sn k \<longrightarrow> writes (Rws t') k = ((writes (Rws t))(sn \<mapsto> NotEmpty)) k"
      and t': "same_ledger t t'" "SpentIDs t' = SpentIDs t"
    using store_output_effect [OF s env(1,2)] sn_unique_reserved [OF u] env(3) True by auto
  have n: "unat (base + of_nat j) = c" using unat_add_of_nat [OF c(2)] c(1) by simp
  have ne: "NotEmpty \<noteq> []" by (simp add: NotEmpty_def)
  have ag: "agree_sn ((writes (Rws t))(sn \<mapsto> NotEmpty)) (writes (Rws t'))"
    using sn(2) by (simp add: agree_sn_def)
  have pgW: "page L (writes (Rws t)) V tx c used" using pg by (simp add: open_page_def)
  have "page L (writes (Rws t')) V tx (Suc c) used"
    using page_agree [OF page_store [OF pgW u sn(1) _ ne] ag] n by simp
  then show ?thesis
    using pg t' inputs_spendable_agree [OF inputs_spendable_store [OF sp ne] ag]
    by (auto simp: open_page_def same_ledger_def)
next
  case False
  then have unt: "untouched t t'" "SpentIDs t' = SpentIDs t"
    using store_output_effect [OF s env(1,2)] sn_unique_reserved [OF u] env(3) by auto
  have "open_page t' L V tx c used" using open_page_untouched [OF pg unt(1)] unt(2) by simp
  then have "open_page t' L V tx (Suc c) used" using page_mono by (auto simp: open_page_def)
  then show ?thesis
    using unt(1) inputs_spendable_agree [OF sp] by (auto simp: untouched_def same_ledger_def agree_sn_def)
qed

text \<open>A loop that stores outputs at consecutive positions, skipping some.\<close>

lemma store_loop:
  assumes "fold_sum f xs t = Inr t'"
    and step: "\<And>e w w'. e \<in> set xs \<Longrightarrow> f e w = Inr w' \<Longrightarrow>
      w' = w \<or> (\<exists>out. store_output env base g (pos e) out w = Inr w')"
    and env: "RWSet env = x" "KeyTranslator env = kt" "TxID env = tx"
    and u: "sn_unique kt V" "tx \<in> V"
    and pos: "map pos xs = [m..<m + length xs]" "unat base + m + length xs < 2 ^ 64"
    and pg: "open_page t L V tx (unat base + m) used" and sp: "inputs_spendable L (writes (Rws t)) used V a"
  shows "open_page t' L V tx (unat base + m + length xs) used \<and> counter t' = counter t \<and>
    inputs_spendable L (writes (Rws t')) used V a"
  using assms(1) step pos pg sp
proof (induction xs arbitrary: t m)
  case Nil
  then show ?case by simp
next
  case (Cons e xs)
  obtain t1 where t1: "f e t = Inr t1" "fold_sum f xs t1 = Inr t'"
    using Cons.prems(1) by (auto simp: sum_elims)
  have up: "[m..<m + length (e # xs)] = m # [Suc m..<Suc m + length xs]"
    by (simp add: upt_rec)
  have e: "pos e = m" "map pos xs = [Suc m..<Suc m + length xs]"
    using Cons.prems(3) unfolding up by auto
  have "open_page t1 L V tx (Suc (unat base + m)) used \<and> counter t1 = counter t \<and>
      inputs_spendable L (writes (Rws t1)) used V a"
  proof (cases "t1 = t")
    case True
    then show ?thesis using Cons.prems(5,6) page_mono by (auto simp: open_page_def)
  next
    case False
    then obtain out where "store_output env base g m out t = Inr t1"
      using Cons.prems(2) [OF _ t1(1)] e(1) by auto
    from store_output_page [OF this env u refl _ Cons.prems(5,6)] show ?thesis
      using Cons.prems(4) by simp
  qed
  then have 1: "open_page t1 L V tx (unat base + Suc m) used" "counter t1 = counter t"
      "inputs_spendable L (writes (Rws t1)) used V a"
    by simp_all
  have "open_page t' L V tx (unat base + Suc m + length xs) used \<and> counter t' = counter t1 \<and>
      inputs_spendable L (writes (Rws t')) used V a"
    by (rule Cons.IH [OF t1(2) _ e(2) _ 1(1,3)]) (use Cons.prems(2,4) in auto)
  then show ?case using 1(2) by simp
qed

lemma metadata_page:
  assumes m: "fold_sum (store_metadata env mk) xs t = Inr t'" and env: "RWSet env = x"
    and mk: "\<And>key k. mk key = Inr k \<Longrightarrow> \<not> is_sn k" and pg: "open_page t L V tx c used"
  shows "open_page t' L V tx c used \<and> counter t' = counter t"
proof -
  have "untouched t t' \<and> SpentIDs t' = SpentIDs t"
    using m by (rule fold_untouched) (erule store_metadata_effect [OF _ env], erule mk)
  then show ?thesis
    using open_page_untouched [OF pg] by (auto simp: untouched_def same_ledger_def)
qed

lemma commitIssueAction_page:
  assumes s: "commitIssueAction env a t = Inr t'" and env: "RWSet env = x" "KeyTranslator env = kt" "TxID env = tx"
    and u: "sn_unique kt V" "tx \<in> V" and bk: "book L V past spent" "tx \<notin> past"
    and pg: "open_page t L V tx (unat (counter t)) used" and sp: "inputs_spendable L (writes (Rws t)) used V (Ia_Inputs a)"
    and len: "unat (counter t) + action_outputs (IssueAction a) < 2 ^ 64"
  shows "open_page t' L V tx (unat (counter t')) (used @ input_tokens (Ia_Inputs a)) \<and>
    unat (counter t') = unat (counter t) + action_outputs (IssueAction a)"
proof -
  let ?base = "counter t"
  obtain outs t1 t2 t3 where o: "Ia_SerializedOutputs a = Inr outs"
      "fold_sum (\<lambda>(i, out). store_output env ?base (\<not> Ia_IsGraphHiding a) i out) (enumerate 0 outs) t = Inr t1"
      "spendInputs env (Ia_Inputs a) t1 = Inr t2"
      "fold_sum (store_metadata env (Kt_IssueActionMetadataKey kt)) (Ia_Metadata a) t2 = Inr t3"
      "t' = t3\<lparr>counter := counter t3 + of_nat (length outs)\<rparr>"
    using s env(2) by (auto simp: commitIssueAction_def Let_def sum_elims)
  have step: "w' = w \<or> (\<exists>out. store_output env ?base (\<not> Ia_IsGraphHiding a) (fst e) out w = Inr w')"
    if "(\<lambda>(i, out). store_output env ?base (\<not> Ia_IsGraphHiding a) i out) e w = Inr w'" for e w w'
    using that by (cases e) auto
  have 1: "open_page t1 L V tx (unat ?base + length outs) used" "counter t1 = counter t"
      "inputs_spendable L (writes (Rws t1)) used V (Ia_Inputs a)"
    using store_loop [OF o(2) step env u, where m = 0] pg sp len o(1) by auto
  have 2: "open_page t2 L V tx (unat ?base + length outs) (used @ input_tokens (Ia_Inputs a))" "counter t2 = counter t1"
    using spendInputs_page [OF o(3) env(1,2) u(1) bk 1(1,3)] by simp_all
  have 3: "open_page t3 L V tx (unat ?base + length outs) (used @ input_tokens (Ia_Inputs a))" "counter t3 = counter t2"
    using metadata_page [OF o(4) env(1) _ 2(1)] sn_separate(2) by blast+
  have "unat (counter t') = unat ?base + length outs"
    using unat_add_of_nat [of ?base "length outs"] len o(1,5) 1(2) 2(2) 3(2) by simp
  then show ?thesis using 3(1) o(1,5) by (simp add: open_page_def)
qed

lemma commitTransferAction_page:
  assumes s: "commitTransferAction env a t = Inr t'" and env: "RWSet env = x" "KeyTranslator env = kt" "TxID env = tx"
    and u: "sn_unique kt V" "tx \<in> V" and bk: "book L V past spent" "tx \<notin> past"
    and pg: "open_page t L V tx (unat (counter t)) used" and sp: "inputs_spendable L (writes (Rws t)) used V (Ta_Inputs a)"
    and len: "unat (counter t) + Ta_NumOutputs a < 2 ^ 64"
  shows "open_page t' L V tx (unat (counter t')) (used @ input_tokens (Ta_Inputs a)) \<and>
    unat (counter t') = unat (counter t) + Ta_NumOutputs a"
proof -
  let ?base = "counter t" and ?n = "Ta_NumOutputs a"
  obtain t1 t2 t3 where o:
      "fold_sum (store_transfer_output env ?base a) [0..<?n] t = Inr t1"
      "spendInputs env (Ta_Inputs a) t1 = Inr t2"
      "fold_sum (store_metadata env (Kt_TransferActionMetadataKey kt)) (Ta_Metadata a) t2 = Inr t3"
      "t' = t3\<lparr>counter := counter t3 + of_nat ?n\<rparr>"
    using s env(2) by (auto simp: commitTransferAction_def Let_def sum_elims)
  have step: "w' = w \<or> (\<exists>out. store_output env ?base (\<not> Ta_IsGraphHiding a) (id e) out w = Inr w')"
    if "store_transfer_output env ?base a e w = Inr w'" for e w w'
    using that by (auto simp: store_transfer_output_def sum_elims split: if_splits)
  have 1: "open_page t1 L V tx (unat ?base + ?n) used" "counter t1 = counter t"
      "inputs_spendable L (writes (Rws t1)) used V (Ta_Inputs a)"
    using store_loop [OF o(1) step env u, where m = 0] pg sp len by auto
  have 2: "open_page t2 L V tx (unat ?base + ?n) (used @ input_tokens (Ta_Inputs a))" "counter t2 = counter t1"
    using spendInputs_page [OF o(2) env(1,2) u(1) bk 1(1,3)] by simp_all
  have 3: "open_page t3 L V tx (unat ?base + ?n) (used @ input_tokens (Ta_Inputs a))" "counter t3 = counter t2"
    using metadata_page [OF o(3) env(1) _ 2(1)] sn_separate(3) by blast+
  have "unat (counter t') = unat ?base + ?n"
    using unat_add_of_nat [of ?base ?n] len o(4) 1(2) 2(2) 3(2) by simp
  then show ?thesis using 3(1) o(4) by (simp add: open_page_def)
qed

lemma commitSetupAction_page:
  assumes s: "commitSetupAction env p t = Inr t'" and env: "RWSet env = x" "KeyTranslator env = kt"
    and pg: "open_page t L V tx c used"
  shows "open_page t' L V tx c used \<and> counter t' = counter t"
proof -
  obtain raw k t1 k' where o: "Kt_SetupKey kt = Inr k" "on_rws TWrite (Ex_SetState x k raw) t = Inr t1"
      "Kt_SetupHashKey kt = Inr k'" "on_rws TWrite (Ex_SetState x k' (Sha256 env raw)) t1 = Inr t'"
    using s env by (auto simp: commitSetupAction_def sum_elims)
  have "\<not> is_sn k" "\<not> is_sn k'" using sn_separate(5,6) o(1,3) by blast+
  then have "untouched t t'" "SpentIDs t' = SpentIDs t"
    using on_rws_write [OF o(2)] on_rws_write [OF o(4)] by (auto simp: untouched_def same_ledger_def)
  then show ?thesis using open_page_untouched [OF pg] by (auto simp: untouched_def same_ledger_def)
qed

lemma Write_page:
  assumes s: "Translator_Write env a t = Inr t'" and env: "RWSet env = x" "KeyTranslator env = kt" "TxID env = tx"
    and u: "sn_unique kt V" "tx \<in> V" and bk: "book L V past spent" "tx \<notin> past"
    and pg: "open_page t L V tx (unat (counter t)) used"
    and V: "\<forall>i \<in> set (action_tokens a). fst i \<in> V" and len: "unat (counter t) + action_outputs a < 2 ^ 64"
  shows "open_page t' L V tx (unat (counter t')) (used @ action_tokens a) \<and>
    unat (counter t') = unat (counter t) + action_outputs a"
proof -
  obtain t1 where t1: "checkAction env a t = Inr t1" "commitAction env a t1 = Inr t'"
    using s by (auto simp: Translator_Write_def sum_elims)
  have L: "ledger (Rws t) = L" using pg by (simp add: open_page_def)
  have same: "open_page t1 L V tx (unat (counter t1)) used \<and> counter t1 = counter t"
    if "same_ledger t t1 \<and> SpentIDs t1 = SpentIDs t \<and> writes (Rws t1) = writes (Rws t)"
    using pg that by (auto simp: open_page_def same_ledger_def)
  show ?thesis
  proof (cases a)
    case (IssueAction ia)
    have c: "same_ledger t t1 \<and> SpentIDs t1 = SpentIDs t \<and> writes (Rws t1) = writes (Rws t)"
        "inputs_spendable L (writes (Rws t)) used V (Ia_Inputs ia)"
      using checkInputs_effect [of env "Ia_Inputs ia" t t1 V used] t1(1) env V L by (simp_all add: IssueAction)
    show ?thesis
      using commitIssueAction_page [of env ia t1 t', OF _ env u bk conjunct1 [OF same [OF c(1)]]] t1(2) c same len
      by (auto simp: IssueAction)
  next
    case (TransferAction ta)
    have c: "same_ledger t t1 \<and> SpentIDs t1 = SpentIDs t \<and> writes (Rws t1) = writes (Rws t)"
        "inputs_spendable L (writes (Rws t)) used V (Ta_Inputs ta)"
      using checkInputs_effect [of env "Ta_Inputs ta" t t1 V used] t1(1) env V L by (simp_all add: TransferAction)
    show ?thesis
      using commitTransferAction_page [of env ta t1 t', OF _ env u bk conjunct1 [OF same [OF c(1)]]] t1(2) c same len
      by (auto simp: TransferAction)
  next
    case (SetupAction p)
    then show ?thesis
      using commitSetupAction_page [of env p t t' L V tx "unat (counter t)" used] t1 env pg by simp
  next
    case OtherAction
    then show ?thesis using t1(1) by simp
  qed
qed

lemma actions_page:
  assumes "fold_sum (Translator_Write env) as t = Inr t'" and env: "RWSet env = x" "KeyTranslator env = kt" "TxID env = tx"
    and u: "sn_unique kt V" "tx \<in> V" and bk: "book L V past spent" "tx \<notin> past"
    and "open_page t L V tx (unat (counter t)) used"
    and "\<forall>i \<in> set (concat (map action_tokens as)). fst i \<in> V"
    and "unat (counter t) + sum_list (map action_outputs as) < 2 ^ 64"
  shows "open_page t' L V tx (unat (counter t')) (used @ concat (map action_tokens as))"
  using assms(1,9-11)
proof (induction as arbitrary: t used)
  case Nil
  then show ?case by simp
next
  case (Cons a as)
  then obtain t1 where t1: "Translator_Write env a t = Inr t1" "fold_sum (Translator_Write env) as t1 = Inr t'"
    by (auto simp: sum_elims)
  have 1: "open_page t1 L V tx (unat (counter t1)) (used @ action_tokens a)"
      "unat (counter t1) = unat (counter t) + action_outputs a"
    using Write_page [OF t1(1) env u bk Cons.prems(2)] Cons.prems(3,4) by auto
  show ?case using Cons.IH [OF t1(2) 1(1)] Cons.prems(3,4) 1(2) by (simp add: add.assoc)
qed

lemma writeRequest_page:
  assumes s: "writeRequest env as raw t = Inr t'" and env: "RWSet env = x" "KeyTranslator env = kt" "TxID env = tx"
    and u: "sn_unique kt V" "tx \<in> V" and bk: "book L V past spent" "tx \<notin> past"
    and pg: "open_page t L V tx (unat (counter t)) used"
    and V: "\<forall>i \<in> set (concat (map action_tokens as)). fst i \<in> V"
    and len: "unat (counter t) + sum_list (map action_outputs as) < 2 ^ 64"
  shows "\<exists>c. open_page t' L V tx c (used @ concat (map action_tokens as))"
proof -
  obtain t1 t2 kh k t3 where o: "fold_sum (Translator_Write env) as t = Inr t1"
      "on_rws TRead (Ex_StateMustExist x kh Latest) t1 = Inr t2"
      "Kt_TokenRequestKey kt tx = Inr k" "on_rws TRead (Ex_StateMustNotExist x k) t2 = Inr t3"
      "on_rws TWrite (Ex_SetState x k (Sha256 env raw)) t3 = Inr t'"
    using s env by (auto simp: writeRequest_def AddPublicParamsDependency_def CommitTokenRequest_def Let_def sum_elims)
  have "\<not> is_sn k" using sn_separate(4) o(3) by blast
  then have "untouched t1 t'" "SpentIDs t' = SpentIDs t1"
    using on_rws_must_exist [OF o(2)] on_rws_must_not_exist [OF o(4)] on_rws_write [OF o(5)]
    by (auto simp: untouched_def same_ledger_def)
  then show ?thesis
    using open_page_untouched [OF actions_page [OF o(1) env u bk pg V len], of t'] by auto
qed

lemma open_page_new: "ledger s = L \<Longrightarrow> writes s = (\<lambda>_. None) \<Longrightarrow> open_page (Translator_New s) L V tx 0 []"
  by (simp add: open_page_def Translator_New_def page_empty)

text \<open>The identifier of a transaction that went through was not used before.\<close>

definition is_req :: "string \<Rightarrow> bool" where
  "is_req k \<longleftrightarrow> (\<exists>i. Kt_TokenRequestKey kt i = Inr k)"

lemma req_separate:
  "is_req k \<Longrightarrow> Kt_InputSNKey kt j \<noteq> Inr k" "is_req k \<Longrightarrow> Kt_IssueActionMetadataKey kt j \<noteq> Inr k"
  "is_req k \<Longrightarrow> Kt_TransferActionMetadataKey kt j \<noteq> Inr k" "is_req k \<Longrightarrow> Kt_OutputSNKey kt i n out \<noteq> Inr k"
  "is_req k \<Longrightarrow> Kt_SetupKey kt \<noteq> Inr k" "is_req k \<Longrightarrow> Kt_SetupHashKey kt \<noteq> Inr k"
  "is_req k \<Longrightarrow> i \<notin> reserved_prefixes \<Longrightarrow> Kt_OutputKey kt i n \<noteq> Inr k"
  unfolding is_req_def
  using key_separation [of "KTokenRequest _" k "KInputSN j"] key_separation [of "KTokenRequest _" k "KIssueMetadata j"]
    key_separation [of "KTokenRequest _" k "KTransferMetadata j"] key_separation [of "KTokenRequest _" k "KOutputSN i n out"]
    key_separation [of "KTokenRequest _" k KSetup] key_separation [of "KTokenRequest _" k KSetupHash]
    key_separation [of "KTokenRequest _" k "KOutput i n"]
  by auto

definition req_free :: "string \<Rightarrow> (string \<Rightarrow> bytes) \<Rightarrow> 's tr_state \<Rightarrow> bool" where
  "req_free k L0 t \<longleftrightarrow> writes (Rws t) k = None \<and> ledger (Rws t) = L0"

lemma req_free_write:
  "on_rws e (Ex_SetState x k' v) t = Inr t' \<Longrightarrow> k' \<noteq> k \<Longrightarrow> req_free k L0 t \<Longrightarrow> req_free k L0 t'"
  "on_rws e (Ex_DeleteState x k') t = Inr t' \<Longrightarrow> k' \<noteq> k \<Longrightarrow> req_free k L0 t \<Longrightarrow> req_free k L0 t'"
  "on_rws e (Ex_StateMustExist x k' ver) t = Inr t' \<Longrightarrow> req_free k L0 t \<Longrightarrow> req_free k L0 t'"
  "on_rws e (Ex_StateMustNotExist x k') t = Inr t' \<Longrightarrow> req_free k L0 t \<Longrightarrow> req_free k L0 t'"
  by (auto simp: req_free_def same_ledger_def dest!: on_rws_write on_rws_delete on_rws_must_exist on_rws_must_not_exist)

lemma store_output_req:
  assumes "store_output env base g j out t = Inr t'" "RWSet env = x" "KeyTranslator env = kt"
    and "TxID env \<notin> reserved_prefixes" "is_req k" "req_free k L0 t"
  shows "req_free k L0 t'"
proof -
  obtain ok t1 where o: "Kt_OutputKey kt (TxID env) (base + of_nat j) = Inr ok"
      "on_rws TWrite (Ex_SetState x ok out) t = Inr t1"
      "t' = t1 \<or> (\<exists>sn. Kt_OutputSNKey kt (TxID env) (base + of_nat j) out = Inr sn \<and>
         on_rws TWrite (Ex_SetState x sn NotEmpty) t1 = Inr t')"
    using assms(1-3) by (auto simp: store_output_def sum_elims split: if_splits)
  have "ok \<noteq> k" using req_separate(7) [OF assms(5,4)] o(1) by blast
  then have 1: "req_free k L0 t1" using req_free_write(1) [OF o(2)] assms(6) by simp
  from o(3) show ?thesis
  proof (elim disjE exE conjE)
    fix sn
    assume sn: "Kt_OutputSNKey kt (TxID env) (base + of_nat j) out = Inr sn"
      "on_rws TWrite (Ex_SetState x sn NotEmpty) t1 = Inr t'"
    have "sn \<noteq> k" using req_separate(4) [OF assms(5)] sn(1) by auto
    then show ?thesis using req_free_write(1) [OF sn(2)] 1 by simp
  qed (use 1 in simp)
qed

lemma spend_input_req:
  assumes "spend_input env ser e t = Inr t'" "RWSet env = x" "KeyTranslator env = kt"
    and "\<forall>tid. snd e = Some tid \<longrightarrow> TxId tid \<notin> reserved_prefixes" "is_req k" "req_free k L0 t"
  shows "req_free k L0 t'"
proof -
  obtain tid sn out where "snd e = Some tid" "Kt_OutputSNKey kt (TxId tid) (Index tid) (ser ! fst e) = Inr sn"
      "Kt_OutputKey kt (TxId tid) (Index tid) = Inr out" "writes (Rws t') = (writes (Rws t))(sn \<mapsto> [], out \<mapsto> [])"
      "same_ledger t t'"
    using spend_input_effect [of env ser "fst e" "snd e" t t'] assms(1-3) by auto
  then show ?thesis
    using assms(4,6) req_separate(4,7) [OF assms(5)] by (auto simp: req_free_def same_ledger_def)
qed

lemma spendInputs_req:
  assumes s: "spendInputs env a t = Inr t'" and env: "RWSet env = x" "KeyTranslator env = kt"
    and V: "\<forall>i \<in> set (input_tokens a). fst i \<notin> reserved_prefixes" and k: "is_req k" "req_free k L0 t"
  shows "req_free k L0 t'"
proof -
  obtain ser t1 where o: "t1 = t \<or> fold_sum (spend_input env ser) (enumerate 0 (In_IDs a)) t = Inr t1"
      "fold_sum (spend_serial_number env) (In_SerialNumbers a) t1 = Inr t'"
    using s by (auto simp: spendInputs_def sum_elims split: if_splits)
  have V': "TxId tid \<notin> reserved_prefixes" if "e \<in> set (enumerate 0 (In_IDs a))" "snd e = Some tid" for e tid
  proof -
    have "Some tid \<in> set (In_IDs a)" using enumerate_elem [OF that(1)] that(2) by simp
    then show ?thesis using V by (force simp: input_tokens_def)
  qed
  have si: "req_free k L0 w'"
    if "e \<in> set (enumerate 0 (In_IDs a))" "req_free k L0 w" "spend_input env ser e w = Inr w'" for e w w'
    by (rule spend_input_req [OF that(3) env _ k(1) that(2)]) (use V' [OF that(1)] in simp)
  from o(1) have 1: "req_free k L0 t1"
  proof
    assume "fold_sum (spend_input env ser) (enumerate 0 (In_IDs a)) t = Inr t1"
    then show ?thesis using k(2)
      by (rule fold_sum_invariant [where P = "req_free k L0"]) (rule si)
  qed (use k in simp)
  have sn: "req_free k L0 w'" if s: "spend_serial_number env i w = Inr w'" "req_free k L0 w" for i w w'
  proof -
    obtain k' w1 where w: "Kt_InputSNKey kt i = Inr k'" "on_rws TWrite (Ex_SetState x k' NotEmpty) w = Inr w1"
        "appendSpentID i w1 = Inr w'"
      using s(1) by (auto simp: spend_serial_number_def sum_elims env)
    have "req_free k L0 w1" using req_free_write(1) [OF w(2)] req_separate(1) [OF k(1), of i] w(1) s(2) by auto
    then show ?thesis using w(3) by (auto simp: appendSpentID_def req_free_def split: if_splits)
  qed
  show ?thesis using o(2) 1 by (rule fold_sum_invariant [where P = "req_free k L0"]) (erule (1) sn)
qed

lemma metadata_req:
  assumes m: "fold_sum (store_metadata env mk) xs t = Inr t'" and env: "RWSet env = x"
    and mk: "\<And>key. mk key \<noteq> Inr k" and k: "req_free k L0 t"
  shows "req_free k L0 t'"
  using m k
proof (rule fold_sum_invariant [where P = "req_free k L0"])
  fix kv w w' assume w: "req_free k L0 w" "store_metadata env mk kv w = Inr w'"
  then obtain k' w1 where o: "mk (fst kv) = Inr k'" "on_rws (\<lambda>_. TMetadataOccupied (fst kv)) (Ex_StateMustNotExist x k') w = Inr w1"
      "on_rws TWrite (Ex_SetState x k' (snd kv)) w1 = Inr w'"
    using env by (auto simp: store_metadata_def sum_elims split: prod.splits)
  have "k' \<noteq> k" using mk [of "fst kv"] o(1) by auto
  then show "req_free k L0 w'" using req_free_write(1) [OF o(3)] req_free_write(4) [OF o(2) w(1)] by blast
qed

definition ids_proper :: "(string \<times> u64) list \<Rightarrow> bool" where
  "ids_proper toks \<longleftrightarrow> (\<forall>i \<in> set toks. fst i \<notin> reserved_prefixes)"

lemma commitIssueAction_req:
  assumes s: "commitIssueAction env a t = Inr t'" and env: "RWSet env = x" "KeyTranslator env = kt"
    and V: "TxID env \<notin> reserved_prefixes" "ids_proper (input_tokens (Ia_Inputs a))" and k: "is_req k" "req_free k L0 t"
  shows "req_free k L0 t'"
proof -
  obtain outs t1 t2 t3 where o:
      "fold_sum (\<lambda>(i, out). store_output env (counter t) (\<not> Ia_IsGraphHiding a) i out) (enumerate 0 outs) t = Inr t1"
      "spendInputs env (Ia_Inputs a) t1 = Inr t2"
      "fold_sum (store_metadata env (Kt_IssueActionMetadataKey kt)) (Ia_Metadata a) t2 = Inr t3"
      "t' = t3\<lparr>counter := counter t3 + of_nat (length outs)\<rparr>"
    using s env(2) by (auto simp: commitIssueAction_def Let_def sum_elims)
  have "req_free k L0 t1"
    using o(1) k(2) by (rule fold_sum_invariant [where P = "req_free k L0"])
      (auto intro: store_output_req [OF _ env V(1) k(1)])
  then have "req_free k L0 t2" using spendInputs_req [OF o(2) env _ k(1)] V(2) by (simp add: ids_proper_def)
  then have "req_free k L0 t3" using metadata_req [OF o(3) env(1)] req_separate(2) [OF k(1)] by blast
  then show ?thesis by (simp add: o(4) req_free_def)
qed

lemma commitTransferAction_req:
  assumes s: "commitTransferAction env a t = Inr t'" and env: "RWSet env = x" "KeyTranslator env = kt"
    and V: "TxID env \<notin> reserved_prefixes" "ids_proper (input_tokens (Ta_Inputs a))" and k: "is_req k" "req_free k L0 t"
  shows "req_free k L0 t'"
proof -
  obtain t1 t2 t3 where o:
      "fold_sum (store_transfer_output env (counter t) a) [0..<Ta_NumOutputs a] t = Inr t1"
      "spendInputs env (Ta_Inputs a) t1 = Inr t2"
      "fold_sum (store_metadata env (Kt_TransferActionMetadataKey kt)) (Ta_Metadata a) t2 = Inr t3"
      "t' = t3\<lparr>counter := counter t3 + of_nat (Ta_NumOutputs a)\<rparr>"
    using s env(2) by (auto simp: commitTransferAction_def Let_def sum_elims)
  have "req_free k L0 t1"
    using o(1) k(2) by (rule fold_sum_invariant [where P = "req_free k L0"])
      (auto simp: store_transfer_output_def sum_elims split: if_splits intro: store_output_req [OF _ env V(1) k(1)])
  then have "req_free k L0 t2" using spendInputs_req [OF o(2) env _ k(1)] V(2) by (simp add: ids_proper_def)
  then have "req_free k L0 t3" using metadata_req [OF o(3) env(1)] req_separate(3) [OF k(1)] by blast
  then show ?thesis by (simp add: o(4) req_free_def)
qed

lemma Write_req:
  assumes s: "Translator_Write env a t = Inr t'" and env: "RWSet env = x" "KeyTranslator env = kt"
    and V: "TxID env \<notin> reserved_prefixes" "ids_proper (action_tokens a)" and k: "is_req k" "req_free k L0 t"
  shows "req_free k L0 t'"
proof -
  obtain t1 where t1: "checkAction env a t = Inr t1" "commitAction env a t1 = Inr t'"
    using s by (auto simp: Translator_Write_def sum_elims)
  have chk: "req_free k L0 u" if "checkInputs env b t = Inr u" for b u
    using checkInputs_effect [OF that env, of UNIV] k(2) by (simp add: req_free_def same_ledger_def)
  show ?thesis
  proof (cases a)
    case (IssueAction ia)
    then show ?thesis using t1 chk commitIssueAction_req [OF _ env V(1) _ k(1)] V(2) by auto
  next
    case (TransferAction ta)
    then show ?thesis using t1 chk commitTransferAction_req [OF _ env V(1) _ k(1)] V(2) by auto
  next
    case (SetupAction p)
    then obtain raw k1 u1 k2 where o: "Kt_SetupKey kt = Inr k1" "on_rws TWrite (Ex_SetState x k1 raw) t = Inr u1"
        "Kt_SetupHashKey kt = Inr k2" "on_rws TWrite (Ex_SetState x k2 (Sha256 env raw)) u1 = Inr t'"
      using t1 env by (auto simp: commitSetupAction_def sum_elims)
    have "k1 \<noteq> k" "k2 \<noteq> k" using req_separate(5,6) [OF k(1)] o(1,3) by auto
    then show ?thesis using req_free_write(1) [OF o(2)] req_free_write(1) [OF o(4)] k(2) by simp
  next
    case OtherAction
    then show ?thesis using t1 by simp
  qed
qed

lemma writeRequest_requests:
  assumes s: "writeRequest env as raw t = Inr t'" and env: "RWSet env = x" "KeyTranslator env = kt"
    and V: "TxID env \<notin> reserved_prefixes" "ids_proper (concat (map action_tokens as))"
    and t: "writes (Rws t) = (\<lambda>_. None)"
  shows "\<exists>k. Kt_TokenRequestKey kt (TxID env) = Inr k \<and> ledger (Rws t') k = [] \<and> ledger (Rws t') = ledger (Rws t) \<and>
    (\<forall>k'. is_req k' \<longrightarrow> writes (Rws t') k' = (if k' = k then Some (Sha256 env raw) else None))"
proof -
  obtain t1 t2 kh k t3 where o: "fold_sum (Translator_Write env) as t = Inr t1"
      "on_rws TRead (Ex_StateMustExist x kh Latest) t1 = Inr t2"
      "Kt_TokenRequestKey kt (TxID env) = Inr k" "on_rws TRead (Ex_StateMustNotExist x k) t2 = Inr t3"
      "on_rws TWrite (Ex_SetState x k (Sha256 env raw)) t3 = Inr t'"
    using s env by (auto simp: writeRequest_def AddPublicParamsDependency_def CommitTokenRequest_def Let_def sum_elims)
  let ?L0 = "ledger (Rws t)"
  have free: "req_free k' ?L0 t1" if "is_req k'" for k'
    using o(1)
  proof (rule fold_sum_invariant [where P = "req_free k' ?L0"])
    show "req_free k' ?L0 t" by (simp add: req_free_def t)
    fix a w w' assume "a \<in> set as" "req_free k' ?L0 w" "Translator_Write env a w = Inr w'"
    then show "req_free k' ?L0 w'"
      using Write_req [OF _ env V(1) _ that] V(2) by (auto simp: ids_proper_def)
  qed
  have w: "writes (Rws t') = (writes (Rws t1))(k \<mapsto> Sha256 env raw)" "ledger (Rws t') = ledger (Rws t1)"
    using on_rws_must_exist [OF o(2)] on_rws_must_not_exist [OF o(4)] on_rws_write [OF o(5)]
    by (auto simp: same_ledger_def)
  have "is_req k" using o(3) by (auto simp: is_req_def)
  then have "ledger (Rws t') k = []" "ledger (Rws t') = ?L0"
    using on_rws_must_not_exist [OF o(4)] on_rws_must_exist [OF o(2)] free [of k] w(2)
    by (auto simp: req_free_def same_ledger_def)
  then show ?thesis using o(3) free by (auto simp: w(1) req_free_def)
qed

section \<open>Histories\<close>

definition history_ok :: "(string \<Rightarrow> bytes) \<Rightarrow> string set \<Rightarrow> ledger_tx list \<Rightarrow> bool" where
  "history_ok L V txs \<longleftrightarrow>
     book L V (Tx_ID ` set txs) (set (concat (map tx_tokens txs))) \<and>
     fst ` set (concat (map tx_tokens txs)) \<subseteq> Tx_ID ` set txs \<and>
     distinct (concat (map tx_tokens txs)) \<and> distinct (map Tx_ID txs) \<and>
     (\<forall>tx \<in> set txs. \<exists>k. Kt_TokenRequestKey kt (Tx_ID tx) = Inr k \<and> L k \<noteq> [])"

lemma history_step:
  assumes h: "history_ok L V txs" and u: "sn_unique kt V" and V: "tx_in V tx" and sha: "\<And>m. sha256 m \<noteq> []"
    and s: "ledger s = L" "writes s = (\<lambda>_. None)"
    and w: "writeRequest \<lparr>RWSet = x, KeyTranslator = kt, TxID = Tx_ID tx, Sha256 = sha256\<rparr>
       (Tx_Actions tx) (Tx_ToSign tx) (Translator_New s) = Inr t"
  shows "history_ok (commit_writes (writes (Rws t)) L) V (txs @ [tx])"
proof -
  let ?env = "\<lparr>RWSet = x, KeyTranslator = kt, TxID = Tx_ID tx, Sha256 = sha256\<rparr>"
  let ?L' = "commit_writes (writes (Rws t)) L" and ?past = "Tx_ID ` set txs" and ?spent = "set (concat (map tx_tokens txs))"
  have bk: "book L V ?past ?spent" and sp: "fst ` ?spent \<subseteq> ?past" using h by (simp_all add: history_ok_def)
  have new: "writes (Rws (Translator_New s)) = (\<lambda>_. None)" "counter (Translator_New s) = 0"
    using s by (simp_all add: Translator_New_def)
  have res: "Tx_ID tx \<notin> reserved_prefixes" "ids_proper (concat (map action_tokens (Tx_Actions tx)))"
    using V sn_unique_reserved [OF u] by (auto simp: tx_in_def tx_tokens_def ids_proper_def)
  obtain k where k: "Kt_TokenRequestKey kt (Tx_ID tx) = Inr k" "L k = []"
      "\<And>k'. is_req k' \<Longrightarrow> writes (Rws t) k' = (if k' = k then Some (sha256 (Tx_ToSign tx)) else None)"
    using writeRequest_requests [OF w _ _ _ _ new(1)] res s(1) by (auto simp: Translator_New_def)
  have pg0: "open_page (Translator_New s) L V (Tx_ID tx) (unat (counter (Translator_New s))) []"
    using open_page_new [OF s] by (simp add: new(2))
  have fresh: "Tx_ID tx \<notin> ?past" using h k(1,2) by (auto simp: history_ok_def)
  obtain c where pg: "page L (writes (Rws t)) V (Tx_ID tx) c (tx_tokens tx)"
    using writeRequest_page [OF w _ _ _ u _ bk fresh pg0] V new(2) by (auto simp: tx_in_def tx_tokens_def open_page_def)
  have pu: "page_used L (writes (Rws t)) V (Tx_ID tx) c (tx_tokens tx)" and dist: "distinct (tx_tokens tx)"
    using pg by (simp_all add: page_def)
  have used: "fst i \<in> insert (Tx_ID tx) ?past \<and> i \<notin> ?spent" if i: "i \<in> set (tx_tokens tx)" for i
  proof (cases "fst i = Tx_ID tx")
    case True
    then have "fst i \<notin> ?past" using fresh by simp
    then show ?thesis using True sp by blast
  next
    case False
    have "(fst i, snd i) \<in> set (tx_tokens tx)" using i by simp
    from page_usedD(1,3) [OF pu this] False obtain out k' where
      "fst i \<in> V" "Kt_OutputSNKey kt (fst i) (snd i) out = Inr k'" "L k' \<noteq> []" by blast
    from bookD(1,2) [OF bk this] show ?thesis by simp
  qed
  have "book ?L' V (insert (Tx_ID tx) ?past) (?spent \<union> set (tx_tokens tx))"
    by (rule book_commit [OF pg bk fresh sp])
  moreover have "distinct (concat (map tx_tokens txs) @ tx_tokens tx)"
    using h dist used unfolding history_ok_def distinct_append by blast
  moreover have "\<exists>k. Kt_TokenRequestKey kt (Tx_ID tx') = Inr k \<and> ?L' k \<noteq> []" if tx': "tx' \<in> set (txs @ [tx])" for tx'
  proof -
    obtain k' where k': "Kt_TokenRequestKey kt (Tx_ID tx') = Inr k'" "k' = k \<or> L k' \<noteq> []"
      using tx' h k(1) by (auto simp: history_ok_def)
    have "is_req k'" using k'(1) by (auto simp: is_req_def)
    from k(3) [OF this] have "?L' k' \<noteq> []" using k'(2) sha by (auto simp: commit_writes_def)
    then show ?thesis using k'(1) by blast
  qed
  moreover have "fst ` (?spent \<union> set (tx_tokens tx)) \<subseteq> insert (Tx_ID tx) ?past"
    using sp used by blast
  moreover have "distinct (map Tx_ID (txs @ [tx]))"
    using h fresh by (simp add: history_ok_def)
  ultimately show ?thesis
    unfolding history_ok_def by simp
qed

lemma history_run:
  assumes "ledger_run x ledger writes kt sha256 L0 txs L" and "sn_unique kt V" and "\<And>m. sha256 m \<noteq> []"
    and "\<And>k. is_sn k \<Longrightarrow> L0 k = []" and "\<forall>tx \<in> set txs. tx_in V tx"
  shows "history_ok L V txs"
  using assms(1,4,5)
proof (induction rule: ledger_run.induct)
  case (run_empty L)
  then show ?case using is_snI by (auto simp: history_ok_def book_def)
next
  case (run_step L txs L' s tx t)
  show ?case
    by (rule history_step [OF _ assms(2) _ assms(3) run_step.hyps(2-4)]) (use run_step in auto)
qed

lemma history_distinct:
  assumes "ledger_run x ledger writes kt sha256 L0 txs L" and "sn_unique kt V" and "\<And>m. sha256 m \<noteq> []"
    and "\<And>i n out k. Kt_OutputSNKey kt i n out = Inr k \<Longrightarrow> L0 k = []" and "\<forall>tx \<in> set txs. tx_in V tx"
  shows "distinct (concat (map tx_tokens txs)) \<and> distinct (map Tx_ID txs)"
  using history_run [OF assms(1,2,3) _ assms(5)] assms(4) by (auto simp: history_ok_def is_sn_def)

end

lemma sn_unique_plain:
  assumes "inj sha256" "3 < len"
  shows "sn_unique (keys_Translator sha256) {i. length i = len}"
proof -
  have "{i. length i = len} \<inter> reserved_prefixes = {}"
    using assms(2) by (auto simp: reserved_prefixes_def)
  moreover have "i = i' \<and> n = n' \<and> out = out'"
    if k: "length i = length i'" "CreateOutputSNKey sha256 i n out = Inr k" "CreateOutputSNKey sha256 i' n' out' = Inr k"
    for i i' n n' out out' k
  proof -
    have "sn_preimage i n out = sn_preimage i' n' out'"
      using k(2,3) CreateOutputSNKey_eq_iff [of sha256 i n out i' n' out'] assms(1) by (simp add: inj_eq)
    then show ?thesis by (simp only: sn_preimage_inject [OF k(1)])
  qed
  ultimately show ?thesis by (simp add: sn_unique_def keys_Translator_def) blast
qed

interpretation chaincode_run: translator_run "RWSetWrapper (rwsWrapper shim_stub) namespace" Sim_committed Sim_pending
  "keys_Translator sha256" for namespace sha256
  by unfold_locales

section \<open>An example history\<close>

text \<open>An issue followed by a transfer of the issued token, on the chaincode stub.\<close>

definition example_inputs :: "token_id option list \<Rightarrow> bytes list \<Rightarrow> action_inputs" where
  "example_inputs ids sers = \<lparr>In_IDs = ids, In_Serialized = Inr sers, In_SerialNumbers = []\<rparr>"

definition example_issue :: ledger_tx where
  "example_issue = \<lparr>Tx_ID = ''tx01'', Tx_Actions = [IssueAction
     \<lparr>Ia_Inputs = example_inputs [] [], Ia_SerializedOutputs = Inr [[7]], Ia_IsGraphHiding = False, Ia_Metadata = []\<rparr>],
     Tx_ToSign = [1]\<rparr>"

definition example_transfer :: ledger_tx where
  "example_transfer = \<lparr>Tx_ID = ''tx02'', Tx_Actions = [TransferAction
     \<lparr>Ta_Inputs = example_inputs [Some \<lparr>TxId = ''tx01'', Index = 0\<rparr>] [[7]], Ta_NumOutputs = 1,
      Ta_IsRedeemAt = (\<lambda>_. False), Ta_SerializeOutputAt = (\<lambda>_. Inr [7]), Ta_IsGraphHiding = False, Ta_Metadata = []\<rparr>],
     Tx_ToSign = [2]\<rparr>"

definition example_sha :: "bytes \<Rightarrow> bytes" where "example_sha m = 1 # m"

definition example_env :: "string \<Rightarrow> sim tr_env" where
  "example_env tx = \<lparr>RWSet = RWSetWrapper (rwsWrapper shim_stub) [], KeyTranslator = keys_Translator example_sha,
     TxID = tx, Sha256 = example_sha\<rparr>"

definition example_genesis :: "string \<Rightarrow> bytes" where
  "example_genesis k = (if CreateSetupHashKey = Inr k then [1] else [])"


lemma example_valid: "validateCompositeKeyAttribute ''tx01'' = Inr ()" "validateCompositeKeyAttribute ''tx02'' = Inr ()"
  by (rule validate_ascii, simp)+

lemma example_keys:
  "CreateSetupHashKey = Inr (nul # ''seh'' @ [nul])"
  "validateCompositeKeyAttribute i = Inr () \<Longrightarrow> CreateTokenRequestKey i = Inr (nul # ''tr'' @ nul # i @ [nul])"
  "validateCompositeKeyAttribute i = Inr () \<Longrightarrow>
   CreateOutputKey i n = Inr (nul # i @ nul # int_text 10 (uint n) @ [nul])"
  using validate_prefixes
  by (simp_all add: CreateSetupHashKey_def CreateTokenRequestKey_def CreateOutputKey_def createCompositeKey_Inr validate_decimal key_prefix_defs)

definition example_sn :: "string \<Rightarrow> u64 \<Rightarrow> bytes \<Rightarrow> string" where
  "example_sn i n out = nul # ''osn'' @ nul # hex_encode (example_sha (sn_preimage i n out)) @ [nul]"

lemma example_sn_value: "CreateOutputSNKey example_sha i n out = Inr (example_sn i n out)"
  by (simp add: CreateOutputSNKey_value example_sn_def key_prefix_defs)

lemmas example_eval = writeRequest_def Translator_Write_def checkInputs_def commitIssueAction_def commitTransferAction_def
  store_transfer_output_def check_input_def spend_input_def deref_def index_at_def appendSpentID_def store_output_def
  spendInputs_def on_rws_def AddPublicParamsDependency_def CommitTokenRequest_def
  example_env_def example_inputs_def example_issue_def example_transfer_def keys_Translator_def RWSetWrapper_defs
  rwsWrapper_def shim_stub_def Translator_New_def example_keys example_valid example_sn_value

lemma example_sn_nonempty: "example_sn i n out \<noteq> []"
  by (simp add: example_sn_def)

definition example_W1 :: "string \<Rightarrow> bytes option" where
  "example_W1 = [nul # ''tx01'' @ nul # int_text 10 0 @ [nul] \<mapsto> [7], example_sn ''tx01'' 0 [7] \<mapsto> NotEmpty,
     nul # ''tr'' @ nul # ''tx01'' @ [nul] \<mapsto> [1, 1]]"

definition example_ledger :: "string \<Rightarrow> bytes" where
  "example_ledger = commit_writes example_W1 example_genesis"

lemma example_run1:
  "writeRequest (example_env ''tx01'') (Tx_Actions example_issue) (Tx_ToSign example_issue)
     (Translator_New \<lparr>Sim_committed = example_genesis, Sim_pending = (\<lambda>_. None)\<rparr>) =
   Inr \<lparr>Rws = \<lparr>Sim_committed = example_genesis, Sim_pending = example_W1\<rparr>, SpentIDs = [], counter = 1\<rparr>"
  by (simp add: example_eval example_genesis_def example_sha_def example_sn_nonempty Let_def example_W1_def)

lemma example_ledger_reads:
  "example_ledger (nul # ''seh'' @ [nul]) = [1]"
  "example_ledger (example_sn ''tx01'' 0 [7]) = NotEmpty"
  "example_ledger (nul # ''tr'' @ nul # ''tx02'' @ [nul]) = []"
  by (simp_all add: example_ledger_def example_W1_def commit_writes_def example_sn_def example_genesis_def example_keys)

lemma example_run2:
  "\<exists>t. writeRequest (example_env ''tx02'') (Tx_Actions example_transfer) (Tx_ToSign example_transfer)
     (Translator_New \<lparr>Sim_committed = example_ledger, Sim_pending = (\<lambda>_. None)\<rparr>) = Inr t"
  using example_ledger_reads
  by (simp add: example_eval example_sn_nonempty Let_def NotEmpty_def)

lemma example_history:
  "\<exists>L. ledger_run (RWSetWrapper (rwsWrapper shim_stub) []) Sim_committed Sim_pending (keys_Translator example_sha) example_sha
     example_genesis [example_issue, example_transfer] L"
proof -
  have env: "example_env tx = \<lparr>RWSet = RWSetWrapper (rwsWrapper shim_stub) [], KeyTranslator = keys_Translator example_sha,
      TxID = tx, Sha256 = example_sha\<rparr>" for tx
    by (simp add: example_env_def)
  have id1: "Tx_ID example_issue = ''tx01''" by (simp add: example_issue_def)
  have 1: "ledger_run (RWSetWrapper (rwsWrapper shim_stub) []) Sim_committed Sim_pending (keys_Translator example_sha) example_sha
     example_genesis ([] @ [example_issue]) example_ledger"
    using run_step [where tx = example_issue and ledger = Sim_committed and writes = Sim_pending and L' = example_genesis,
        OF run_empty _ _ example_run1 [unfolded env, folded id1]]
    by (simp add: example_ledger_def)
  obtain t where t: "writeRequest (example_env ''tx02'') (Tx_Actions example_transfer) (Tx_ToSign example_transfer)
     (Translator_New \<lparr>Sim_committed = example_ledger, Sim_pending = (\<lambda>_. None)\<rparr>) = Inr t"
    using example_run2 by blast
  have id: "Tx_ID example_transfer = ''tx02''" by (simp add: example_transfer_def)
  from run_step [OF 1 _ _ t [unfolded env, folded id]] show ?thesis by auto
qed

section \<open>Properties\<close>



text \<open>A translator over the chaincode stub, and a graph-hiding transfer of one serial number.\<close>

definition stub_env :: "string \<Rightarrow> (bytes \<Rightarrow> bytes) \<Rightarrow> string \<Rightarrow> sim tr_env" where
  "stub_env ns sha256 tx = \<lparr>RWSet = RWSetWrapper (rwsWrapper shim_stub) ns, KeyTranslator = keys_Translator sha256,
     TxID = tx, Sha256 = sha256\<rparr>"

definition serial_transfer :: "string \<Rightarrow> transfer_view" where
  "serial_transfer sn =
     \<lparr>Ta_Inputs = \<lparr>In_IDs = [], In_Serialized = Inr [], In_SerialNumbers = [sn]\<rparr>, Ta_NumOutputs = 0,
      Ta_IsRedeemAt = (\<lambda>_. False), Ta_SerializeOutputAt = (\<lambda>_. Inl []), Ta_IsGraphHiding = True, Ta_Metadata = []\<rparr>"

lemma CreateInputSNKey_nonempty: "CreateInputSNKey i = Inr k \<Longrightarrow> k \<noteq> []"
  by (auto simp: CreateInputSNKey_def createCompositeKey_Inr)

text \<open>
  C24: A spent serial number is accepted again. \<open>spendInputs\<close> records a serial number under the key of
  \<open>CreateInputSNKey\<close>, and \<open>AreTokensSpent\<close> looks there, but \<open>checkInputs\<close> asks for the absence of the
  serial number itself. On the chaincode, a ledger that reports the serial number as spent still
  lets a graph-hiding transfer with that serial number through.
\<close>

theorem spent_serial_number_accepted:
  assumes "CreateInputSNKey sn = Inr k" and "Sim_committed s k \<noteq> []" and "Sim_committed s sn = []"
  shows "(\<exists>t. AreTokensSpent (stub_env ns sha256 tx) [sn] True (Translator_New s) = Inr ([True], t)) \<and>
    (\<exists>t. Translator_Write (stub_env ns sha256 tx) (TransferAction (serial_transfer sn)) (Translator_New s) = Inr t)"
  using assms CreateInputSNKey_nonempty [OF assms(1)]
  by (simp add: stub_env_def serial_transfer_def AreTokensSpent_def read_rws_def Translator_Write_def checkInputs_def
      commitTransferAction_def spendInputs_def spend_serial_number_def on_rws_def appendSpentID_def
      keys_Translator_def RWSetWrapper_defs rwsWrapper_def shim_stub_def Translator_New_def)

definition example_serials :: sim where
  "example_serials =
     \<lparr>Sim_committed = (\<lambda>k. if CreateInputSNKey ''s1'' = Inr k then NotEmpty else []), Sim_pending = (\<lambda>_. None)\<rparr>"

theorem spent_serial_number_accepted_witness:
  "\<exists>t. Translator_Write (stub_env [] (\<lambda>m. m) ''tx'') (TransferAction (serial_transfer ''s1''))
     (Translator_New example_serials) = Inr t"
proof -
  have "validateCompositeKeyAttribute ''s1'' = Inr ()" by (rule validate_ascii) simp
  then have k: "CreateInputSNKey ''s1'' = Inr (nul # ''sn'' @ nul # ''s1'' @ [nul])"
    using validate_prefixes(5) by (simp add: CreateInputSNKey_def createCompositeKey_Inr key_prefix_defs)
  show ?thesis
    using spent_serial_number_accepted [OF k, of example_serials] by (simp add: example_serials_def k NotEmpty_def)
qed

end
