(* ===== verification/Limits.thy ===== *)
theory Limits
  imports Quantity
begin

text \<open>
  Resource limits (\<open>src/token/driver/limits.go\<close>), their sources (the chaincode's environment
  variables, \<open>src/token/services/network/fabric/tcc/limits.go\<close> and \<open>querylimits.go\<close>, and the
  configuration service, \<open>src/token/services/config/limits.go\<close>), and the nesting budget of
  composite identities (\<open>src/token/driver/identity_nesting.go\<close>).

  A Go \<open>int\<close> is an integer; no limit is ever computed with, so it does not overflow. The part of a
  \<open>context.Context\<close> the nesting code reads is the budget stored under its private key: \<open>None\<close>
  is a context without one (a \<open>nil\<close> context included).

  The lemmas show that no source can switch a limit off, and that exactly the configured number of
  levels can be entered.
\<close>

section \<open>Standard library: \<open>strconv.Atoi\<close>\<close>

definition is_digit :: "char \<Rightarrow> bool" where
  "is_digit c = (digit_val c < 10)"

definition decimal_value :: "string \<Rightarrow> int" where
  "decimal_value ds = foldl (\<lambda>a c. 10 * a + int (digit_val c)) 0 ds"

text \<open>An optional sign and at least one digit, within the range of a 64-bit \<open>int\<close>.\<close>

definition Atoi :: "string \<Rightarrow> int option" where
  "Atoi s =
     (let neg = (case s of [] \<Rightarrow> False | c # _ \<Rightarrow> c = CHR ''-'');
          ds = (case s of [] \<Rightarrow> [] | c # cs \<Rightarrow> if c = CHR ''-'' \<or> c = CHR ''+'' then cs else s);
          v = (if neg then - decimal_value ds else decimal_value ds)
      in if ds = [] \<or> \<not> list_all is_digit ds then None
         else if v < - (2 ^ 63) \<or> 2 ^ 63 \<le> v then None
         else Some v)"

section \<open>Resource limits\<close>

record ResourceLimits =
  MaxRequestBytes :: int
  MaxActions :: int
  MaxSignatures :: int
  MaxSignatureBytes :: int
  MaxActionBytes :: int
  MaxInputs :: int
  MaxOutputs :: int
  MaxMetadataEntries :: int
  MaxMetadataKeyBytes :: int
  MaxMetadataValueBytes :: int
  MaxProofBytes :: int
  MaxIdentityDepth :: int
  MaxIdentityComponents :: int

definition DefaultResourceLimits :: ResourceLimits where
  "DefaultResourceLimits =
     \<lparr>MaxRequestBytes = 262144, MaxActions = 256, MaxSignatures = 4096,
      MaxSignatureBytes = 4096, MaxActionBytes = 262144,
      MaxInputs = 256, MaxOutputs = 256, MaxMetadataEntries = 64,
      MaxMetadataKeyBytes = 256, MaxMetadataValueBytes = 4096,
      MaxProofBytes = 131072, MaxIdentityDepth = 5, MaxIdentityComponents = 16\<rparr>"

text \<open>The Go zero value of the structure.\<close>

definition zero_ResourceLimits :: ResourceLimits where
  "zero_ResourceLimits =
     \<lparr>MaxRequestBytes = 0, MaxActions = 0, MaxSignatures = 0, MaxSignatureBytes = 0,
      MaxActionBytes = 0, MaxInputs = 0, MaxOutputs = 0, MaxMetadataEntries = 0,
      MaxMetadataKeyBytes = 0, MaxMetadataValueBytes = 0, MaxProofBytes = 0,
      MaxIdentityDepth = 0, MaxIdentityComponents = 0\<rparr>"

text \<open>The repeated step \<open>if l.F <= 0 { l.F = d.F }\<close>.\<close>

definition or_default :: "int \<Rightarrow> int \<Rightarrow> int" where
  "or_default v d = (if v \<le> 0 then d else v)"

definition WithDefaults :: "ResourceLimits \<Rightarrow> ResourceLimits" where
  "WithDefaults l =
     (let d = DefaultResourceLimits in
      \<lparr>MaxRequestBytes = or_default (MaxRequestBytes l) (MaxRequestBytes d),
       MaxActions = or_default (MaxActions l) (MaxActions d),
       MaxSignatures = or_default (MaxSignatures l) (MaxSignatures d),
       MaxSignatureBytes = or_default (MaxSignatureBytes l) (MaxSignatureBytes d),
       MaxActionBytes = or_default (MaxActionBytes l) (MaxActionBytes d),
       MaxInputs = or_default (MaxInputs l) (MaxInputs d),
       MaxOutputs = or_default (MaxOutputs l) (MaxOutputs d),
       MaxMetadataEntries = or_default (MaxMetadataEntries l) (MaxMetadataEntries d),
       MaxMetadataKeyBytes = or_default (MaxMetadataKeyBytes l) (MaxMetadataKeyBytes d),
       MaxMetadataValueBytes = or_default (MaxMetadataValueBytes l) (MaxMetadataValueBytes d),
       MaxProofBytes = or_default (MaxProofBytes l) (MaxProofBytes d),
       MaxIdentityDepth = or_default (MaxIdentityDepth l) (MaxIdentityDepth d),
       MaxIdentityComponents = or_default (MaxIdentityComponents l) (MaxIdentityComponents d)\<rparr>)"

section \<open>Limits from the environment\<close>

datatype env_error = InvalidEnvValue string string

text \<open>
  The loop both providers share: an unset variable is skipped, a value that is not an \<open>int\<close> is an
  error, any other value is stored through the field's pointer \<open>dst\<close>.
\<close>

definition read_env ::
  "(string \<Rightarrow> string) \<Rightarrow> string \<times> ((int \<Rightarrow> int) \<Rightarrow> 'l \<Rightarrow> 'l) \<Rightarrow> 'l \<Rightarrow> env_error + 'l" where
  "read_env getenv f l =
     (case f of (env, dst) \<Rightarrow>
        let raw = getenv env in
        if raw = '''' then Inr l
        else case Atoi raw of
               None \<Rightarrow> Inl (InvalidEnvValue raw env)
             | Some v \<Rightarrow> Inr (dst (\<lambda>_. v) l))"

definition resource_env_fields ::
  "(string \<times> ((int \<Rightarrow> int) \<Rightarrow> ResourceLimits \<Rightarrow> ResourceLimits)) list" where
  "resource_env_fields =
     [(''TOKEN_VALIDATION_MAX_REQUEST_BYTES'', MaxRequestBytes_update),
      (''TOKEN_VALIDATION_MAX_ACTIONS'', MaxActions_update),
      (''TOKEN_VALIDATION_MAX_SIGNATURES'', MaxSignatures_update),
      (''TOKEN_VALIDATION_MAX_SIGNATURE_BYTES'', MaxSignatureBytes_update),
      (''TOKEN_VALIDATION_MAX_ACTION_BYTES'', MaxActionBytes_update),
      (''TOKEN_VALIDATION_MAX_INPUTS'', MaxInputs_update),
      (''TOKEN_VALIDATION_MAX_OUTPUTS'', MaxOutputs_update),
      (''TOKEN_VALIDATION_MAX_METADATA_ENTRIES'', MaxMetadataEntries_update),
      (''TOKEN_VALIDATION_MAX_METADATA_KEY_BYTES'', MaxMetadataKeyBytes_update),
      (''TOKEN_VALIDATION_MAX_METADATA_VALUE_BYTES'', MaxMetadataValueBytes_update),
      (''TOKEN_VALIDATION_MAX_PROOF_BYTES'', MaxProofBytes_update),
      (''TOKEN_VALIDATION_MAX_IDENTITY_DEPTH'', MaxIdentityDepth_update),
      (''TOKEN_VALIDATION_MAX_IDENTITY_COMPONENTS'', MaxIdentityComponents_update)]"

text \<open>The provider's \<open>Getenv\<close> field may be unset; \<open>os.Getenv\<close> is the process environment.\<close>

definition EnvResourceLimitsProvider_ResourceLimits ::
  "(string \<Rightarrow> string) option \<Rightarrow> (string \<Rightarrow> string) \<Rightarrow> env_error + ResourceLimits" where
  "EnvResourceLimitsProvider_ResourceLimits p os_Getenv =
     (let getenv = (case p of None \<Rightarrow> os_Getenv | Some g \<Rightarrow> g) in
      bind_sum (fold_sum (read_env getenv) resource_env_fields zero_ResourceLimits)
        (\<lambda>l. Inr (WithDefaults l)))"

section \<open>Limits from the configuration\<close>

record resourceLimitsConfig =
  cfg_MaxRequestBytes :: int
  cfg_MaxActions :: int
  cfg_MaxSignatures :: int
  cfg_MaxSignatureBytes :: int
  cfg_MaxActionBytes :: int
  cfg_MaxInputs :: int
  cfg_MaxOutputs :: int
  cfg_MaxMetadataEntries :: int
  cfg_MaxMetadataKeyBytes :: int
  cfg_MaxMetadataValueBytes :: int
  cfg_MaxProofBytes :: int
  cfg_MaxIdentityDepth :: int
  cfg_MaxIdentityComponents :: int

definition zero_resourceLimitsConfig :: resourceLimitsConfig where
  "zero_resourceLimitsConfig =
     \<lparr>cfg_MaxRequestBytes = 0, cfg_MaxActions = 0, cfg_MaxSignatures = 0,
      cfg_MaxSignatureBytes = 0, cfg_MaxActionBytes = 0, cfg_MaxInputs = 0, cfg_MaxOutputs = 0,
      cfg_MaxMetadataEntries = 0, cfg_MaxMetadataKeyBytes = 0, cfg_MaxMetadataValueBytes = 0,
      cfg_MaxProofBytes = 0, cfg_MaxIdentityDepth = 0, cfg_MaxIdentityComponents = 0\<rparr>"

definition toResourceLimits :: "resourceLimitsConfig \<Rightarrow> ResourceLimits" where
  "toResourceLimits c =
     \<lparr>MaxRequestBytes = cfg_MaxRequestBytes c, MaxActions = cfg_MaxActions c,
      MaxSignatures = cfg_MaxSignatures c, MaxSignatureBytes = cfg_MaxSignatureBytes c,
      MaxActionBytes = cfg_MaxActionBytes c, MaxInputs = cfg_MaxInputs c,
      MaxOutputs = cfg_MaxOutputs c, MaxMetadataEntries = cfg_MaxMetadataEntries c,
      MaxMetadataKeyBytes = cfg_MaxMetadataKeyBytes c,
      MaxMetadataValueBytes = cfg_MaxMetadataValueBytes c,
      MaxProofBytes = cfg_MaxProofBytes c, MaxIdentityDepth = cfg_MaxIdentityDepth c,
      MaxIdentityComponents = cfg_MaxIdentityComponents c\<rparr>"

text \<open>
  The configuration service is a parameter: whether a key is set, and the decoding of a key over a
  structure.
\<close>

record 'e config_provider =
  IsSet :: "string \<Rightarrow> bool"
  UnmarshalKey :: "string \<Rightarrow> resourceLimitsConfig \<Rightarrow> 'e + resourceLimitsConfig"

datatype 'e config_error = InvalidConfiguration string 'e

definition ResourceLimitsProvider_ResourceLimits ::
  "'e config_provider \<Rightarrow> string \<Rightarrow> 'e config_error + ResourceLimits" where
  "ResourceLimitsProvider_ResourceLimits cp ResourceLimitsPath =
     bind_sum
       (if IsSet cp ResourceLimitsPath
        then wrap_err (InvalidConfiguration ResourceLimitsPath)
               (UnmarshalKey cp ResourceLimitsPath zero_resourceLimitsConfig)
        else Inr zero_resourceLimitsConfig)
       (\<lambda>c. Inr (WithDefaults (toResourceLimits c)))"

section \<open>Query limits of the chaincode\<close>

record QueryLimits =
  MaxQueryRequestBytes :: int
  MaxQueryItems :: int

datatype query_limit_error =
    ErrQueryRequestTooLarge int
  | ErrTooManyQueryItems int int

definition DefaultQueryLimits :: QueryLimits where
  "DefaultQueryLimits = \<lparr>MaxQueryRequestBytes = 1048576, MaxQueryItems = 4096\<rparr>"

definition QueryLimits_WithDefaults :: "QueryLimits \<Rightarrow> QueryLimits" where
  "QueryLimits_WithDefaults l =
     (let d = DefaultQueryLimits in
      \<lparr>MaxQueryRequestBytes = or_default (MaxQueryRequestBytes l) (MaxQueryRequestBytes d),
       MaxQueryItems = or_default (MaxQueryItems l) (MaxQueryItems d)\<rparr>)"

definition CheckRequestSize :: "QueryLimits \<Rightarrow> bytes \<Rightarrow> query_limit_error + unit" where
  "CheckRequestSize l raw =
     (if int (length raw) > MaxQueryRequestBytes l
      then Inl (ErrQueryRequestTooLarge (MaxQueryRequestBytes l)) else Inr ())"

definition CheckItemCount :: "QueryLimits \<Rightarrow> int \<Rightarrow> query_limit_error + unit" where
  "CheckItemCount l n =
     (if n > MaxQueryItems l then Inl (ErrTooManyQueryItems n (MaxQueryItems l)) else Inr ())"

definition query_env_fields ::
  "(string \<times> ((int \<Rightarrow> int) \<Rightarrow> QueryLimits \<Rightarrow> QueryLimits)) list" where
  "query_env_fields =
     [(''TOKEN_QUERY_MAX_REQUEST_BYTES'', MaxQueryRequestBytes_update),
      (''TOKEN_QUERY_MAX_ITEMS'', MaxQueryItems_update)]"

definition EnvQueryLimitsProvider_QueryLimits ::
  "(string \<Rightarrow> string) option \<Rightarrow> (string \<Rightarrow> string) \<Rightarrow> env_error + QueryLimits" where
  "EnvQueryLimitsProvider_QueryLimits p os_Getenv =
     (let getenv = (case p of None \<Rightarrow> os_Getenv | Some g \<Rightarrow> g) in
      bind_sum (fold_sum (read_env getenv) query_env_fields
                  \<lparr>MaxQueryRequestBytes = 0, MaxQueryItems = 0\<rparr>)
        (\<lambda>l. Inr (QueryLimits_WithDefaults l)))"

section \<open>The nesting budget of composite identities\<close>

record identityNesting =
  nesting_depth :: int
  maxDepth :: int
  maxComponents :: int

type_synonym nesting_ctx = "identityNesting option"

datatype nesting_error = ErrIdentityNestingTooDeep int

definition WithIdentityNestingLimits :: "nesting_ctx \<Rightarrow> int \<Rightarrow> int \<Rightarrow> nesting_ctx" where
  "WithIdentityNestingLimits ctx md mc =
     (let d = DefaultResourceLimits in
      Some \<lparr>nesting_depth = 0, maxDepth = or_default md (MaxIdentityDepth d),
            maxComponents = or_default mc (MaxIdentityComponents d)\<rparr>)"

definition nestingFrom :: "nesting_ctx \<Rightarrow> identityNesting" where
  "nestingFrom ctx =
     (case ctx of
        Some n \<Rightarrow> n
      | None \<Rightarrow> (let d = DefaultResourceLimits in
          \<lparr>nesting_depth = 0, maxDepth = MaxIdentityDepth d,
           maxComponents = MaxIdentityComponents d\<rparr>))"

definition EnterCompositeIdentity :: "nesting_ctx \<Rightarrow> nesting_error + nesting_ctx" where
  "EnterCompositeIdentity ctx =
     (let n = nestingFrom ctx in
      if nesting_depth n \<ge> maxDepth n then Inl (ErrIdentityNestingTooDeep (maxDepth n))
      else Inr (Some (n\<lparr>nesting_depth := nesting_depth n + 1\<rparr>)))"

definition MaxIdentityComponentsFrom :: "nesting_ctx \<Rightarrow> int" where
  "MaxIdentityComponentsFrom ctx = maxComponents (nestingFrom ctx)"

text \<open>A descent of \<open>k\<close> levels, each entered with the context the level above returned.\<close>

fun descend :: "nat \<Rightarrow> nesting_ctx \<Rightarrow> nesting_error + nesting_ctx" where
  "descend 0 ctx = Inr ctx"
| "descend (Suc k) ctx = bind_sum (EnterCompositeIdentity ctx) (descend k)"

section \<open>No source switches a limit off\<close>

text \<open>What a variable contributes to a field: its value, or nothing when it is unset or no number.\<close>

definition env_value :: "(string \<Rightarrow> string) \<Rightarrow> string \<Rightarrow> int \<Rightarrow> int" where
  "env_value getenv env old = (case Atoi (getenv env) of None \<Rightarrow> old | Some v \<Rightarrow> v)"

text \<open>Every limit with the variable that sets it.\<close>

definition resource_limits_by_env :: "(string \<times> (ResourceLimits \<Rightarrow> int)) list" where
  "resource_limits_by_env =
     zip (map fst resource_env_fields)
       [MaxRequestBytes, MaxActions, MaxSignatures, MaxSignatureBytes, MaxActionBytes, MaxInputs,
        MaxOutputs, MaxMetadataEntries, MaxMetadataKeyBytes, MaxMetadataValueBytes, MaxProofBytes,
        MaxIdentityDepth, MaxIdentityComponents]"

lemma Atoi_Nil [simp]: "Atoi [] = None"
  by (simp add: Atoi_def)

lemma or_default_pos: "0 < d \<Longrightarrow> 0 < or_default v d"
  by (simp add: or_default_def)

lemma read_env_value:
  assumes "dst (\<lambda>x. x) l = l"
  shows "read_env getenv (env, dst) l =
    (if getenv env \<noteq> [] \<and> Atoi (getenv env) = None then Inl (InvalidEnvValue (getenv env) env)
     else Inr (dst (env_value getenv env) l))"
proof -
  have "env_value getenv env = (\<lambda>x. x)" if "Atoi (getenv env) = None"
    using that by (simp add: env_value_def fun_eq_iff)
  moreover have "env_value getenv env = (\<lambda>_. v)" if "Atoi (getenv env) = Some v" for v
    using that by (simp add: env_value_def fun_eq_iff)
  ultimately show ?thesis
    using assms by (auto simp: read_env_def Let_def split: option.split)
qed

lemma read_env_loop:
  assumes "\<And>f l. f \<in> set fs \<Longrightarrow> snd f (\<lambda>x. x) l = l"
  shows "fold_sum (read_env getenv) fs l =
    (case find (\<lambda>f. getenv (fst f) \<noteq> [] \<and> Atoi (getenv (fst f)) = None) fs of
       Some f \<Rightarrow> Inl (InvalidEnvValue (getenv (fst f)) (fst f))
     | None \<Rightarrow> Inr (fold (\<lambda>f. snd f (env_value getenv (fst f))) fs l))"
  using assms
proof (induction fs arbitrary: l)
  case (Cons f fs)
  have "snd f (\<lambda>x. x) l = l" using Cons.prems by simp
  then show ?case
    using Cons read_env_value [of "snd f" l getenv "fst f"] by (simp split: option.split)
qed simp

lemma resource_env_fields_lens:
  "f \<in> set resource_env_fields \<Longrightarrow> snd f (\<lambda>x. x) l = l"
  by (auto simp: resource_env_fields_def)

text \<open>
  C30: The environment provider returns limits exactly when every variable that is set holds a
  64-bit decimal number. Every limit is then positive: the variable's value when that is positive,
  the default otherwise. No unset, zero or negative variable disables a bound.
\<close>

theorem EnvResourceLimits_never_disabled:
  "(case EnvResourceLimitsProvider_ResourceLimits (Some getenv) os_Getenv of
      Inl _ \<Rightarrow> (\<exists>e \<in> fst ` set resource_limits_by_env. getenv e \<noteq> [] \<and> Atoi (getenv e) = None)
    | Inr l \<Rightarrow> (\<forall>e \<in> fst ` set resource_limits_by_env. getenv e = [] \<or> Atoi (getenv e) \<noteq> None) \<and>
        (\<forall>(e, limit) \<in> set resource_limits_by_env. 0 < limit l \<and>
           limit l = (case Atoi (getenv e) of
                        Some v \<Rightarrow> if 0 < v then v else limit DefaultResourceLimits
                      | None \<Rightarrow> limit DefaultResourceLimits)))"
proof -
  let ?bad = "\<lambda>e. getenv e \<noteq> [] \<and> Atoi (getenv e) = None"
  have names: "fst ` set resource_limits_by_env = set (map fst resource_env_fields)"
    by (simp add: resource_limits_by_env_def resource_env_fields_def)
  have val: "0 < (case Atoi (getenv e) of Some v \<Rightarrow> if 0 < v then v else d | None \<Rightarrow> d) \<and>
      or_default (env_value getenv e 0) d =
        (case Atoi (getenv e) of Some v \<Rightarrow> if 0 < v then v else d | None \<Rightarrow> d)" if "0 < d" for e d
    using that by (simp add: or_default_def env_value_def split: option.split)
  show ?thesis
  proof (cases "find (\<lambda>f. ?bad (fst f)) resource_env_fields")
    case None
    then have ok: "\<forall>e \<in> fst ` set resource_limits_by_env. \<not> ?bad e"
      unfolding names by (auto simp: find_None_iff)
    define l where "l = WithDefaults (fold (\<lambda>f. snd f (env_value getenv (fst f)))
      resource_env_fields zero_ResourceLimits)"
    have run: "EnvResourceLimitsProvider_ResourceLimits (Some getenv) os_Getenv = Inr l"
      by (simp add: EnvResourceLimitsProvider_ResourceLimits_def None l_def
          read_env_loop [OF resource_env_fields_lens])
    have "\<forall>(e, limit) \<in> set resource_limits_by_env. 0 < limit DefaultResourceLimits \<and>
        limit l = or_default (env_value getenv e 0) (limit DefaultResourceLimits)"
      by (simp add: l_def resource_env_fields_def WithDefaults_def zero_ResourceLimits_def
          resource_limits_by_env_def DefaultResourceLimits_def)
    then have "\<forall>(e, limit) \<in> set resource_limits_by_env. 0 < limit l \<and>
        limit l = (case Atoi (getenv e) of
          Some v \<Rightarrow> if 0 < v then v else limit DefaultResourceLimits
        | None \<Rightarrow> limit DefaultResourceLimits)"
      using val by fastforce
    then show ?thesis using run ok by auto
  next
    case (Some f)
    then have "f \<in> set resource_env_fields" "?bad (fst f)"
      by (auto simp: find_Some_iff)
    then show ?thesis
      using Some unfolding names
      by (auto simp: EnvResourceLimitsProvider_ResourceLimits_def
          read_env_loop [OF resource_env_fields_lens])
  qed
qed

theorem EnvResourceLimits_never_disabled_witness:
  "(let getenv = (\<lambda>e. if e = ''TOKEN_VALIDATION_MAX_ACTIONS'' then ''12''
                      else if e = ''TOKEN_VALIDATION_MAX_INPUTS'' then ''-3'' else []) in
    \<exists>l. EnvResourceLimitsProvider_ResourceLimits (Some getenv) (\<lambda>_. []) = Inr l \<and>
      MaxActions l = 12 \<and> MaxInputs l = 256 \<and> MaxOutputs l = 256)"
proof -
  define getenv where "getenv = (\<lambda>e. if e = ''TOKEN_VALIDATION_MAX_ACTIONS'' then ''12''
                      else if e = ''TOKEN_VALIDATION_MAX_INPUTS'' then ''-3'' else [])"
  have a: "Atoi ''12'' = Some 12" "Atoi ''-3'' = Some (- 3)"
    by (simp_all add: Atoi_def decimal_value_def is_digit_def digit_val_def)
  have e: "\<not> (\<exists>e \<in> fst ` set resource_limits_by_env. getenv e \<noteq> [] \<and> Atoi (getenv e) = None)"
    by (simp add: getenv_def a)
  then obtain l where l: "EnvResourceLimitsProvider_ResourceLimits (Some getenv) (\<lambda>_. []) = Inr l"
    using EnvResourceLimits_never_disabled [of getenv "\<lambda>_. []"] by (cases
      "EnvResourceLimitsProvider_ResourceLimits (Some getenv) (\<lambda>_. [])") auto
  then have "MaxActions l = 12 \<and> MaxInputs l = 256 \<and> MaxOutputs l = 256"
    using EnvResourceLimits_never_disabled [of getenv "\<lambda>_. []"]
    by (simp add: resource_limits_by_env_def resource_env_fields_def getenv_def a
        DefaultResourceLimits_def)
  then show ?thesis using l by (simp add: getenv_def)
qed

section \<open>Exactly the configured number of levels\<close>

lemma EnterCompositeIdentity_level:
  "EnterCompositeIdentity (Some n) =
     (if nesting_depth n < maxDepth n then Inr (Some (n\<lparr>nesting_depth := nesting_depth n + 1\<rparr>))
      else Inl (ErrIdentityNestingTooDeep (maxDepth n)))"
  by (simp add: EnterCompositeIdentity_def nestingFrom_def Let_def)

lemma descend_levels:
  assumes "0 \<le> maxDepth n - nesting_depth n"
  shows "descend k (Some n) =
     (if int k \<le> maxDepth n - nesting_depth n
      then Inr (Some (n\<lparr>nesting_depth := nesting_depth n + int k\<rparr>))
      else Inl (ErrIdentityNestingTooDeep (maxDepth n)))"
  using assms
proof (induction k arbitrary: n)
  case (Suc k)
  show ?case
  proof (cases "nesting_depth n < maxDepth n")
    case True
    then show ?thesis
      using Suc.IH [of "n\<lparr>nesting_depth := nesting_depth n + 1\<rparr>"]
      by (simp add: EnterCompositeIdentity_level algebra_simps)
  next
    case False
    then show ?thesis by (simp add: EnterCompositeIdentity_level)
  qed
qed simp

text \<open>
  C31: From a context seeded with any limits a descent through nested composite identities gets
  exactly as many levels as the depth limit in force (the configured one, or the default 5 when
  that is not positive) and fails at the next one; an unseeded context has the default limit; and
  the component limit stays the same all the way down.
\<close>

theorem nesting_depth_exact:
  "(is_ok (descend k (WithIdentityNestingLimits ctx md mc)) \<longleftrightarrow>
      int k \<le> (if md \<le> 0 then 5 else md)) \<and>
   (is_ok (descend k None) \<longleftrightarrow> k \<le> 5) \<and>
   (\<forall>ctx'. descend k (WithIdentityNestingLimits ctx md mc) = Inr ctx' \<longrightarrow>
      MaxIdentityComponentsFrom ctx' = (if mc \<le> 0 then 16 else mc))"
proof (intro conjI allI impI)
  let ?n = "\<lparr>nesting_depth = 0, maxDepth = or_default md 5, maxComponents = or_default mc 16\<rparr>"
  have seed: "WithIdentityNestingLimits ctx md mc = Some ?n"
    by (simp add: WithIdentityNestingLimits_def DefaultResourceLimits_def)
  have dep: "0 \<le> maxDepth ?n - nesting_depth ?n" by (simp add: or_default_def)
  show "is_ok (descend k (WithIdentityNestingLimits ctx md mc)) \<longleftrightarrow>
      int k \<le> (if md \<le> 0 then 5 else md)"
    using descend_levels [OF dep, of k] by (simp add: seed or_default_def)
  show "MaxIdentityComponentsFrom ctx' = (if mc \<le> 0 then 16 else mc)"
    if "descend k (WithIdentityNestingLimits ctx md mc) = Inr ctx'" for ctx'
    using that descend_levels [OF dep, of k]
    by (auto simp: seed or_default_def MaxIdentityComponentsFrom_def nestingFrom_def split: if_splits)
  show "is_ok (descend k None) \<longleftrightarrow> k \<le> 5"
  proof (cases k)
    case (Suc j)
    let ?m = "\<lparr>nesting_depth = 1, maxDepth = 5, maxComponents = 16\<rparr>"
    have "EnterCompositeIdentity None = Inr (Some ?m)"
      by (simp add: EnterCompositeIdentity_def nestingFrom_def DefaultResourceLimits_def)
    then show ?thesis using descend_levels [of ?m j] Suc by simp
  qed simp
qed

theorem nesting_depth_exact_witness:
  "\<not> is_ok (descend 3 (WithIdentityNestingLimits None 2 0)) \<and>
   descend 2 (WithIdentityNestingLimits None 2 0) =
     Inr (Some \<lparr>nesting_depth = 2, maxDepth = 2, maxComponents = 16\<rparr>) \<and>
   MaxIdentityComponentsFrom (Some \<lparr>nesting_depth = 2, maxDepth = 2, maxComponents = 16\<rparr>) = 16"
proof -
  have run: "descend 2 (WithIdentityNestingLimits None 2 0) =
      Inr (Some \<lparr>nesting_depth = 2, maxDepth = 2, maxComponents = 16\<rparr>)"
    by (simp add: numeral_2_eq_2 WithIdentityNestingLimits_def EnterCompositeIdentity_def
        nestingFrom_def or_default_def DefaultResourceLimits_def)
  show ?thesis
    using nesting_depth_exact [of 3 None 2 0] nesting_depth_exact [of 2 None 2 0] run by simp
qed

end
