(* ===== verification/Request.thy ===== *)
theory Request
  imports Identity_Codec Token
begin

text \<open>
  Token requests (\<open>src/token/driver/request.go\<close>): the request and its signatures, their
  conversion to and from protobuf messages (\<open>src/token/driver/protos-go/v1/request/request.pb.go\<close>,
  with the slice helpers of \<open>src/token/services/utils/protos/protos.go\<close>), the structural
  validation, and the message that signers sign (\<open>src/token/driver/asn1_fast.go\<close>).

  A slice of pointers is a list of options. An \<open>Identity\<close> field is an optional byte string, because
  the code tells \<open>nil\<close> from empty there; other byte fields are only measured and copied, and
  \<open>nil\<close> is the empty list. A \<open>oneof\<close> of a message is a datatype. \<open>proto.Marshal\<close> and
  \<open>proto.Unmarshal\<close> are parameters of the definitions that call them, \<open>None\<close> being an error.
  The error \<open>NilDereference\<close> stands for the run-time panic of reading a field of a \<open>nil\<close>
  pointer. A decoding method takes the receiver it fills as an argument. The messages wrapped
  around an error on its way up are dropped.

  The lemmas show that decoding accepts well-formed requests only and inverts encoding, and that
  the message to sign determines the anchor and the actions.
\<close>

section \<open>Messages\<close>

type_synonym identity = "bytes option"

type_synonym ActionType = u32

definition ACTION_TYPE_UNSPECIFIED :: ActionType where "ACTION_TYPE_UNSPECIFIED = 0"
definition ACTION_TYPE_ISSUE :: ActionType where "ACTION_TYPE_ISSUE = 1"
definition ACTION_TYPE_TRANSFER :: ActionType where "ACTION_TYPE_TRANSFER = 2"

lemmas action_type_defs = ACTION_TYPE_UNSPECIFIED_def ACTION_TYPE_ISSUE_def ACTION_TYPE_TRANSFER_def

record pb_TokenID =
  pbid_TxId :: string
  pbid_Index :: u64

record pb_Identity =
  pbi_Raw :: identity

record pb_TypedAction =
  pbt_Type :: ActionType
  pbt_Raw :: bytes

datatype pb_Action_oneof =
    Action_TypedAction "pb_TypedAction option"
  | Action_HashedAction "bytes option"

record pb_Action =
  pba_Action :: "pb_Action_oneof option"

record pb_Signature =
  pbs_Raw :: bytes

record pb_ActionSignature =
  pbas_ActionId :: u32
  pbas_Signature :: "pb_Signature option"

record pb_AuditorSignature =
  pbau_Identity :: "pb_Identity option"
  pbau_Signature :: "pb_Signature option"

datatype pb_RequestSignature_oneof =
    RequestSignature_ActionSignature "pb_ActionSignature option"
  | RequestSignature_AuditorSignature "pb_AuditorSignature option"

record pb_RequestSignature =
  pbrs_Signature :: "pb_RequestSignature_oneof option"

record pb_TokenRequest =
  pbtr_Version :: u32
  pbtr_Actions :: "pb_Action option list"
  pbtr_Signatures :: "pb_RequestSignature option list"

definition GetTypedAction :: "pb_Action \<Rightarrow> pb_TypedAction option" where
  "GetTypedAction x = (case pba_Action x of Some (Action_TypedAction a) \<Rightarrow> a | _ \<Rightarrow> None)"

definition GetActionSignature :: "pb_RequestSignature \<Rightarrow> pb_ActionSignature option" where
  "GetActionSignature x =
     (case pbrs_Signature x of Some (RequestSignature_ActionSignature s) \<Rightarrow> s | _ \<Rightarrow> None)"

definition GetAuditorSignature :: "pb_RequestSignature \<Rightarrow> pb_AuditorSignature option" where
  "GetAuditorSignature x =
     (case pbrs_Signature x of Some (RequestSignature_AuditorSignature s) \<Rightarrow> s | _ \<Rightarrow> None)"

section \<open>Conversion of slices\<close>

definition ToProtosSlice ::
  "('s \<Rightarrow> 'e + 't) \<Rightarrow> 's option list \<Rightarrow> 'e + 't option list" where
  "ToProtosSlice ToProtos s =
     map_sum_list (\<lambda>x. case x of
        None \<Rightarrow> Inr None
      | Some x \<Rightarrow> bind_sum (ToProtos x) (\<lambda>t. Inr (Some t))) s"

datatype 'e slice_error =
    MismatchedLengths nat nat
  | NilDestination
  | ElementError 'e

definition FromProtosSlice ::
  "('s \<Rightarrow> 't \<Rightarrow> 'e + 's) \<Rightarrow> 't option list \<Rightarrow> 's option list \<Rightarrow> 'e slice_error + 's option list" where
  "FromProtosSlice FromProtos t s =
     (if length t \<noteq> length s then Inl (MismatchedLengths (length s) (length t))
      else map_sum_list (\<lambda>(x, m). case m of
             None \<Rightarrow> Inr None
           | Some m \<Rightarrow>
               (case x of None \<Rightarrow> Inl NilDestination
                | Some x \<Rightarrow> bind_sum (wrap_err ElementError (FromProtos x m)) (\<lambda>y. Inr (Some y))))
             (zip s t))"

definition GenericSliceOfPointers :: "'a \<Rightarrow> nat \<Rightarrow> 'a option list" where
  "GenericSliceOfPointers zero n = replicate n (Some zero)"

section \<open>Signatures\<close>

datatype req_error =
    ErrAnchorEmpty
  | ErrAnchorTooLarge
  | ErrUnsupportedVersion u32
  | NilRequestSignature
  | BothSignatures
  | NoSignature
  | SignatureTypeNotRecognized
  | NilActionFound
  | OnlyTypedAction
  | ActionTypeUnspecified
  | UnknownActionType ActionType
  | NilSignatureFound
  | NilActionSignature
  | NilAuditorSignature
  | ActionIsNil nat
  | ActionEmptyRaw nat
  | SignatureIsNil nat
  | ActionSignatureEmpty nat
  | AuditorSignatureEmpty nat
  | SignatureNeither nat
  | MarshalFailed
  | UnmarshalFailed
  | NilDereference

record ActionSignature =
  as_ActionID :: u32
  as_Signature :: bytes

record AuditorSignature =
  au_Identity :: identity
  au_Signature :: bytes

record RequestSignature =
  rs_Action :: "ActionSignature option"
  rs_Auditor :: "AuditorSignature option"

definition ActionSignature_ToProtos :: "ActionSignature \<Rightarrow> pb_ActionSignature" where
  "ActionSignature_ToProtos r =
     \<lparr>pbas_ActionId = as_ActionID r, pbas_Signature = Some \<lparr>pbs_Raw = as_Signature r\<rparr>\<rparr>"

definition ActionSignature_FromProtos ::
  "ActionSignature \<Rightarrow> pb_ActionSignature \<Rightarrow> ActionSignature" where
  "ActionSignature_FromProtos r m =
     (let r = r\<lparr>as_ActionID := pbas_ActionId m\<rparr> in
      case pbas_Signature m of Some s \<Rightarrow> r\<lparr>as_Signature := pbs_Raw s\<rparr> | None \<Rightarrow> r)"

definition AuditorSignature_ToProtos :: "AuditorSignature \<Rightarrow> pb_AuditorSignature" where
  "AuditorSignature_ToProtos r =
     \<lparr>pbau_Identity = Some \<lparr>pbi_Raw = au_Identity r\<rparr>,
      pbau_Signature = Some \<lparr>pbs_Raw = au_Signature r\<rparr>\<rparr>"

definition AuditorSignature_FromProtos ::
  "AuditorSignature \<Rightarrow> pb_AuditorSignature \<Rightarrow> AuditorSignature" where
  "AuditorSignature_FromProtos r m =
     (let r = (case pbau_Identity m of Some i \<Rightarrow> r\<lparr>au_Identity := pbi_Raw i\<rparr> | None \<Rightarrow> r) in
      case pbau_Signature m of Some s \<Rightarrow> r\<lparr>au_Signature := pbs_Raw s\<rparr> | None \<Rightarrow> r)"

definition RequestSignature_ToProtos ::
  "RequestSignature option \<Rightarrow> req_error + pb_RequestSignature" where
  "RequestSignature_ToProtos r =
     (case r of None \<Rightarrow> Inl NilRequestSignature
      | Some r \<Rightarrow>
          (case (rs_Action r, rs_Auditor r) of
             (Some _, Some _) \<Rightarrow> Inl BothSignatures
           | (Some a, None) \<Rightarrow>
               Inr \<lparr>pbrs_Signature =
                      Some (RequestSignature_ActionSignature (Some (ActionSignature_ToProtos a)))\<rparr>
           | (None, Some a) \<Rightarrow>
               Inr \<lparr>pbrs_Signature =
                      Some (RequestSignature_AuditorSignature (Some (AuditorSignature_ToProtos a)))\<rparr>
           | (None, None) \<Rightarrow> Inl NoSignature))"

definition RequestSignature_FromProtos ::
  "RequestSignature \<Rightarrow> pb_RequestSignature option \<Rightarrow> req_error + RequestSignature" where
  "RequestSignature_FromProtos r m =
     (case m of None \<Rightarrow> Inl NilRequestSignature
      | Some m \<Rightarrow>
          (case GetActionSignature m of
             Some s \<Rightarrow> Inr (r\<lparr>rs_Action := Some (ActionSignature_FromProtos
                                 \<lparr>as_ActionID = 0, as_Signature = []\<rparr> s)\<rparr>)
           | None \<Rightarrow>
               (case GetAuditorSignature m of
                  Some s \<Rightarrow> Inr (r\<lparr>rs_Auditor := Some (AuditorSignature_FromProtos
                                      \<lparr>au_Identity = None, au_Signature = []\<rparr> s)\<rparr>)
                | None \<Rightarrow> Inl SignatureTypeNotRecognized)))"

section \<open>Requests\<close>

record TypedAction =
  ta_Type :: ActionType
  ta_Raw :: bytes

record TokenRequest =
  tr_Version :: u32
  tr_Actions :: "TypedAction option list"
  tr_Signatures :: "RequestSignature option list"

definition zero_TokenRequest :: TokenRequest where
  "zero_TokenRequest = \<lparr>tr_Version = 0, tr_Actions = [], tr_Signatures = []\<rparr>"

definition ProtocolV1 :: u32 where "ProtocolV1 = 1"

definition MaxAnchorSize :: nat where "MaxAnchorSize = 128"

text \<open>The loops that pick the actions of one type; reading \<open>action.Type\<close> of \<open>nil\<close> panics.\<close>

definition raws_of_type :: "ActionType \<Rightarrow> TokenRequest \<Rightarrow> req_error + bytes list" where
  "raws_of_type ty r =
     fold_sum (\<lambda>action res. case action of
         None \<Rightarrow> Inl NilDereference
       | Some a \<Rightarrow> Inr (if ta_Type a = ty then res @ [ta_Raw a] else res)) (tr_Actions r) []"

definition count_of_type :: "ActionType \<Rightarrow> TokenRequest \<Rightarrow> req_error + nat" where
  "count_of_type ty r =
     fold_sum (\<lambda>action n. case action of
         None \<Rightarrow> Inl NilDereference
       | Some a \<Rightarrow> Inr (if ta_Type a = ty then n + 1 else n)) (tr_Actions r) 0"

definition GetIssues :: "TokenRequest \<Rightarrow> req_error + bytes list" where
  "GetIssues r = raws_of_type ACTION_TYPE_ISSUE r"

definition GetTransfers :: "TokenRequest \<Rightarrow> req_error + bytes list" where
  "GetTransfers r = raws_of_type ACTION_TYPE_TRANSFER r"

definition NumIssues :: "TokenRequest \<Rightarrow> req_error + nat" where
  "NumIssues r = count_of_type ACTION_TYPE_ISSUE r"

definition NumTransfers :: "TokenRequest \<Rightarrow> req_error + nat" where
  "NumTransfers r = count_of_type ACTION_TYPE_TRANSFER r"

definition TypedAction_ToProtos :: "TypedAction option \<Rightarrow> req_error + pb_Action option" where
  "TypedAction_ToProtos action =
     (case action of None \<Rightarrow> Inl NilActionFound
      | Some a \<Rightarrow> Inr (Some \<lparr>pba_Action = Some (Action_TypedAction
                     (Some \<lparr>pbt_Type = ta_Type a, pbt_Raw = ta_Raw a\<rparr>))\<rparr>))"

definition TokenRequest_ToProtos :: "TokenRequest \<Rightarrow> req_error + pb_TokenRequest" where
  "TokenRequest_ToProtos r =
     bind_sum (map_sum_list TypedAction_ToProtos (tr_Actions r)) (\<lambda>actions.
     bind_sum (ToProtosSlice (\<lambda>s. RequestSignature_ToProtos (Some s)) (tr_Signatures r)) (\<lambda>signatures.
       Inr \<lparr>pbtr_Version = (if tr_Version r = 0 then ProtocolV1 else tr_Version r),
            pbtr_Actions = actions, pbtr_Signatures = signatures\<rparr>))"

text \<open>The body of the action loop of \<open>FromProtos\<close>.\<close>

definition TypedAction_FromProtos :: "pb_Action option \<Rightarrow> req_error + TypedAction option" where
  "TypedAction_FromProtos action =
     (case action of None \<Rightarrow> Inl NilActionFound
      | Some action \<Rightarrow>
          (case GetTypedAction action of
             None \<Rightarrow> Inl OnlyTypedAction
           | Some t \<Rightarrow>
               if pbt_Type t = ACTION_TYPE_UNSPECIFIED then Inl ActionTypeUnspecified
               else if pbt_Type t = ACTION_TYPE_ISSUE \<or> pbt_Type t = ACTION_TYPE_TRANSFER
                 then Inr (Some \<lparr>ta_Type = pbt_Type t, ta_Raw = pbt_Raw t\<rparr>)
               else Inl (UnknownActionType (pbt_Type t))))"

text \<open>The body of the signature loop of \<open>FromProtos\<close>.\<close>

definition read_signature :: "pb_RequestSignature option \<Rightarrow> req_error + RequestSignature option" where
  "read_signature signature =
     (case signature of None \<Rightarrow> Inl NilSignatureFound
      | Some _ \<Rightarrow>
          bind_sum (RequestSignature_FromProtos \<lparr>rs_Action = None, rs_Auditor = None\<rparr> signature) (\<lambda>rs.
            if (case rs_Action rs of Some a \<Rightarrow> as_Signature a = [] | None \<Rightarrow> False)
              then Inl NilActionSignature
            else if (case rs_Auditor rs of Some a \<Rightarrow> au_Signature a = [] | None \<Rightarrow> False)
              then Inl NilAuditorSignature
            else Inr (Some rs)))"

definition validate_action :: "nat \<times> TypedAction option \<Rightarrow> req_error + unit" where
  "validate_action ia =
     (case ia of
        (i, None) \<Rightarrow> Inl (ActionIsNil i)
      | (i, Some a) \<Rightarrow> if ta_Raw a = [] then Inl (ActionEmptyRaw i) else Inr ())"

definition validate_signature :: "nat \<times> RequestSignature option \<Rightarrow> req_error + unit" where
  "validate_signature is =
     (case is of
        (i, None) \<Rightarrow> Inl (SignatureIsNil i)
      | (i, Some s) \<Rightarrow>
          (case (rs_Action s, rs_Auditor s) of
             (Some a, _) \<Rightarrow> if as_Signature a = [] then Inl (ActionSignatureEmpty i) else Inr ()
           | (None, Some a) \<Rightarrow> if au_Signature a = [] then Inl (AuditorSignatureEmpty i) else Inr ()
           | (None, None) \<Rightarrow> Inl (SignatureNeither i)))"

definition TokenRequest_Validate :: "TokenRequest \<Rightarrow> req_error + unit" where
  "TokenRequest_Validate r =
     bind_sum (fold_sum (\<lambda>ia _. validate_action ia) (enumerate 0 (tr_Actions r)) ()) (\<lambda>_.
       fold_sum (\<lambda>is _. validate_signature is) (enumerate 0 (tr_Signatures r)) ())"

text \<open>Decoded signatures are appended to those the receiver already has.\<close>

definition TokenRequest_FromProtos ::
  "TokenRequest \<Rightarrow> pb_TokenRequest \<Rightarrow> req_error + TokenRequest" where
  "TokenRequest_FromProtos r m =
     (if pbtr_Version m \<noteq> ProtocolV1 then Inl (ErrUnsupportedVersion (pbtr_Version m))
      else bind_sum (map_sum_list TypedAction_FromProtos (pbtr_Actions m)) (\<lambda>actions.
        bind_sum (map_sum_list read_signature (pbtr_Signatures m)) (\<lambda>signatures.
          let r' = \<lparr>tr_Version = pbtr_Version m, tr_Actions = actions,
                    tr_Signatures = tr_Signatures r @ signatures\<rparr> in
          bind_sum (TokenRequest_Validate r') (\<lambda>_. Inr r'))))"

definition TokenRequest_Bytes ::
  "(pb_TokenRequest \<Rightarrow> bytes option) \<Rightarrow> TokenRequest \<Rightarrow> req_error + bytes" where
  "TokenRequest_Bytes marshal r =
     bind_sum (TokenRequest_ToProtos r) (\<lambda>m.
       case marshal m of None \<Rightarrow> Inl MarshalFailed | Some raw \<Rightarrow> Inr raw)"

definition TokenRequest_FromBytes ::
  "(bytes \<Rightarrow> pb_TokenRequest option) \<Rightarrow> TokenRequest \<Rightarrow> bytes \<Rightarrow> req_error + TokenRequest" where
  "TokenRequest_FromBytes unmarshal r raw =
     (case unmarshal raw of None \<Rightarrow> Inl UnmarshalFailed | Some m \<Rightarrow> TokenRequest_FromProtos r m)"

section \<open>The message to sign\<close>

definition encodedLength :: "nat \<Rightarrow> nat" where
  "encodedLength l =
     (if l < 128 then 1 else if l < 256 then 2 else if l < 65536 then 3
      else if l < 16777216 then 4 else 5)"

text \<open>\<open>binary.BigEndian.PutUint32\<close>.\<close>

definition PutUint32_be :: "u32 \<Rightarrow> bytes" where
  "PutUint32_be v = [ucast (drop_bit 24 v), ucast (drop_bit 16 v), ucast (drop_bit 8 v), ucast v]"

definition appendLength :: "bytes \<Rightarrow> nat \<Rightarrow> bytes" where
  "appendLength buf l =
     (if l < 128 then buf @ [of_nat l]
      else if l < 256 then buf @ [0x81, of_nat l]
      else if l < 65536 then buf @ [0x82, of_nat (l div 256), of_nat l]
      else if l < 16777216 then buf @ [0x83, of_nat (l div 65536), of_nat (l div 256), of_nat l]
      else buf @ [0x84] @ PutUint32_be (of_nat l))"

definition fastMarshalSignatureMessageV1 :: "bytes \<Rightarrow> bytes \<Rightarrow> bytes" where
  "fastMarshalSignatureMessageV1 request anchor =
     (let requestLen = length request; anchorLen = length anchor;
          contentLen = 1 + encodedLength requestLen + requestLen + 1 + encodedLength anchorLen + anchorLen;
          result = [0x30];
          result = appendLength result contentLen;
          result = result @ [0x04];
          result = appendLength result requestLen;
          result = result @ request;
          result = result @ [0x04];
          result = appendLength result anchorLen
      in result @ anchor)"

text \<open>The length of the content of one action's sequence, as both loops compute it.\<close>

definition actionContentLen :: "TypedAction \<Rightarrow> nat" where
  "actionContentLen a = 3 + (1 + encodedLength (length (ta_Raw a)) + length (ta_Raw a))"

definition actionTypeInt :: "ActionType \<Rightarrow> byte" where
  "actionTypeInt ty = (if ty = 1 then 0 else if ty = 2 then 1 else 0)"

definition append_action :: "bytes \<Rightarrow> TypedAction \<Rightarrow> bytes" where
  "append_action result a =
     (let dataLen = length (ta_Raw a);
          result = result @ [0x30];
          result = appendLength result (actionContentLen a);
          result = result @ [0x02, 0x01, actionTypeInt (ta_Type a)];
          result = result @ [0x04];
          result = appendLength result dataLen
      in result @ ta_Raw a)"

definition fastMarshalTokenRequestForSigning :: "TypedAction option list \<Rightarrow> req_error + bytes" where
  "fastMarshalTokenRequestForSigning actions =
     bind_sum (fold_sum (\<lambda>action n. case action of
          None \<Rightarrow> Inl NilDereference
        | Some a \<Rightarrow> Inr (n + (1 + encodedLength (actionContentLen a) + actionContentLen a))) actions 0)
       (\<lambda>actionsContentLen.
          let actionsTotal = 1 + encodedLength actionsContentLen + actionsContentLen;
              result = [0x30];
              result = appendLength result actionsTotal;
              result = result @ [0x30];
              result = appendLength result actionsContentLen
          in fold_sum (\<lambda>action result. case action of
                None \<Rightarrow> Inl NilDereference
              | Some a \<Rightarrow> Inr (append_action result a)) actions result)"

definition MarshalToMessageToSign :: "TokenRequest \<Rightarrow> bytes \<Rightarrow> req_error + bytes" where
  "MarshalToMessageToSign r anchor =
     (if anchor = [] then Inl ErrAnchorEmpty
      else if length anchor > MaxAnchorSize then Inl ErrAnchorTooLarge
      else bind_sum (fastMarshalTokenRequestForSigning (tr_Actions r)) (\<lambda>requestBytes.
        Inr (fastMarshalSignatureMessageV1 requestBytes anchor)))"

section \<open>Decoding accepts well-formed requests only\<close>

fun wf_action :: "TypedAction option \<Rightarrow> bool" where
  "wf_action None = False"
| "wf_action (Some a) =
     ((ta_Type a = ACTION_TYPE_ISSUE \<or> ta_Type a = ACTION_TYPE_TRANSFER) \<and> ta_Raw a \<noteq> [])"

fun wf_signature :: "RequestSignature option \<Rightarrow> bool" where
  "wf_signature None = False"
| "wf_signature (Some s) =
     (case (rs_Action s, rs_Auditor s) of
        (Some a, None) \<Rightarrow> as_Signature a \<noteq> []
      | (None, Some a) \<Rightarrow> au_Signature a \<noteq> []
      | _ \<Rightarrow> False)"

definition wf_request :: "TokenRequest \<Rightarrow> bool" where
  "wf_request r \<longleftrightarrow> tr_Version r = ProtocolV1 \<and> list_all wf_action (tr_Actions r) \<and>
     list_all wf_signature (tr_Signatures r)"

lemma validate_action_ok:
  "validate_action x = Inr u \<longleftrightarrow> (\<exists>a. snd x = Some a \<and> ta_Raw a \<noteq> [])"
  by (cases x; cases "snd x") (auto simp: validate_action_def)

lemma validate_signature_ok:
  "validate_signature x = Inr u \<longleftrightarrow>
     (\<exists>s. snd x = Some s \<and>
        (case rs_Action s of
           Some a \<Rightarrow> as_Signature a \<noteq> []
         | None \<Rightarrow> (case rs_Auditor s of Some a \<Rightarrow> au_Signature a \<noteq> [] | None \<Rightarrow> False)))"
  by (cases x; cases "snd x") (auto simp: validate_signature_def split: option.splits)

lemma TokenRequest_Validate_ok:
  "TokenRequest_Validate r = Inr u \<longleftrightarrow>
     (\<forall>x\<in>set (tr_Actions r). \<exists>a. x = Some a \<and> ta_Raw a \<noteq> []) \<and>
     (\<forall>x\<in>set (tr_Signatures r). \<exists>s. x = Some s \<and>
        (case rs_Action s of
           Some a \<Rightarrow> as_Signature a \<noteq> []
         | None \<Rightarrow> (case rs_Auditor s of Some a \<Rightarrow> au_Signature a \<noteq> [] | None \<Rightarrow> False)))"
  unfolding TokenRequest_Validate_def bind_sum_eq_Inr
  by (simp add: fold_sum_unit validate_action_ok validate_signature_ok
      ball_enumerate [where P = "\<lambda>x. \<exists>a. x = Some a \<and> ta_Raw a \<noteq> []"]
      ball_enumerate [where P = "\<lambda>x. \<exists>s. x = Some s \<and> (case rs_Action s of
           Some a \<Rightarrow> as_Signature a \<noteq> []
         | None \<Rightarrow> (case rs_Auditor s of Some a \<Rightarrow> au_Signature a \<noteq> [] | None \<Rightarrow> False))"])

lemma wf_action_valid: "wf_action x \<Longrightarrow> \<exists>a. x = Some a \<and> ta_Raw a \<noteq> []"
  by (cases x) auto

lemma wf_signature_valid:
  "wf_signature x \<Longrightarrow> \<exists>s. x = Some s \<and>
     (case rs_Action s of
        Some a \<Rightarrow> as_Signature a \<noteq> []
      | None \<Rightarrow> (case rs_Auditor s of Some a \<Rightarrow> au_Signature a \<noteq> [] | None \<Rightarrow> False))"
  by (cases x) (auto split: option.splits)

lemma wf_request_valid: "wf_request r \<Longrightarrow> TokenRequest_Validate r = Inr ()"
  unfolding TokenRequest_Validate_ok wf_request_def list_all_iff
  using wf_action_valid wf_signature_valid by meson

lemma TypedAction_FromProtos_ok:
  "TypedAction_FromProtos m = Inr x \<Longrightarrow>
     \<exists>a. x = Some a \<and> (ta_Type a = ACTION_TYPE_ISSUE \<or> ta_Type a = ACTION_TYPE_TRANSFER)"
  by (auto simp: TypedAction_FromProtos_def split: option.splits if_splits)

lemma read_signature_ok: "read_signature m = Inr x \<Longrightarrow> wf_signature x"
  by (auto simp: read_signature_def RequestSignature_FromProtos_def sum_elims
      split: option.splits if_splits)

lemma decoded_request_wf:
  assumes "TokenRequest_FromProtos zero_TokenRequest m = Inr r"
  shows "wf_request r"
proof -
  from assms obtain actions signatures where
    act: "map_sum_list TypedAction_FromProtos (pbtr_Actions m) = Inr actions" and
    sig: "map_sum_list read_signature (pbtr_Signatures m) = Inr signatures" and
    r: "r = \<lparr>tr_Version = ProtocolV1, tr_Actions = actions, tr_Signatures = signatures\<rparr>" and
    ok: "TokenRequest_Validate r = Inr ()"
    by (auto simp: TokenRequest_FromProtos_def zero_TokenRequest_def bind_sum_eq_Inr Let_def
        split: if_splits)
  have "\<forall>x\<in>set actions. \<exists>a. x = Some a \<and>
      (ta_Type a = ACTION_TYPE_ISSUE \<or> ta_Type a = ACTION_TYPE_TRANSFER)"
    using act by (rule map_sum_list_ball) (rule TypedAction_FromProtos_ok)
  then have "list_all wf_action actions"
    using ok unfolding TokenRequest_Validate_ok list_all_iff r by fastforce
  moreover have "list_all wf_signature signatures"
    unfolding list_all_iff using sig by (rule map_sum_list_ball) (rule read_signature_ok)
  ultimately show ?thesis by (simp add: wf_request_def r)
qed

text \<open>
  C26: Every token request that decodes from the wire is well formed: it has the only supported
  version, no action or signature is nil, every action is an issue or a transfer with a non-empty
  body, and every signature is exactly one of an action signature and an auditor signature, and
  not empty.
\<close>

theorem FromProtos_well_formed:
  "TokenRequest_FromProtos zero_TokenRequest m = Inr r \<Longrightarrow> wf_request r"
  by (rule decoded_request_wf)

section \<open>Decoding inverts encoding\<close>

lemma wf_action_roundtrip:
  "wf_action x \<Longrightarrow> \<exists>m. TypedAction_ToProtos x = Inr m \<and> TypedAction_FromProtos m = Inr x"
  by (cases x) (auto simp: TypedAction_ToProtos_def TypedAction_FromProtos_def GetTypedAction_def
      action_type_defs)

lemma ActionSignature_roundtrip:
  "ActionSignature_FromProtos r (ActionSignature_ToProtos a) = a"
  by (simp add: ActionSignature_FromProtos_def ActionSignature_ToProtos_def)

lemma AuditorSignature_roundtrip:
  "AuditorSignature_FromProtos r (AuditorSignature_ToProtos a) = a"
  by (simp add: AuditorSignature_FromProtos_def AuditorSignature_ToProtos_def)

lemma wf_signature_roundtrip:
  "wf_signature (Some s) \<Longrightarrow>
     \<exists>m. RequestSignature_ToProtos (Some s) = Inr m \<and> read_signature (Some m) = Inr (Some s)"
  by (cases s) (auto simp: RequestSignature_ToProtos_def read_signature_def
      RequestSignature_FromProtos_def GetActionSignature_def GetAuditorSignature_def
      ActionSignature_roundtrip AuditorSignature_roundtrip split: option.splits)

lemma signatures_roundtrip:
  assumes "list_all wf_signature ss"
  shows "\<exists>ms. ToProtosSlice (\<lambda>s. RequestSignature_ToProtos (Some s)) ss = Inr ms \<and>
    map_sum_list read_signature ms = Inr ss"
  unfolding ToProtosSlice_def
proof (rule map_sum_list_roundtrip)
  fix x assume "x \<in> set ss"
  with assms obtain s where s: "x = Some s" "wf_signature (Some s)"
    by (cases x) (auto simp: list_all_iff)
  from wf_signature_roundtrip [OF s(2)] show "\<exists>y. (case x of None \<Rightarrow> Inr None
      | Some x \<Rightarrow> bind_sum (RequestSignature_ToProtos (Some x)) (\<lambda>t. Inr (Some t))) = Inr y \<and>
      read_signature y = Inr x"
    using s by auto
qed

lemma request_roundtrip_protos:
  assumes "wf_request r"
  shows "\<exists>m. TokenRequest_ToProtos r = Inr m \<and> TokenRequest_FromProtos zero_TokenRequest m = Inr r"
proof -
  obtain as where as: "map_sum_list TypedAction_ToProtos (tr_Actions r) = Inr as"
    "map_sum_list TypedAction_FromProtos as = Inr (tr_Actions r)"
    using map_sum_list_roundtrip [of "tr_Actions r" TypedAction_ToProtos TypedAction_FromProtos]
      wf_action_roundtrip assms by (auto simp: wf_request_def list_all_iff)
  obtain ss where ss: "ToProtosSlice (\<lambda>s. RequestSignature_ToProtos (Some s)) (tr_Signatures r) = Inr ss"
    "map_sum_list read_signature ss = Inr (tr_Signatures r)"
    using signatures_roundtrip assms by (auto simp: wf_request_def)
  have v: "tr_Version r = ProtocolV1" using assms by (simp add: wf_request_def)
  then have eq: "\<lparr>tr_Version = ProtocolV1, tr_Actions = tr_Actions r, tr_Signatures = tr_Signatures r\<rparr> = r"
    by (cases r) simp
  have "ProtocolV1 \<noteq> 0" by (simp add: ProtocolV1_def)
  then show ?thesis
    by (simp add: TokenRequest_ToProtos_def TokenRequest_FromProtos_def zero_TokenRequest_def
        as ss v eq wf_request_valid [OF assms])
qed

text \<open>
  C27: A well-formed token request survives a trip over the wire: it encodes, and decoding the
  encoded bytes into a fresh request gives it back, for any protobuf codec that decodes what it
  encoded for this request.
\<close>

theorem TokenRequest_roundtrip:
  assumes "wf_request r"
    and "\<And>m. TokenRequest_ToProtos r = Inr m \<Longrightarrow> marshal m = Some raw \<and> unmarshal raw = Some m"
  shows "TokenRequest_Bytes marshal r = Inr raw \<and>
    TokenRequest_FromBytes unmarshal zero_TokenRequest raw = Inr r"
  using request_roundtrip_protos [OF assms(1)] assms(2)
  by (auto simp: TokenRequest_Bytes_def TokenRequest_FromBytes_def)

definition example_request :: TokenRequest where
  "example_request =
     \<lparr>tr_Version = 1,
      tr_Actions = [Some \<lparr>ta_Type = 1, ta_Raw = [7]\<rparr>, Some \<lparr>ta_Type = 2, ta_Raw = [8, 9]\<rparr>],
      tr_Signatures = [Some \<lparr>rs_Action = None, rs_Auditor = Some \<lparr>au_Identity = Some [1], au_Signature = [2]\<rparr>\<rparr>,
                       Some \<lparr>rs_Action = Some \<lparr>as_ActionID = 0, as_Signature = [3]\<rparr>, rs_Auditor = None\<rparr>]\<rparr>"

lemma example_request_wf: "wf_request example_request"
  by (simp add: wf_request_def example_request_def ProtocolV1_def action_type_defs)

definition example_request_pb :: pb_TokenRequest where
  "example_request_pb = projr (TokenRequest_ToProtos example_request)"

lemma example_request_protos: "TokenRequest_ToProtos example_request = Inr example_request_pb"
  using request_roundtrip_protos [OF example_request_wf] by (auto simp: example_request_pb_def)

theorem FromProtos_well_formed_witness:
  "TokenRequest_FromProtos zero_TokenRequest example_request_pb = Inr example_request \<and>
   wf_request example_request"
proof -
  have run: "TokenRequest_FromProtos zero_TokenRequest example_request_pb = Inr example_request"
    using request_roundtrip_protos [OF example_request_wf] example_request_protos by auto
  then show ?thesis using FromProtos_well_formed [OF run] by simp
qed

theorem TokenRequest_roundtrip_witness:
  "TokenRequest_Bytes (\<lambda>_. Some [42]) example_request = Inr [42] \<and>
   TokenRequest_FromBytes (\<lambda>raw. if raw = [42] then Some example_request_pb else None)
     zero_TokenRequest [42] = Inr example_request"
  by (rule TokenRequest_roundtrip [OF example_request_wf]) (simp add: example_request_protos)

section \<open>The message to sign\<close>

text \<open>
  The reference: distinguished encoding rules as \<open>encoding/asn1\<close> defines them. The length octets
  are the minimal big-endian digits.
\<close>

fun be_digits :: "nat \<Rightarrow> bytes" where
  "be_digits n = (if n = 0 then [] else be_digits (n div 256) @ [of_nat n])"

declare be_digits.simps [simp del]

definition der_length :: "nat \<Rightarrow> bytes" where
  "der_length n =
     (if n < 128 then [of_nat n] else of_nat (128 + length (be_digits n)) # be_digits n)"

datatype asn1 =
    Asn1_Sequence "asn1 list"
  | Asn1_Integer u32
  | Asn1_OctetString bytes

definition der_tlv :: "byte \<Rightarrow> bytes \<Rightarrow> bytes" where
  "der_tlv tag content = tag # der_length (length content) @ content"

fun asn1_Marshal :: "asn1 \<Rightarrow> bytes" where
  "asn1_Marshal (Asn1_Sequence xs) = der_tlv 0x30 (concat (map asn1_Marshal xs))"
| "asn1_Marshal (Asn1_Integer v) = der_tlv 0x02 (encodeInt32 v)"
| "asn1_Marshal (Asn1_OctetString b) = der_tlv 0x04 b"

text \<open>The structure the comments of \<open>asn1_fast.go\<close> give.\<close>

definition asn1_action :: "TypedAction \<Rightarrow> asn1" where
  "asn1_action a =
     Asn1_Sequence [Asn1_Integer (if ta_Type a = ACTION_TYPE_TRANSFER then 1 else 0),
                    Asn1_OctetString (ta_Raw a)]"

definition asn1_message :: "TypedAction list \<Rightarrow> bytes \<Rightarrow> asn1" where
  "asn1_message actions anchor =
     Asn1_Sequence
       [Asn1_OctetString (asn1_Marshal (Asn1_Sequence [Asn1_Sequence (map asn1_action actions)])),
        Asn1_OctetString anchor]"

lemma be_digits_of_bytes: "bs = [] \<or> hd bs \<noteq> 0 \<Longrightarrow> be_digits (be_nat bs) = bs"
proof (induction bs rule: rev_induct)
  case (snoc y ys)
  have n: "be_nat (ys @ [y]) = be_nat ys * 256 + unat y"
    by (simp add: be_nat_def)
  have nz: "be_nat (ys @ [y]) \<noteq> 0"
  proof (cases ys)
    case Nil
    with snoc.prems show ?thesis by (simp add: n byte_eq_0_iff be_nat_def)
  next
    case (Cons z zs)
    with snoc have "be_digits (be_nat ys) \<noteq> []" by simp
    moreover have "be_digits 0 = []" by (subst be_digits.simps) simp
    ultimately have "be_nat ys \<noteq> 0" by metis
    then show ?thesis by (simp add: n)
  qed
  have IH: "be_digits (be_nat ys) = ys"
    using snoc by (cases ys) (simp_all add: be_nat_def be_digits.simps)
  have "(be_nat ys * 256 + unat y) div 256 = be_nat ys"
    using unat_byte_bound [of y] by simp
  moreover have "(of_nat (be_nat ys * 256 + unat y) :: byte) = y"
    unfolding byte_of_nat_eq using unat_byte_bound [of y] by simp
  ultimately show ?case
    using nz IH by (subst be_digits.simps) (simp add: n)
qed (simp add: be_nat_def be_digits.simps)

lemma derLength_reference: "l < 2 ^ 32 \<Longrightarrow> derLength l = der_length l"
proof (cases "l < 128")
  case False
  assume "l < 2 ^ 32"
  with False obtain bs where "derLength l = of_nat (128 + length bs) # bs" "1 \<le> length bs"
    "hd bs \<noteq> 0" "be_nat bs = l"
    using derLength_long [of l] by (metis not_le)
  then show ?thesis
    using False be_digits_of_bytes [of bs] by (simp add: der_length_def)
qed (simp add: derLength_short der_length_def)

lemma byte_of_u32:
  assumes "k \<le> 24"
  shows "(ucast (drop_bit k (of_nat l :: u32)) :: byte) = of_nat (l div 2 ^ k)"
proof (rule bit_word_eqI)
  fix n assume "n < LENGTH(8)"
  then show "bit (ucast (drop_bit k (of_nat l :: u32)) :: byte) n = bit (of_nat (l div 2 ^ k) :: byte) n"
    using assms by (simp add: bit_simps flip: drop_bit_eq_div)
qed

lemma PutUint32_be_digits:
  "PutUint32_be (of_nat l) = [of_nat (l div 16777216), of_nat (l div 65536), of_nat (l div 256), of_nat l]"
  using byte_of_u32 [of 24 l] byte_of_u32 [of 16 l] byte_of_u32 [of 8 l] byte_of_u32 [of 0 l]
  by (simp add: PutUint32_be_def)

lemma appendLength_derLength: "appendLength buf l = buf @ derLength l"
  by (simp add: appendLength_def derLength_def PutUint32_be_digits)

lemma encodedLength_derLength: "encodedLength l = length (derLength l)"
  by (simp add: encodedLength_def derLength_def)

abbreviation tlv :: "byte \<Rightarrow> bytes \<Rightarrow> bytes" where
  "tlv \<equiv> appendTLV []"

definition tlv_action :: "TypedAction \<Rightarrow> bytes" where
  "tlv_action a = tlv 0x30 (tlv 0x02 [actionTypeInt (ta_Type a)] @ tlv 0x04 (ta_Raw a))"

lemma length_tlv: "length (tlv t v) = 1 + encodedLength (length v) + length v"
  by (simp add: appendTLV_def encodedLength_derLength)

lemma encodedLength_1 [simp]: "encodedLength (Suc 0) = 1"
  by (simp add: encodedLength_def)

lemma derLength_1 [simp]: "derLength (Suc 0) = [1]"
  by (simp add: derLength_def)

lemma action_content_length:
  "length (tlv 0x02 [actionTypeInt (ta_Type a)] @ tlv 0x04 (ta_Raw a)) = actionContentLen a"
  by (simp add: length_tlv actionContentLen_def)

lemma length_tlv_action:
  "length (tlv_action a) = 1 + encodedLength (actionContentLen a) + actionContentLen a"
  unfolding tlv_action_def length_tlv action_content_length ..

lemma append_action_tlv: "append_action result a = result @ tlv_action a"
proof -
  have "tlv_action a = 0x30 # derLength (actionContentLen a) @
      tlv 0x02 [actionTypeInt (ta_Type a)] @ tlv 0x04 (ta_Raw a)"
    unfolding tlv_action_def appendTLV_def [of _ "0x30"] action_content_length by simp
  then show ?thesis
    by (simp add: append_action_def appendTLV_def appendLength_derLength)
qed

lemma message_tlv:
  "fastMarshalSignatureMessageV1 request anchor = tlv 0x30 (tlv 0x04 request @ tlv 0x04 anchor)"
  by (simp add: fastMarshalSignatureMessageV1_def appendTLV_def appendLength_derLength
      encodedLength_derLength add.assoc Let_def)

lemma content_length_loop:
  "fold_sum (\<lambda>action n. case action of
       None \<Rightarrow> Inl NilDereference
     | Some a \<Rightarrow> Inr (n + (1 + encodedLength (actionContentLen a) + actionContentLen a)))
     (map Some as) n = Inr (n + length (concat (map tlv_action as)))"
  by (induction as arbitrary: n) (simp_all add: length_tlv_action)

lemma append_loop:
  "fold_sum (\<lambda>action result. case action of
       None \<Rightarrow> Inl NilDereference | Some a \<Rightarrow> Inr (append_action result a)) (map Some as) result =
     Inr (result @ concat (map tlv_action as))"
  by (induction as arbitrary: result) (simp_all add: append_action_tlv)

lemma request_tlv:
  "fastMarshalTokenRequestForSigning (map Some as) =
     Inr (tlv 0x30 (tlv 0x30 (concat (map tlv_action as))))"
proof -
  let ?c = "concat (map tlv_action as)"
  have "length (tlv 0x30 ?c) = 1 + encodedLength (length ?c) + length ?c"
    by (simp add: length_tlv)
  then show ?thesis
    unfolding fastMarshalTokenRequestForSigning_def content_length_loop bind_sum_simps Let_def append_loop
    by (simp add: appendTLV_def appendLength_derLength)
qed

lemma content_length_nil:
  "fold_sum (\<lambda>action n. case action of
       None \<Rightarrow> Inl NilDereference
     | Some a \<Rightarrow> Inr (n + (1 + encodedLength (actionContentLen a) + actionContentLen a)))
     xs n = Inr m \<Longrightarrow> None \<notin> set xs"
  by (induction xs arbitrary: n) (auto simp: sum_elims split: option.splits)

lemma all_some_map: "None \<notin> set xs \<Longrightarrow> \<exists>ys. xs = map Some ys"
  by (rule exI [of _ "map the xs"]) (induction xs; auto)

lemma MarshalToMessageToSign_tlv:
  assumes "MarshalToMessageToSign r anchor = Inr m"
  obtains as where "tr_Actions r = map Some as" and
    "m = tlv 0x30 (tlv 0x04 (tlv 0x30 (tlv 0x30 (concat (map tlv_action as)))) @ tlv 0x04 anchor)"
proof -
  from assms obtain rb where rb: "fastMarshalTokenRequestForSigning (tr_Actions r) = Inr rb"
    and m: "m = fastMarshalSignatureMessageV1 rb anchor"
    by (auto simp: MarshalToMessageToSign_def sum_elims split: if_splits)
  then have "None \<notin> set (tr_Actions r)"
    by (auto simp: fastMarshalTokenRequestForSigning_def bind_sum_eq_Inr dest: content_length_nil)
  then obtain as where as: "tr_Actions r = map Some as"
    using all_some_map by blast
  with rb m show ?thesis
    using that by (simp add: request_tlv message_tlv)
qed

lemma length_tlv_less: "length v < length (tlv t v)"
  by (simp add: appendTLV_def)

lemma der_tlv_eq: "length v < 2 ^ 32 \<Longrightarrow> der_tlv t v = tlv t v"
  by (simp add: der_tlv_def appendTLV_def derLength_reference)

lemma asn1_Marshal_action:
  assumes "length (tlv_action a) < 2 ^ 32"
  shows "asn1_Marshal (asn1_action a) = tlv_action a"
proof -
  let ?t = "if ta_Type a = ACTION_TYPE_TRANSFER then 1 else 0 :: u32"
  let ?c = "tlv 0x02 [actionTypeInt (ta_Type a)] @ tlv 0x04 (ta_Raw a)"
  have "encodeInt32 ?t = [actionTypeInt (ta_Type a)]"
    by (simp add: encodeInt32_def actionTypeInt_def ACTION_TYPE_TRANSFER_def)
  moreover have c: "length ?c < 2 ^ 32"
    using assms length_tlv_less [of ?c "0x30"] unfolding tlv_action_def by linarith
  moreover have "length (ta_Raw a) < length ?c"
    by (simp add: appendTLV_def)
  then have "length (ta_Raw a) < 2 ^ 32" using c by linarith
  ultimately show ?thesis
    by (simp add: asn1_action_def tlv_action_def der_tlv_eq)
qed

lemma asn1_Marshal_actions:
  "length (concat (map tlv_action as)) < 2 ^ 32 \<Longrightarrow>
     concat (map (asn1_Marshal \<circ> asn1_action) as) = concat (map tlv_action as)"
  by (induction as) (simp_all add: asn1_Marshal_action)

text \<open>
  C25: The hand-written marshaller agrees with the distinguished encoding of ASN.1: whenever it
  returns a message below 4 GiB, that message is the reference encoding of the documented
  structure (the request's actions in order with their types, and the anchor). The lengths the
  code computes ahead of writing are those of what it writes.
\<close>

theorem fastMarshal_is_asn1:
  assumes "MarshalToMessageToSign r anchor = Inr m" and "length m < 2 ^ 32"
  shows "\<exists>as. tr_Actions r = map Some as \<and> m = asn1_Marshal (asn1_message as anchor)"
proof -
  from assms(1) obtain as where as: "tr_Actions r = map Some as" and
    m: "m = tlv 0x30 (tlv 0x04 (tlv 0x30 (tlv 0x30 (concat (map tlv_action as)))) @ tlv 0x04 anchor)"
    by (rule MarshalToMessageToSign_tlv)
  let ?c = "concat (map tlv_action as)"
  let ?r = "tlv 0x30 (tlv 0x30 ?c)"
  let ?b = "tlv 0x04 ?r @ tlv 0x04 anchor"
  have b: "length ?b < 2 ^ 32"
    using assms(2) length_tlv_less [of ?b "0x30"] unfolding m by linarith
  have "length ?r < length ?b" "length anchor < length ?b"
    using length_tlv_less [of ?r 4] length_tlv_less [of anchor 4] by simp_all
  then have r: "length ?r < 2 ^ 32" "length anchor < 2 ^ 32" using b by linarith+
  then have "length (tlv 0x30 ?c) < 2 ^ 32" "length ?c < 2 ^ 32"
    using length_tlv_less [of "tlv 0x30 ?c" "0x30"] length_tlv_less [of ?c "0x30"] by linarith+
  with r b show ?thesis
    unfolding as m asn1_message_def asn1_Marshal.simps
    by (intro exI [of _ as]) (simp add: asn1_Marshal_actions der_tlv_eq)
qed

lemma tlv_inject:
  assumes "tlv t v @ rest = tlv t' v' @ rest'" and "length v < 2 ^ 32" and "length v' < 2 ^ 32"
  shows "t = t' \<and> v = v' \<and> rest = rest'"
proof -
  let ?b = "tlv t v @ rest"
  have "drop 1 ?b = derLength (length v) @ v @ rest"
    by (simp add: appendTLV_def)
  then have "readLen ?b 1 = Inr (length v, 1 + length (derLength (length v)))"
    by (rule readLen_complete) (use assms(2) in simp_all)
  moreover have "drop 1 ?b = derLength (length v') @ v' @ rest'"
    unfolding assms(1) by (simp add: appendTLV_def)
  then have "readLen ?b 1 = Inr (length v', 1 + length (derLength (length v')))"
    by (rule readLen_complete) (use assms(3) in simp_all)
  ultimately have "length v = length v'" by simp
  then show ?thesis using assms(1) by (simp add: appendTLV_def)
qed

lemma tlv_actions_inject:
  assumes "concat (map tlv_action as) = concat (map tlv_action bs)"
    and "length (concat (map tlv_action as)) < 2 ^ 32"
  shows "map (\<lambda>a. (actionTypeInt (ta_Type a), ta_Raw a)) as =
    map (\<lambda>a. (actionTypeInt (ta_Type a), ta_Raw a)) bs"
  using assms
proof (induction as arbitrary: bs)
  case Nil
  then show ?case by (cases bs) (simp_all add: tlv_action_def appendTLV_def)
next
  case (Cons a as)
  let ?c = "\<lambda>a. tlv 0x02 [actionTypeInt (ta_Type a)] @ tlv 0x04 (ta_Raw a)"
  obtain b bs' where bs: "bs = b # bs'"
    using Cons.prems(1) by (cases bs) (simp_all add: tlv_action_def appendTLV_def)
  have eq: "tlv 0x30 (?c a) @ concat (map tlv_action as) = tlv 0x30 (?c b) @ concat (map tlv_action bs')"
    using Cons.prems(1) by (simp add: bs tlv_action_def [of a] tlv_action_def [of b])
  have la: "length (?c a) < 2 ^ 32"
    using Cons.prems(2) length_tlv_less [of "?c a" "0x30"] by (simp add: tlv_action_def [of a])
  have lb: "length (?c b) < 2 ^ 32"
    using Cons.prems length_tlv_less [of "?c b" "0x30"] by (simp add: bs tlv_action_def [of b])
  have c: "?c a = ?c b" and rest: "concat (map tlv_action as) = concat (map tlv_action bs')"
    using tlv_inject [OF eq la lb] by simp_all
  have "length (ta_Raw a) < 2 ^ 32" "length (ta_Raw b) < 2 ^ 32"
    using la lb length_tlv_less [of "ta_Raw a" 4] length_tlv_less [of "ta_Raw b" 4] by simp_all
  then have "actionTypeInt (ta_Type a) = actionTypeInt (ta_Type b) \<and> ta_Raw a = ta_Raw b"
    using tlv_inject [OF c] tlv_inject [of 4 "ta_Raw a" "[]" 4 "ta_Raw b" "[]"] by simp
  then show ?case
    using Cons.IH [OF rest] Cons.prems(2) by (simp add: bs)
qed

lemma wf_actions_determined:
  assumes "map (\<lambda>a. (actionTypeInt (ta_Type a), ta_Raw a)) as =
      map (\<lambda>a. (actionTypeInt (ta_Type a), ta_Raw a)) bs"
    and "list_all wf_action (map Some as)" and "list_all wf_action (map Some bs)"
  shows "as = bs"
  using assms
proof (induction as arbitrary: bs)
  case (Cons a as)
  then obtain b bs' where bs: "bs = b # bs'" by (cases bs) simp_all
  have "ta_Type a = ta_Type b"
    using Cons.prems by (auto simp: bs actionTypeInt_def action_type_defs split: if_splits)
  then have "a = b" using Cons.prems(1) by (cases a; cases b) (simp add: bs)
  then show ?case using Cons by (simp add: bs)
qed simp

text \<open>
  C8: A signature binds exactly one anchor and one list of actions: two well-formed requests with
  the same message to sign (below 4 GiB) have the same anchor and the same actions in the same
  order; no boundary between the fields can be moved.
\<close>

theorem MarshalToMessageToSign_binding:
  assumes "wf_request r" and "wf_request r'"
    and "MarshalToMessageToSign r anchor = Inr m" and "MarshalToMessageToSign r' anchor' = Inr m"
    and "length m < 2 ^ 32"
  shows "anchor = anchor' \<and> tr_Actions r = tr_Actions r'"
proof -
  obtain as where as: "tr_Actions r = map Some as" and
    m: "m = tlv 0x30 (tlv 0x04 (tlv 0x30 (tlv 0x30 (concat (map tlv_action as)))) @ tlv 0x04 anchor)"
    using assms(3) by (rule MarshalToMessageToSign_tlv)
  obtain bs where bs: "tr_Actions r' = map Some bs" and
    m': "m = tlv 0x30 (tlv 0x04 (tlv 0x30 (tlv 0x30 (concat (map tlv_action bs)))) @ tlv 0x04 anchor')"
    using assms(4) by (rule MarshalToMessageToSign_tlv)
  have small: "length v < 2 ^ 32" if "length (tlv t v) \<le> length m" for t v
    using that assms(5) length_tlv_less [of v t] by linarith
  let ?q = "\<lambda>as. tlv 0x30 (concat (map tlv_action as))"
  let ?b = "\<lambda>as anchor. tlv 0x04 (tlv 0x30 (?q as)) @ tlv 0x04 anchor"
  have top: "?b as anchor = ?b bs anchor'"
    using tlv_inject [of "0x30" "?b as anchor" "[]" "0x30" "?b bs anchor'" "[]"] m m' small [of "0x30"]
    by (metis order_refl)
  have sub: "length (tlv 0x04 (tlv 0x30 (?q as))) \<le> length m" "length (tlv 0x04 anchor) \<le> length m"
    "length (tlv 0x04 (tlv 0x30 (?q bs))) \<le> length m" "length (tlv 0x04 anchor') \<le> length m"
    using length_tlv_less [of "?b as anchor" "0x30"] length_tlv_less [of "?b bs anchor'" "0x30"]
    by (simp_all flip: m m')
  have q: "tlv 0x30 (?q as) = tlv 0x30 (?q bs)" and an: "tlv 0x04 anchor = tlv 0x04 anchor'"
    using tlv_inject [OF top small [OF sub(1)] small [OF sub(3)]] by simp_all
  have "anchor = anchor'"
    using tlv_inject [of 4 anchor "[]" 4 anchor' "[]"] an small [OF sub(2)] small [OF sub(4)] by simp
  moreover have sub2: "length (tlv 0x30 (?q as)) \<le> length m" "length (tlv 0x30 (?q bs)) \<le> length m"
    "length (?q as) \<le> length m" "length (?q bs) \<le> length m"
    using sub length_tlv_less [of "tlv 0x30 (?q as)" 4] length_tlv_less [of "tlv 0x30 (?q bs)" 4]
      length_tlv_less [of "?q as" "0x30"] length_tlv_less [of "?q bs" "0x30"] by linarith+
  have "?q as = ?q bs"
    using tlv_inject [of "0x30" "?q as" "[]" "0x30" "?q bs" "[]"] q small [OF sub2(1)] small [OF sub2(2)]
    by simp
  then have "concat (map tlv_action as) = concat (map tlv_action bs)"
    using tlv_inject [of "0x30" "concat (map tlv_action as)" "[]" "0x30" "concat (map tlv_action bs)" "[]"]
      small [OF sub2(3)] small [OF sub2(4)] by simp
  then have key: "map (\<lambda>a. (actionTypeInt (ta_Type a), ta_Raw a)) as =
      map (\<lambda>a. (actionTypeInt (ta_Type a), ta_Raw a)) bs"
    using tlv_actions_inject small [OF sub2(3)] by blast
  have "as = bs"
    using key assms(1,2) as bs by (intro wf_actions_determined) (simp_all add: wf_request_def)
  ultimately show ?thesis using as bs by simp
qed

definition example_message :: bytes where
  "example_message =
     [48, 26, 4, 21, 48, 19, 48, 17, 48, 6, 2, 1, 0, 4, 1, 7, 48, 7, 2, 1, 1, 4, 2, 8, 9, 4, 1, 5]"

lemma example_message_run:
  "MarshalToMessageToSign (example_request\<lparr>tr_Signatures := ss\<rparr>) [5] = Inr example_message"
  by (simp add: MarshalToMessageToSign_def example_request_def example_message_def MaxAnchorSize_def
      fastMarshalTokenRequestForSigning_def fastMarshalSignatureMessageV1_def append_action_def
      actionContentLen_def actionTypeInt_def encodedLength_def appendLength_def Let_def)

theorem fastMarshal_is_asn1_witness:
  "\<exists>as. tr_Actions example_request = map Some as \<and>
     example_message = asn1_Marshal (asn1_message as [5])"
  using fastMarshal_is_asn1 [of "example_request" "[5]" example_message]
    example_message_run [of "tr_Signatures example_request"]
  by (simp add: example_message_def)

theorem MarshalToMessageToSign_binding_witness:
  "[5 :: byte] = [5] \<and>
   tr_Actions example_request = tr_Actions (example_request\<lparr>tr_Signatures := []\<rparr>)"
proof (rule MarshalToMessageToSign_binding [of example_request "example_request\<lparr>tr_Signatures := []\<rparr>"
      "[5]" example_message "[5]"])
  show "wf_request (example_request\<lparr>tr_Signatures := []\<rparr>)"
    using example_request_wf by (simp add: wf_request_def)
  show "MarshalToMessageToSign example_request [5] = Inr example_message"
    using example_message_run [of "tr_Signatures example_request"] by simp
qed (simp_all add: example_request_wf example_message_run example_message_def)

end
