(* ===== verification/Request_Metadata.thy ===== *)
theory Request_Metadata
  imports Request
begin

text \<open>
  The metadata that travels with a token request (second half of
  \<open>src/token/driver/request.go\<close>, with the conversions of \<open>src/token/driver/marshaller.go\<close> and
  \<open>src/token/driver/protos-go/utils/proto.go\<close>): what each action's inputs and outputs are, who
  sends, receives and signs, and the application's own entries.

  The conventions are those of \<open>Request\<close>. An action is seen through the methods that \<open>Match\<close>
  calls; \<open>Identity.Equal\<close> belongs to the platform and is a parameter. A Go map is a finite map
  given by its lookup.

  The lemmas show that decoding inverts encoding for every metadata an encoder accepts, up to the
  one field the encoder drops, and that the indexed accessors agree with the filtered lists.
\<close>

section \<open>Messages\<close>

record pb_AuditableIdentity =
  pbai_Identity :: "pb_Identity option"
  pbai_AuditInfo :: bytes

record pb_TransferInputMetadata =
  pbti_TokenId :: "pb_TokenID option"
  pbti_Senders :: "pb_AuditableIdentity option list"

record pb_OutputMetadata =
  pbom_Metadata :: bytes
  pbom_AuditInfo :: bytes
  pbom_Receivers :: "pb_AuditableIdentity option list"

record pb_TransferMetadata =
  pbtm_Inputs :: "pb_TransferInputMetadata option list"
  pbtm_Outputs :: "pb_OutputMetadata option list"
  pbtm_Issuer :: "pb_AuditableIdentity option"
  pbtm_ExtraSigners :: "pb_AuditableIdentity option list"

record pb_IssueInputMetadata =
  pbii_TokenId :: "pb_TokenID option"

record pb_IssueMetadata =
  pbim_Issuer :: "pb_AuditableIdentity option"
  pbim_Inputs :: "pb_IssueInputMetadata option list"
  pbim_Outputs :: "pb_OutputMetadata option list"
  pbim_ExtraSigners :: "pb_AuditableIdentity option list"

datatype pb_ActionMetadata_oneof =
    ActionMetadata_IssueMetadata "pb_IssueMetadata option"
  | ActionMetadata_TransferMetadata "pb_TransferMetadata option"
  | ActionMetadata_HashedMetadata "bytes option"

record pb_ActionMetadata =
  pbam_ActionId :: u32
  pbam_Metadata :: "pb_ActionMetadata_oneof option"

record pb_TokenRequestMetadata =
  pbrm_Version :: u32
  pbrm_Metadata :: "pb_ActionMetadata option list"
  pbrm_ApplicationMetadata :: "string \<rightharpoonup> bytes"

definition pb_GetIssueMetadata :: "pb_ActionMetadata \<Rightarrow> pb_IssueMetadata option" where
  "pb_GetIssueMetadata x =
     (case pbam_Metadata x of Some (ActionMetadata_IssueMetadata m) \<Rightarrow> m | _ \<Rightarrow> None)"

definition pb_GetTransferMetadata :: "pb_ActionMetadata \<Rightarrow> pb_TransferMetadata option" where
  "pb_GetTransferMetadata x =
     (case pbam_Metadata x of Some (ActionMetadata_TransferMetadata m) \<Rightarrow> m | _ \<Rightarrow> None)"

section \<open>Identities and token identifiers\<close>

datatype meta_error =
    NilActionMetadata
  | NoActionMetadata
  | InvalidMetadataVersion u32
  | MetadataTypeNotRecognized
  | SliceFailed "meta_error slice_error"
  | IndexOutOfRange int nat
  | MetaMarshalFailed
  | MetaUnmarshalFailed
  | MetaNilDereference

record AuditableIdentity =
  ai_Identity :: identity
  ai_AuditInfo :: bytes

definition zero_AuditableIdentity :: AuditableIdentity where
  "zero_AuditableIdentity = \<lparr>ai_Identity = None, ai_AuditInfo = []\<rparr>"

definition ToTokenID_pb :: "token_id option \<Rightarrow> pb_TokenID option" where
  "ToTokenID_pb tid = (case tid of None \<Rightarrow> None | Some i \<Rightarrow> Some \<lparr>pbid_TxId = TxId i, pbid_Index = Index i\<rparr>)"

definition ToTokenID :: "pb_TokenID option \<Rightarrow> token_id option" where
  "ToTokenID tid = (case tid of None \<Rightarrow> None | Some i \<Rightarrow> Some \<lparr>TxId = pbid_TxId i, Index = pbid_Index i\<rparr>)"

definition ToIdentity :: "pb_Identity option \<Rightarrow> identity" where
  "ToIdentity i = (case i of None \<Rightarrow> None | Some i \<Rightarrow> pbi_Raw i)"

definition ToProtoIdentitySlice :: "identity list \<Rightarrow> pb_Identity option list" where
  "ToProtoIdentitySlice identities = map (\<lambda>id. Some \<lparr>pbi_Raw = id\<rparr>) identities"

definition FromProtoIdentitySlice :: "pb_Identity option list \<Rightarrow> identity list" where
  "FromProtoIdentitySlice identities =
     map (\<lambda>id. case id of Some i \<Rightarrow> pbi_Raw i | None \<Rightarrow> None) identities"

definition ToProtoAuditableIdentitySlice :: "identity list \<Rightarrow> pb_AuditableIdentity option list" where
  "ToProtoAuditableIdentitySlice identities =
     map (\<lambda>id. Some \<lparr>pbai_Identity = Some \<lparr>pbi_Raw = id\<rparr>, pbai_AuditInfo = []\<rparr>) identities"

definition FromProtoAuditableIdentitySlice :: "pb_AuditableIdentity option list \<Rightarrow> identity list" where
  "FromProtoAuditableIdentitySlice identities =
     map (\<lambda>id. case id of
            Some a \<Rightarrow> (case pbai_Identity a of Some i \<Rightarrow> pbi_Raw i | None \<Rightarrow> None)
          | None \<Rightarrow> None) identities"

definition AuditableIdentity_ToProtos :: "AuditableIdentity \<Rightarrow> meta_error + pb_AuditableIdentity" where
  "AuditableIdentity_ToProtos a =
     Inr \<lparr>pbai_Identity = Some \<lparr>pbi_Raw = ai_Identity a\<rparr>, pbai_AuditInfo = ai_AuditInfo a\<rparr>"

definition AuditableIdentity_FromProtos ::
  "AuditableIdentity \<Rightarrow> pb_AuditableIdentity option \<Rightarrow> meta_error + AuditableIdentity" where
  "AuditableIdentity_FromProtos a m =
     (case m of
        None \<Rightarrow> Inr (a\<lparr>ai_Identity := None, ai_AuditInfo := []\<rparr>)
      | Some m \<Rightarrow> Inr (a\<lparr>ai_Identity := ToIdentity (pbai_Identity m), ai_AuditInfo := pbai_AuditInfo m\<rparr>))"

definition ToProtoAuditableIdentitySliceFromAuditable ::
  "AuditableIdentity list \<Rightarrow> meta_error + pb_AuditableIdentity option list" where
  "ToProtoAuditableIdentitySliceFromAuditable identities =
     map_sum_list (\<lambda>id. bind_sum (AuditableIdentity_ToProtos id) (\<lambda>m. Inr (Some m))) identities"

definition FromProtoAuditableIdentitySliceToAuditable ::
  "pb_AuditableIdentity option list \<Rightarrow> meta_error + AuditableIdentity list" where
  "FromProtoAuditableIdentitySliceToAuditable identities =
     map_sum_list (AuditableIdentity_FromProtos zero_AuditableIdentity) identities"

text \<open>The two conversions of a slice of auditable identities the structures below use.\<close>

definition identities_ToProtos ::
  "AuditableIdentity option list \<Rightarrow> meta_error + pb_AuditableIdentity option list" where
  "identities_ToProtos = ToProtosSlice AuditableIdentity_ToProtos"

definition identities_FromProtos ::
  "pb_AuditableIdentity option list \<Rightarrow> meta_error + AuditableIdentity option list" where
  "identities_FromProtos ms =
     wrap_err SliceFailed (FromProtosSlice (\<lambda>a m. AuditableIdentity_FromProtos a (Some m)) ms
       (GenericSliceOfPointers zero_AuditableIdentity (length ms)))"

section \<open>Issue metadata\<close>

record IssueInputMetadata =
  ii_TokenID :: "token_id option"

record IssueOutputMetadata =
  io_OutputMetadata :: bytes
  io_OutputAuditInfo :: bytes
  io_Receivers :: "AuditableIdentity option list"

record IssueMetadata =
  im_Issuer :: AuditableIdentity
  im_Inputs :: "IssueInputMetadata option list"
  im_Outputs :: "IssueOutputMetadata option list"
  im_ExtraSigners :: "AuditableIdentity list"

definition IssueInputMetadata_ToProtos :: "IssueInputMetadata \<Rightarrow> meta_error + pb_IssueInputMetadata" where
  "IssueInputMetadata_ToProtos i = Inr \<lparr>pbii_TokenId = ToTokenID_pb (ii_TokenID i)\<rparr>"

definition IssueInputMetadata_FromProtos ::
  "IssueInputMetadata \<Rightarrow> pb_IssueInputMetadata \<Rightarrow> meta_error + IssueInputMetadata" where
  "IssueInputMetadata_FromProtos i m = Inr (i\<lparr>ii_TokenID := ToTokenID (pbii_TokenId m)\<rparr>)"

definition IssueOutputMetadata_ToProtos :: "IssueOutputMetadata \<Rightarrow> meta_error + pb_OutputMetadata" where
  "IssueOutputMetadata_ToProtos i =
     bind_sum (identities_ToProtos (io_Receivers i)) (\<lambda>receivers.
       Inr \<lparr>pbom_Metadata = io_OutputMetadata i, pbom_AuditInfo = io_OutputAuditInfo i,
            pbom_Receivers = receivers\<rparr>)"

definition IssueOutputMetadata_FromProtos ::
  "IssueOutputMetadata \<Rightarrow> pb_OutputMetadata option \<Rightarrow> meta_error + IssueOutputMetadata" where
  "IssueOutputMetadata_FromProtos i m =
     (case m of None \<Rightarrow> Inr i
      | Some m \<Rightarrow>
          bind_sum (identities_FromProtos (pbom_Receivers m)) (\<lambda>receivers.
            Inr (i\<lparr>io_OutputMetadata := pbom_Metadata m, io_OutputAuditInfo := pbom_AuditInfo m,
                   io_Receivers := receivers\<rparr>)))"

definition IssueOutputMetadata_RecipientAt :: "IssueOutputMetadata \<Rightarrow> int \<Rightarrow> AuditableIdentity option" where
  "IssueOutputMetadata_RecipientAt i index =
     (if index < 0 \<or> index \<ge> int (length (io_Receivers i)) then None
      else io_Receivers i ! nat index)"

definition zero_IssueInputMetadata :: IssueInputMetadata where
  "zero_IssueInputMetadata = \<lparr>ii_TokenID = None\<rparr>"

definition zero_IssueOutputMetadata :: IssueOutputMetadata where
  "zero_IssueOutputMetadata = \<lparr>io_OutputMetadata = [], io_OutputAuditInfo = [], io_Receivers = []\<rparr>"

definition zero_IssueMetadata :: IssueMetadata where
  "zero_IssueMetadata =
     \<lparr>im_Issuer = zero_AuditableIdentity, im_Inputs = [], im_Outputs = [], im_ExtraSigners = []\<rparr>"

definition IssueMetadata_ToProtos :: "IssueMetadata \<Rightarrow> meta_error + pb_IssueMetadata" where
  "IssueMetadata_ToProtos i =
     bind_sum (AuditableIdentity_ToProtos (im_Issuer i)) (\<lambda>issuer.
     bind_sum (ToProtosSlice IssueInputMetadata_ToProtos (im_Inputs i)) (\<lambda>inputs.
     bind_sum (ToProtosSlice IssueOutputMetadata_ToProtos (im_Outputs i)) (\<lambda>outputs.
     bind_sum (ToProtoAuditableIdentitySliceFromAuditable (im_ExtraSigners i)) (\<lambda>extraSigners.
       Inr \<lparr>pbim_Issuer = Some issuer, pbim_Inputs = inputs, pbim_Outputs = outputs,
            pbim_ExtraSigners = extraSigners\<rparr>))))"

definition IssueMetadata_FromProtos ::
  "IssueMetadata \<Rightarrow> pb_IssueMetadata \<Rightarrow> meta_error + IssueMetadata" where
  "IssueMetadata_FromProtos i m =
     bind_sum (AuditableIdentity_FromProtos (im_Issuer i) (pbim_Issuer m)) (\<lambda>issuer.
     bind_sum (wrap_err SliceFailed (FromProtosSlice IssueInputMetadata_FromProtos (pbim_Inputs m)
       (GenericSliceOfPointers zero_IssueInputMetadata (length (pbim_Inputs m))))) (\<lambda>inputs.
     bind_sum (wrap_err SliceFailed (FromProtosSlice (\<lambda>i m. IssueOutputMetadata_FromProtos i (Some m))
       (pbim_Outputs m)
       (GenericSliceOfPointers zero_IssueOutputMetadata (length (pbim_Outputs m))))) (\<lambda>outputs.
     bind_sum (FromProtoAuditableIdentitySliceToAuditable (pbim_ExtraSigners m)) (\<lambda>extraSigners.
       Inr (i\<lparr>im_Issuer := issuer, im_Inputs := inputs, im_Outputs := outputs,
              im_ExtraSigners := extraSigners\<rparr>)))))"

text \<open>The identities of a slice, \<open>nil\<close> for an absent entry.\<close>

definition slice_identities :: "AuditableIdentity option list \<Rightarrow> identity list" where
  "slice_identities rs = map (\<lambda>r. case r of None \<Rightarrow> None | Some a \<Rightarrow> ai_Identity a) rs"

definition IssueMetadata_Receivers :: "IssueMetadata \<Rightarrow> meta_error + identity list" where
  "IssueMetadata_Receivers i =
     fold_sum (\<lambda>output res. case output of
         None \<Rightarrow> Inl MetaNilDereference
       | Some out \<Rightarrow> Inr (res @ slice_identities (io_Receivers out))) (im_Outputs i) []"

definition IssueMetadata_IsOutputAbsent :: "IssueMetadata \<Rightarrow> int \<Rightarrow> bool" where
  "IssueMetadata_IsOutputAbsent i j =
     (if j < 0 \<or> j \<ge> int (length (im_Outputs i)) then True else im_Outputs i ! nat j = None)"

text \<open>An action as \<open>Match\<close> sees it.\<close>

record 'e action_view =
  av_Validate :: "'e + unit"
  av_NumInputs :: nat
  av_NumOutputs :: nat
  av_ExtraSigners :: "identity list"
  av_GetIssuer :: identity

datatype 'e match_error =
    ActionInvalid 'e
  | InputCount nat nat
  | OutputCount nat nat
  | ExtraSignerCount nat nat
  | ExtraSignerMismatch identity
  | IssuerMismatch identity identity

definition IssueMetadata_Match ::
  "(identity \<Rightarrow> identity \<Rightarrow> bool) \<Rightarrow> IssueMetadata \<Rightarrow> 'e action_view \<Rightarrow> 'e match_error + unit" where
  "IssueMetadata_Match Equal i action =
     bind_sum (wrap_err ActionInvalid (av_Validate action)) (\<lambda>_.
     bind_sum (check (length (im_Inputs i) = av_NumInputs action)
       (InputCount (length (im_Inputs i)) (av_NumInputs action))) (\<lambda>_.
     bind_sum (check (length (im_Outputs i) = av_NumOutputs action)
       (OutputCount (length (im_Outputs i)) (av_NumOutputs action))) (\<lambda>_.
     bind_sum (check (length (im_ExtraSigners i) = length (av_ExtraSigners action))
       (ExtraSignerCount (length (av_ExtraSigners action)) (length (im_ExtraSigners i)))) (\<lambda>_.
     bind_sum (fold_sum (\<lambda>signer _.
         check (list_ex (\<lambda>a. Equal signer (ai_Identity a)) (im_ExtraSigners i))
           (ExtraSignerMismatch signer)) (av_ExtraSigners action) ()) (\<lambda>_.
       check (Equal (ai_Identity (im_Issuer i)) (av_GetIssuer action))
         (IssuerMismatch (ai_Identity (im_Issuer i)) (av_GetIssuer action)))))))"

section \<open>Transfer metadata\<close>

record TransferInputMetadata =
  ti_TokenID :: "token_id option"
  ti_Senders :: "AuditableIdentity option list"

record TransferOutputMetadata =
  to_OutputMetadata :: bytes
  to_OutputAuditInfo :: bytes
  to_Receivers :: "AuditableIdentity option list"

record TransferMetadata =
  tm_Inputs :: "TransferInputMetadata option list"
  tm_Outputs :: "TransferOutputMetadata option list"
  tm_ExtraSigners :: "AuditableIdentity list"
  tm_Issuer :: AuditableIdentity

definition TransferInputMetadata_ToProtos ::
  "TransferInputMetadata \<Rightarrow> meta_error + pb_TransferInputMetadata" where
  "TransferInputMetadata_ToProtos t =
     bind_sum (identities_ToProtos (ti_Senders t)) (\<lambda>senders.
       Inr \<lparr>pbti_TokenId = ToTokenID_pb (ti_TokenID t), pbti_Senders = senders\<rparr>)"

definition TransferInputMetadata_FromProtos ::
  "TransferInputMetadata \<Rightarrow> pb_TransferInputMetadata option \<Rightarrow> meta_error + TransferInputMetadata" where
  "TransferInputMetadata_FromProtos t m =
     (case m of None \<Rightarrow> Inr t
      | Some m \<Rightarrow>
          bind_sum (identities_FromProtos (pbti_Senders m)) (\<lambda>senders.
            Inr (t\<lparr>ti_TokenID := ToTokenID (pbti_TokenId m), ti_Senders := senders\<rparr>)))"

definition TransferOutputMetadata_ToProtos ::
  "TransferOutputMetadata \<Rightarrow> meta_error + pb_OutputMetadata" where
  "TransferOutputMetadata_ToProtos t =
     bind_sum (identities_ToProtos (to_Receivers t)) (\<lambda>receivers.
       Inr \<lparr>pbom_Metadata = to_OutputMetadata t, pbom_AuditInfo = to_OutputAuditInfo t,
            pbom_Receivers = receivers\<rparr>)"

definition TransferOutputMetadata_FromProtos ::
  "TransferOutputMetadata \<Rightarrow> pb_OutputMetadata option \<Rightarrow> meta_error + TransferOutputMetadata" where
  "TransferOutputMetadata_FromProtos t m =
     (case m of None \<Rightarrow> Inr t
      | Some m \<Rightarrow>
          bind_sum (identities_FromProtos (pbom_Receivers m)) (\<lambda>receivers.
            Inr (t\<lparr>to_OutputMetadata := pbom_Metadata m, to_OutputAuditInfo := pbom_AuditInfo m,
                   to_Receivers := receivers\<rparr>)))"

definition TransferOutputMetadata_RecipientAt ::
  "TransferOutputMetadata \<Rightarrow> int \<Rightarrow> AuditableIdentity option" where
  "TransferOutputMetadata_RecipientAt t index =
     (if index < 0 \<or> index \<ge> int (length (to_Receivers t)) then None
      else to_Receivers t ! nat index)"

definition TransferMetadata_TokenIDAt :: "TransferMetadata \<Rightarrow> int \<Rightarrow> meta_error + token_id option" where
  "TransferMetadata_TokenIDAt t index =
     (if index < 0 \<or> index \<ge> int (length (tm_Inputs t)) then Inr None
      else case tm_Inputs t ! nat index of
             None \<Rightarrow> Inl MetaNilDereference
           | Some i \<Rightarrow> Inr (ti_TokenID i))"

definition zero_TransferInputMetadata :: TransferInputMetadata where
  "zero_TransferInputMetadata = \<lparr>ti_TokenID = None, ti_Senders = []\<rparr>"

definition zero_TransferOutputMetadata :: TransferOutputMetadata where
  "zero_TransferOutputMetadata = \<lparr>to_OutputMetadata = [], to_OutputAuditInfo = [], to_Receivers = []\<rparr>"

definition zero_TransferMetadata :: TransferMetadata where
  "zero_TransferMetadata =
     \<lparr>tm_Inputs = [], tm_Outputs = [], tm_ExtraSigners = [], tm_Issuer = zero_AuditableIdentity\<rparr>"

definition TransferMetadata_ToProtos :: "TransferMetadata \<Rightarrow> meta_error + pb_TransferMetadata" where
  "TransferMetadata_ToProtos t =
     bind_sum (ToProtosSlice TransferInputMetadata_ToProtos (tm_Inputs t)) (\<lambda>inputs.
     bind_sum (ToProtosSlice TransferOutputMetadata_ToProtos (tm_Outputs t)) (\<lambda>outputs.
     bind_sum (ToProtoAuditableIdentitySliceFromAuditable (tm_ExtraSigners t)) (\<lambda>extraSigners.
     bind_sum (if ai_Identity (tm_Issuer t) \<noteq> None
               then bind_sum (AuditableIdentity_ToProtos (tm_Issuer t)) (\<lambda>m. Inr (Some m))
               else Inr None) (\<lambda>issuer.
       Inr \<lparr>pbtm_Inputs = inputs, pbtm_Outputs = outputs, pbtm_Issuer = issuer,
            pbtm_ExtraSigners = extraSigners\<rparr>))))"

definition TransferMetadata_FromProtos ::
  "TransferMetadata \<Rightarrow> pb_TransferMetadata \<Rightarrow> meta_error + TransferMetadata" where
  "TransferMetadata_FromProtos t m =
     bind_sum (wrap_err SliceFailed (FromProtosSlice (\<lambda>t m. TransferInputMetadata_FromProtos t (Some m))
       (pbtm_Inputs m)
       (GenericSliceOfPointers zero_TransferInputMetadata (length (pbtm_Inputs m))))) (\<lambda>inputs.
     bind_sum (wrap_err SliceFailed (FromProtosSlice (\<lambda>t m. TransferOutputMetadata_FromProtos t (Some m))
       (pbtm_Outputs m)
       (GenericSliceOfPointers zero_TransferOutputMetadata (length (pbtm_Outputs m))))) (\<lambda>outputs.
     bind_sum (FromProtoAuditableIdentitySliceToAuditable (pbtm_ExtraSigners m)) (\<lambda>extraSigners.
     bind_sum (AuditableIdentity_FromProtos (tm_Issuer t) (pbtm_Issuer m)) (\<lambda>issuer.
       Inr (t\<lparr>tm_Inputs := inputs, tm_Outputs := outputs, tm_ExtraSigners := extraSigners,
              tm_Issuer := issuer\<rparr>)))))"

definition TransferMetadata_Receivers :: "TransferMetadata \<Rightarrow> meta_error + identity list" where
  "TransferMetadata_Receivers t =
     fold_sum (\<lambda>output res. case output of
         None \<Rightarrow> Inl MetaNilDereference
       | Some out \<Rightarrow> Inr (res @ slice_identities (to_Receivers out))) (tm_Outputs t) []"

definition TransferMetadata_Senders :: "TransferMetadata \<Rightarrow> meta_error + identity list" where
  "TransferMetadata_Senders t =
     fold_sum (\<lambda>input res. case input of
         None \<Rightarrow> Inl MetaNilDereference
       | Some i \<Rightarrow> Inr (res @ slice_identities (ti_Senders i))) (tm_Inputs t) []"

definition TransferMetadata_TokenIDs :: "TransferMetadata \<Rightarrow> token_id option list" where
  "TransferMetadata_TokenIDs t =
     concat (map (\<lambda>input. case input of None \<Rightarrow> [] | Some i \<Rightarrow> [ti_TokenID i]) (tm_Inputs t))"

definition TransferMetadata_Match ::
  "(identity \<Rightarrow> identity \<Rightarrow> bool) \<Rightarrow> TransferMetadata \<Rightarrow> 'e action_view \<Rightarrow> 'e match_error + unit" where
  "TransferMetadata_Match Equal t action =
     bind_sum (wrap_err ActionInvalid (av_Validate action)) (\<lambda>_.
     bind_sum (check (length (tm_Inputs t) = av_NumInputs action)
       (InputCount (length (tm_Inputs t)) (av_NumInputs action))) (\<lambda>_.
     bind_sum (check (length (tm_Outputs t) = av_NumOutputs action)
       (OutputCount (length (tm_Outputs t)) (av_NumOutputs action))) (\<lambda>_.
     bind_sum (check (length (tm_ExtraSigners t) = length (av_ExtraSigners action))
       (ExtraSignerCount (length (tm_ExtraSigners t)) (length (av_ExtraSigners action)))) (\<lambda>_.
     bind_sum (fold_sum (\<lambda>(signer, a) _.
         check (Equal signer (ai_Identity a)) (ExtraSignerMismatch signer))
         (zip (av_ExtraSigners action) (tm_ExtraSigners t)) ()) (\<lambda>_.
       check (Equal (ai_Identity (tm_Issuer t)) (av_GetIssuer action))
         (IssuerMismatch (ai_Identity (tm_Issuer t)) (av_GetIssuer action)))))))"

definition TransferMetadata_IsOutputAbsent :: "TransferMetadata \<Rightarrow> int \<Rightarrow> bool" where
  "TransferMetadata_IsOutputAbsent t j =
     (if j < 0 \<or> j \<ge> int (length (tm_Outputs t)) then True else tm_Outputs t ! nat j = None)"

definition TransferMetadata_IsInputAbsent :: "TransferMetadata \<Rightarrow> int \<Rightarrow> bool" where
  "TransferMetadata_IsInputAbsent t j =
     (if j < 0 \<or> j \<ge> int (length (tm_Inputs t)) then True
      else case tm_Inputs t ! nat j of None \<Rightarrow> True | Some i \<Rightarrow> ti_Senders i = [])"

section \<open>Request metadata\<close>

record ActionMetadataEntry =
  ame_ActionID :: u32
  ame_IssueMetadata :: "IssueMetadata option"
  ame_TransferMetadata :: "TransferMetadata option"

record TokenRequestMetadata =
  trm_Actions :: "ActionMetadataEntry option list"
  trm_Application :: "string \<rightharpoonup> bytes"

definition zero_TokenRequestMetadata :: TokenRequestMetadata where
  "zero_TokenRequestMetadata = \<lparr>trm_Actions = [], trm_Application = Map.empty\<rparr>"

text \<open>
  The loop of the indexed accessors: \<open>n\<close> counts the entries of the wanted kind seen so far. The
  error carries the final count.
\<close>

fun nth_metadata ::
  "(ActionMetadataEntry \<Rightarrow> 'm option) \<Rightarrow> int \<Rightarrow> nat \<Rightarrow> ActionMetadataEntry option list \<Rightarrow> meta_error + 'm" where
  "nth_metadata sel index n [] = Inl (IndexOutOfRange index n)"
| "nth_metadata sel index n (None # as) = Inl MetaNilDereference"
| "nth_metadata sel index n (Some a # as) =
     (case sel a of
        Some m \<Rightarrow> if int n = index then Inr m else nth_metadata sel index (n + 1) as
      | None \<Rightarrow> nth_metadata sel index n as)"

definition GetIssueMetadata :: "TokenRequestMetadata \<Rightarrow> int \<Rightarrow> meta_error + IssueMetadata" where
  "GetIssueMetadata m index = nth_metadata ame_IssueMetadata index 0 (trm_Actions m)"

definition GetTransferMetadata :: "TokenRequestMetadata \<Rightarrow> int \<Rightarrow> meta_error + TransferMetadata" where
  "GetTransferMetadata m index = nth_metadata ame_TransferMetadata index 0 (trm_Actions m)"

definition count_metadata ::
  "(ActionMetadataEntry \<Rightarrow> 'm option) \<Rightarrow> TokenRequestMetadata \<Rightarrow> meta_error + nat" where
  "count_metadata sel m =
     fold_sum (\<lambda>action n. case action of
         None \<Rightarrow> Inl MetaNilDereference
       | Some a \<Rightarrow> Inr (if sel a \<noteq> None then n + 1 else n)) (trm_Actions m) 0"

definition Metadata_NumIssues :: "TokenRequestMetadata \<Rightarrow> meta_error + nat" where
  "Metadata_NumIssues m = count_metadata ame_IssueMetadata m"

definition Metadata_NumTransfers :: "TokenRequestMetadata \<Rightarrow> meta_error + nat" where
  "Metadata_NumTransfers m = count_metadata ame_TransferMetadata m"

definition ActionMetadataEntry_ToProtos ::
  "ActionMetadataEntry option \<Rightarrow> meta_error + pb_ActionMetadata option" where
  "ActionMetadataEntry_ToProtos action =
     (case action of None \<Rightarrow> Inl NilActionMetadata
      | Some a \<Rightarrow>
          (case ame_IssueMetadata a of
             Some im \<Rightarrow>
               bind_sum (IssueMetadata_ToProtos im) (\<lambda>p.
                 Inr (Some \<lparr>pbam_ActionId = ame_ActionID a,
                            pbam_Metadata = Some (ActionMetadata_IssueMetadata (Some p))\<rparr>))
           | None \<Rightarrow>
               (case ame_TransferMetadata a of
                  Some tm \<Rightarrow>
                    bind_sum (TransferMetadata_ToProtos tm) (\<lambda>p.
                      Inr (Some \<lparr>pbam_ActionId = ame_ActionID a,
                                 pbam_Metadata = Some (ActionMetadata_TransferMetadata (Some p))\<rparr>))
                | None \<Rightarrow> Inl NoActionMetadata)))"

definition TokenRequestMetadata_ToProtos ::
  "TokenRequestMetadata \<Rightarrow> meta_error + pb_TokenRequestMetadata" where
  "TokenRequestMetadata_ToProtos m =
     bind_sum (map_sum_list ActionMetadataEntry_ToProtos (trm_Actions m)) (\<lambda>md.
       Inr \<lparr>pbrm_Version = ProtocolV1, pbrm_Metadata = md,
            pbrm_ApplicationMetadata = trm_Application m\<rparr>)"

definition ActionMetadataEntry_FromProtos ::
  "pb_ActionMetadata option \<Rightarrow> meta_error + ActionMetadataEntry option" where
  "ActionMetadataEntry_FromProtos meta =
     (case meta of None \<Rightarrow> Inl MetaNilDereference
      | Some meta \<Rightarrow>
          (case pb_GetIssueMetadata meta of
             Some im \<Rightarrow>
               bind_sum (IssueMetadata_FromProtos zero_IssueMetadata im) (\<lambda>i.
                 Inr (Some \<lparr>ame_ActionID = pbam_ActionId meta, ame_IssueMetadata = Some i,
                            ame_TransferMetadata = None\<rparr>))
           | None \<Rightarrow>
               (case pb_GetTransferMetadata meta of
                  Some tm \<Rightarrow>
                    bind_sum (TransferMetadata_FromProtos zero_TransferMetadata tm) (\<lambda>t.
                      Inr (Some \<lparr>ame_ActionID = pbam_ActionId meta, ame_IssueMetadata = None,
                                 ame_TransferMetadata = Some t\<rparr>))
                | None \<Rightarrow> Inl MetadataTypeNotRecognized)))"

definition TokenRequestMetadata_FromProtos ::
  "TokenRequestMetadata \<Rightarrow> pb_TokenRequestMetadata \<Rightarrow> meta_error + TokenRequestMetadata" where
  "TokenRequestMetadata_FromProtos m p =
     (if pbrm_Version p \<noteq> ProtocolV1 then Inl (InvalidMetadataVersion (pbrm_Version p))
      else bind_sum (map_sum_list ActionMetadataEntry_FromProtos (pbrm_Metadata p)) (\<lambda>as.
        Inr (m\<lparr>trm_Application := pbrm_ApplicationMetadata p, trm_Actions := as\<rparr>)))"

definition TokenRequestMetadata_Bytes ::
  "(pb_TokenRequestMetadata \<Rightarrow> bytes option) \<Rightarrow> TokenRequestMetadata \<Rightarrow> meta_error + bytes" where
  "TokenRequestMetadata_Bytes marshal m =
     bind_sum (TokenRequestMetadata_ToProtos m) (\<lambda>p.
       case marshal p of None \<Rightarrow> Inl MetaMarshalFailed | Some raw \<Rightarrow> Inr raw)"

definition TokenRequestMetadata_FromBytes ::
  "(bytes \<Rightarrow> pb_TokenRequestMetadata option) \<Rightarrow> TokenRequestMetadata \<Rightarrow> bytes \<Rightarrow>
   meta_error + TokenRequestMetadata" where
  "TokenRequestMetadata_FromBytes unmarshal m raw =
     (case unmarshal raw of
        None \<Rightarrow> Inl MetaUnmarshalFailed
      | Some p \<Rightarrow> TokenRequestMetadata_FromProtos m p)"

section \<open>Decoding inverts encoding\<close>

text \<open>
  The contract of a pair of conversions (\<open>ProtoSource\<close> and \<open>ProtoDestination\<close>): decoding into a
  fresh value what was encoded from a good one gives that one back. Slices inherit it.
\<close>

locale proto_pair =
  fixes to_pb :: "'s \<Rightarrow> 'e + 't" and from_pb :: "'s \<Rightarrow> 't \<Rightarrow> 'e + 's" and fresh :: 's and good :: "'s \<Rightarrow> bool"
  assumes pair_roundtrip: "good x \<Longrightarrow> \<exists>m. to_pb x = Inr m \<and> from_pb fresh m = Inr x"
begin

lemma slice_roundtrip:
  assumes "\<And>x. Some x \<in> set s \<Longrightarrow> good x"
  shows "\<exists>ms. ToProtosSlice to_pb s = Inr ms \<and>
    FromProtosSlice from_pb ms (GenericSliceOfPointers fresh (length ms)) = Inr s"
  using assms
proof (induction s)
  case Nil
  then show ?case by (simp add: ToProtosSlice_def FromProtosSlice_def GenericSliceOfPointers_def)
next
  case (Cons x s)
  then obtain ms where ms: "ToProtosSlice to_pb s = Inr ms"
    "FromProtosSlice from_pb ms (GenericSliceOfPointers fresh (length ms)) = Inr s"
    by (metis list.set_intros(2))
  show ?case
  proof (cases x)
    case None
    then show ?thesis
      using ms by (intro exI [of _ "None # ms"])
        (simp add: ToProtosSlice_def FromProtosSlice_def GenericSliceOfPointers_def)
  next
    case (Some a)
    then obtain m where "to_pb a = Inr m" "from_pb fresh m = Inr a"
      using pair_roundtrip Cons.prems by (metis list.set_intros(1))
    then show ?thesis
      using ms Some by (intro exI [of _ "Some m # ms"])
        (simp add: ToProtosSlice_def FromProtosSlice_def GenericSliceOfPointers_def)
  qed
qed

end

interpretation auditable: proto_pair AuditableIdentity_ToProtos
  "\<lambda>a m. AuditableIdentity_FromProtos a (Some m)" zero_AuditableIdentity "\<lambda>_. True"
  by unfold_locales
    (simp add: AuditableIdentity_ToProtos_def AuditableIdentity_FromProtos_def ToIdentity_def)

lemma identities_roundtrip:
  "\<exists>ms. identities_ToProtos s = Inr ms \<and> identities_FromProtos ms = Inr s"
  using auditable.slice_roundtrip [of s]
  by (auto simp: identities_ToProtos_def identities_FromProtos_def)

lemma token_id_roundtrip: "ToTokenID (ToTokenID_pb i) = i"
  by (cases i) (simp_all add: ToTokenID_def ToTokenID_pb_def)

lemma auditable_slice_roundtrip:
  "\<exists>ms. ToProtoAuditableIdentitySliceFromAuditable s = Inr ms \<and>
     FromProtoAuditableIdentitySliceToAuditable ms = Inr s"
  unfolding ToProtoAuditableIdentitySliceFromAuditable_def FromProtoAuditableIdentitySliceToAuditable_def
  by (rule map_sum_list_roundtrip)
    (simp add: AuditableIdentity_ToProtos_def AuditableIdentity_FromProtos_def ToIdentity_def)

interpretation issue_input: proto_pair IssueInputMetadata_ToProtos IssueInputMetadata_FromProtos
  zero_IssueInputMetadata "\<lambda>_. True"
  by unfold_locales (simp add: IssueInputMetadata_ToProtos_def IssueInputMetadata_FromProtos_def
      token_id_roundtrip)

interpretation issue_output: proto_pair IssueOutputMetadata_ToProtos
  "\<lambda>i m. IssueOutputMetadata_FromProtos i (Some m)" zero_IssueOutputMetadata "\<lambda>_. True"
proof
  fix x :: IssueOutputMetadata
  show "\<exists>m. IssueOutputMetadata_ToProtos x = Inr m \<and>
      IssueOutputMetadata_FromProtos zero_IssueOutputMetadata (Some m) = Inr x"
    using identities_roundtrip [of "io_Receivers x"]
    by (auto simp: IssueOutputMetadata_ToProtos_def IssueOutputMetadata_FromProtos_def)
qed

interpretation transfer_input: proto_pair TransferInputMetadata_ToProtos
  "\<lambda>i m. TransferInputMetadata_FromProtos i (Some m)" zero_TransferInputMetadata "\<lambda>_. True"
proof
  fix x :: TransferInputMetadata
  show "\<exists>m. TransferInputMetadata_ToProtos x = Inr m \<and>
      TransferInputMetadata_FromProtos zero_TransferInputMetadata (Some m) = Inr x"
    using identities_roundtrip [of "ti_Senders x"]
    by (auto simp: TransferInputMetadata_ToProtos_def TransferInputMetadata_FromProtos_def
        token_id_roundtrip)
qed

interpretation transfer_output: proto_pair TransferOutputMetadata_ToProtos
  "\<lambda>i m. TransferOutputMetadata_FromProtos i (Some m)" zero_TransferOutputMetadata "\<lambda>_. True"
proof
  fix x :: TransferOutputMetadata
  show "\<exists>m. TransferOutputMetadata_ToProtos x = Inr m \<and>
      TransferOutputMetadata_FromProtos zero_TransferOutputMetadata (Some m) = Inr x"
    using identities_roundtrip [of "to_Receivers x"]
    by (auto simp: TransferOutputMetadata_ToProtos_def TransferOutputMetadata_FromProtos_def)
qed

text \<open>An issuer without identity is not encoded, so its audit information must be empty.\<close>

definition wf_transfer_metadata :: "TransferMetadata \<Rightarrow> bool" where
  "wf_transfer_metadata t \<longleftrightarrow>
     ai_Identity (tm_Issuer t) = None \<longrightarrow> ai_AuditInfo (tm_Issuer t) = []"

interpretation issue_metadata: proto_pair IssueMetadata_ToProtos IssueMetadata_FromProtos
  zero_IssueMetadata "\<lambda>_. True"
proof
  fix x :: IssueMetadata
  show "\<exists>m. IssueMetadata_ToProtos x = Inr m \<and> IssueMetadata_FromProtos zero_IssueMetadata m = Inr x"
    using auditable.pair_roundtrip [of "im_Issuer x"] issue_input.slice_roundtrip [of "im_Inputs x"]
      issue_output.slice_roundtrip [of "im_Outputs x"]
      auditable_slice_roundtrip [of "im_ExtraSigners x"]
    by (auto simp: IssueMetadata_ToProtos_def IssueMetadata_FromProtos_def zero_IssueMetadata_def)
qed

interpretation transfer_metadata: proto_pair TransferMetadata_ToProtos TransferMetadata_FromProtos
  zero_TransferMetadata wf_transfer_metadata
proof
  fix x :: TransferMetadata
  assume wf: "wf_transfer_metadata x"
  let ?a = "tm_Issuer x"
  obtain i where "(if ai_Identity ?a \<noteq> None
        then bind_sum (AuditableIdentity_ToProtos ?a) (\<lambda>m. Inr (Some m)) else Inr None) = Inr i"
    "AuditableIdentity_FromProtos zero_AuditableIdentity i = Inr ?a"
  proof (cases "ai_Identity ?a = None")
    case True
    moreover have "AuditableIdentity_FromProtos zero_AuditableIdentity None = Inr ?a"
      using True wf by (cases ?a) (simp add: AuditableIdentity_FromProtos_def wf_transfer_metadata_def
          zero_AuditableIdentity_def)
    ultimately show ?thesis using that [of None] by simp
  next
    case False
    then show ?thesis using auditable.pair_roundtrip [of ?a] that by auto
  qed
  then show "\<exists>m. TransferMetadata_ToProtos x = Inr m \<and>
      TransferMetadata_FromProtos zero_TransferMetadata m = Inr x"
    using transfer_input.slice_roundtrip [of "tm_Inputs x"]
      transfer_output.slice_roundtrip [of "tm_Outputs x"]
      auditable_slice_roundtrip [of "tm_ExtraSigners x"]
    by (auto simp: TransferMetadata_ToProtos_def TransferMetadata_FromProtos_def
        zero_TransferMetadata_def)
qed

fun wf_entry :: "ActionMetadataEntry option \<Rightarrow> bool" where
  "wf_entry None = False"
| "wf_entry (Some a) =
     (case (ame_IssueMetadata a, ame_TransferMetadata a) of
        (Some _, None) \<Rightarrow> True
      | (None, Some t) \<Rightarrow> wf_transfer_metadata t
      | _ \<Rightarrow> False)"

lemma entry_roundtrip:
  assumes "wf_entry x"
  shows "\<exists>m. ActionMetadataEntry_ToProtos x = Inr m \<and> ActionMetadataEntry_FromProtos m = Inr x"
proof -
  from assms obtain a where x: "x = Some a" by (cases x) simp_all
  consider im where "ame_IssueMetadata a = Some im" "ame_TransferMetadata a = None"
    | tm where "ame_IssueMetadata a = None" "ame_TransferMetadata a = Some tm" "wf_transfer_metadata tm"
    using assms by (auto simp: x split: option.splits)
  then show ?thesis
  proof cases
    case 1
    then show ?thesis
      using issue_metadata.pair_roundtrip [of im]
      by (auto simp: x ActionMetadataEntry_ToProtos_def ActionMetadataEntry_FromProtos_def
          pb_GetIssueMetadata_def)
  next
    case 2
    then show ?thesis
      using transfer_metadata.pair_roundtrip [of tm]
      by (auto simp: x ActionMetadataEntry_ToProtos_def ActionMetadataEntry_FromProtos_def
          pb_GetIssueMetadata_def pb_GetTransferMetadata_def)
  qed
qed

lemma metadata_roundtrip_protos:
  assumes "list_all wf_entry (trm_Actions m)"
  shows "\<exists>p. TokenRequestMetadata_ToProtos m = Inr p \<and>
    TokenRequestMetadata_FromProtos zero_TokenRequestMetadata p = Inr m"
proof -
  obtain ps where "map_sum_list ActionMetadataEntry_ToProtos (trm_Actions m) = Inr ps"
    "map_sum_list ActionMetadataEntry_FromProtos ps = Inr (trm_Actions m)"
    using map_sum_list_roundtrip [of "trm_Actions m" ActionMetadataEntry_ToProtos
        ActionMetadataEntry_FromProtos] entry_roundtrip assms
    by (auto simp: list_all_iff)
  then show ?thesis
    by (simp add: TokenRequestMetadata_ToProtos_def TokenRequestMetadata_FromProtos_def
        zero_TokenRequestMetadata_def)
qed


definition example_metadata :: TokenRequestMetadata where
  "example_metadata =
     \<lparr>trm_Actions =
        [Some \<lparr>ame_ActionID = 0,
               ame_IssueMetadata = Some \<lparr>im_Issuer = \<lparr>ai_Identity = Some [1], ai_AuditInfo = [2]\<rparr>,
                 im_Inputs = [], im_Outputs = [None], im_ExtraSigners = []\<rparr>,
               ame_TransferMetadata = None\<rparr>,
         Some \<lparr>ame_ActionID = 1, ame_IssueMetadata = None,
               ame_TransferMetadata = Some zero_TransferMetadata\<rparr>],
      trm_Application = Map.empty\<rparr>"

definition example_metadata_pb :: pb_TokenRequestMetadata where
  "example_metadata_pb = projr (TokenRequestMetadata_ToProtos example_metadata)"

lemma example_metadata_wf: "list_all wf_entry (trm_Actions example_metadata)"
  by (simp add: example_metadata_def zero_TransferMetadata_def zero_AuditableIdentity_def
      wf_transfer_metadata_def)


section \<open>Indexed access\<close>

definition issues_of :: "TokenRequestMetadata \<Rightarrow> IssueMetadata list" where
  "issues_of m = List.map_filter (\<lambda>a. Option.bind a ame_IssueMetadata) (trm_Actions m)"

definition transfers_of :: "TokenRequestMetadata \<Rightarrow> TransferMetadata list" where
  "transfers_of m = List.map_filter (\<lambda>a. Option.bind a ame_TransferMetadata) (trm_Actions m)"

lemma nth_metadata_filter:
  assumes "None \<notin> set as"
  shows "nth_metadata sel index n as =
    (let ms = List.map_filter (\<lambda>a. Option.bind a sel) as in
     if int n \<le> index \<and> index < int (n + length ms) then Inr (ms ! nat (index - int n))
     else Inl (IndexOutOfRange index (n + length ms)))"
  using assms
proof (induction sel index n as rule: nth_metadata.induct)
  case (3 sel index n a as)
  let ?ms = "List.map_filter (\<lambda>a. Option.bind a sel) as"
  show ?case
  proof (cases "sel a")
    case None
    with 3 show ?thesis by (simp add: List.map_filter_simps)
  next
    case (Some m)
    then have cons: "List.map_filter (\<lambda>a. Option.bind a sel) (Some a # as) = m # ?ms"
      by (simp add: List.map_filter_simps)
    show ?thesis
    proof (cases "int n = index")
      case True
      then show ?thesis unfolding cons by (simp add: Some)
    next
      case False
      then have "nat (index - int n) = Suc (nat (index - int (n + 1)))" if "int n \<le> index"
        using that by linarith
      then show ?thesis
        using 3(2) [OF Some False] 3(3) False unfolding cons by (auto simp: Some Let_def)
    qed
  qed
qed (simp_all add: List.map_filter_simps)

lemma count_metadata_filter:
  assumes "None \<notin> set as"
  shows "fold_sum (\<lambda>action n. case action of
       None \<Rightarrow> Inl MetaNilDereference
     | Some a \<Rightarrow> Inr (if sel a \<noteq> None then n + 1 else n)) as n =
    Inr (n + length (List.map_filter (\<lambda>a. Option.bind a sel) as))"
  using assms
proof (induction as arbitrary: n)
  case (Cons a as)
  then show ?case by (cases a) (auto simp: List.map_filter_simps)
qed (simp add: List.map_filter_simps)

text \<open>
  C29: On metadata without nil entries the accessors are the list operations they stand for:
  \<open>GetIssueMetadata\<close> returns the entry at an index among the issues only, \<open>NumIssues\<close> their
  number, and an index is refused, with the number of issues, exactly when it is out of range; the
  same holds for transfers.
\<close>

theorem metadata_accessors:
  assumes "None \<notin> set (trm_Actions m)"
  shows "Metadata_NumIssues m = Inr (length (issues_of m)) \<and>
    Metadata_NumTransfers m = Inr (length (transfers_of m)) \<and>
    GetIssueMetadata m i =
      (if 0 \<le> i \<and> i < int (length (issues_of m)) then Inr (issues_of m ! nat i)
       else Inl (IndexOutOfRange i (length (issues_of m)))) \<and>
    GetTransferMetadata m i =
      (if 0 \<le> i \<and> i < int (length (transfers_of m)) then Inr (transfers_of m ! nat i)
       else Inl (IndexOutOfRange i (length (transfers_of m))))"
  unfolding Metadata_NumIssues_def Metadata_NumTransfers_def count_metadata_def
    GetIssueMetadata_def GetTransferMetadata_def issues_of_def transfers_of_def
    count_metadata_filter [OF assms] nth_metadata_filter [OF assms] Let_def
  by simp

theorem metadata_accessors_witness:
  "Metadata_NumIssues example_metadata = Inr 1 \<and>
   GetTransferMetadata example_metadata 0 = Inr zero_TransferMetadata \<and>
   GetIssueMetadata example_metadata 1 = Inl (IndexOutOfRange 1 1)"
proof -
  have nn: "None \<notin> set (trm_Actions example_metadata)" by (simp add: example_metadata_def)
  have "issues_of example_metadata = [\<lparr>im_Issuer = \<lparr>ai_Identity = Some [1], ai_AuditInfo = [2]\<rparr>,
                 im_Inputs = [], im_Outputs = [None], im_ExtraSigners = []\<rparr>]"
    "transfers_of example_metadata = [zero_TransferMetadata]"
    by (simp_all add: issues_of_def transfers_of_def example_metadata_def List.map_filter_simps)
  then show ?thesis
    using metadata_accessors [OF nn, of 0] metadata_accessors [OF nn, of 1] by simp
qed

end
