(* ===== verification/Validator.thy ===== *)
theory Validator
  imports Request Limits "HOL-Library.AList"
begin

text \<open>
  The driver-independent validator (\<open>src/token/core/common/validator.go\<close>, \<open>backend.go\<close>,
  \<open>limits.go\<close>, \<open>validator_auditing.go\<close>, \<open>validator_issue.go\<close>, \<open>validator_transfer.go\<close>):
  resource limits, the scoping of signatures to actions, the pipeline of driver validators and the
  bookkeeping of metadata keys.

  A validation function takes the nesting budget (the part of the \<open>context.Context\<close> that is
  read) and the validation context, and returns an error or the updated context. A signature
  backend is passed by pointer in the code; here the functions return it with its cursor moved.
  Public parameters, actions, tokens and the driver's errors are type variables. What the
  platform and the driver provide (identity comparison, deserialization of verifiers, the
  auditors of the public parameters) is a record of functions. A verifier is a function of message
  and signature.

  Metadata maps are association lists in the order of iteration, which Go leaves open. Logging is
  dropped.
\<close>

section \<open>Standard library: JSON of a slice of byte slices\<close>

definition base64_char :: "nat \<Rightarrow> char" where
  "base64_char d =
     ''ABCDEFGHIJKLMNOPQRSTUVWXYZabcdefghijklmnopqrstuvwxyz0123456789+/'' ! d"

fun base64_encode :: "bytes \<Rightarrow> string" where
  "base64_encode (a # b # c # bs) =
     (let n = unat a * 65536 + unat b * 256 + unat c in
      [base64_char (n div 262144), base64_char (n div 4096 mod 64),
       base64_char (n div 64 mod 64), base64_char (n mod 64)] @ base64_encode bs)"
| "base64_encode [a, b] =
     (let n = unat a * 65536 + unat b * 256 in
      [base64_char (n div 262144), base64_char (n div 4096 mod 64),
       base64_char (n div 64 mod 64), CHR ''=''])"
| "base64_encode [a] =
     (let n = unat a * 65536 in
      [base64_char (n div 262144), base64_char (n div 4096 mod 64), CHR ''='', CHR ''=''])"
| "base64_encode [] = []"

fun join_comma :: "string list \<Rightarrow> string" where
  "join_comma [] = []"
| "join_comma [s] = s"
| "join_comma (s # ss) = s @ '','' @ join_comma ss"

definition json_Marshal_slices :: "bytes list \<Rightarrow> bytes" where
  "json_Marshal_slices bss =
     bytes_of_string
       (''['' @ join_comma (map (\<lambda>b. [CHR 0x22] @ base64_encode b @ [CHR 0x22]) bss) @ '']'')"

section \<open>Errors and signature backends\<close>

datatype 'e v_error =
    EmptyTokenRequest
  | ErrRequestTooLarge int
  | RequestError req_error
  | ErrInvalidVersion
  | ErrVersionBelowMinimum u32 u32
  | ErrNoActions
  | ErrNilTokenRequest
  | ErrNilActionDeserializer
  | ErrNilAction
  | ErrNilSignatureProvider
  | ErrActionSignatureIDOutOfRange u32 nat
  | ErrTooManyActions int
  | ErrTooManySignatures int
  | ErrActionTooLarge nat int
  | ErrSignatureTooLarge nat int
  | UnknownTypeAt ActionType nat
  | ActionCountMismatch nat nat nat nat
  | MetadataKeyRepeated string
  | MetadataNotValidated nat nat
  | ErrUnconsumedSignatures nat nat
  | ErrNilSignatureVerifier
  | InsufficientSignatures
  | NilBackend
  | LedgerNotAvailable
  | ErrAuditorSignaturesMissing
  | ErrAuditorSignaturesPresent
  | AuditorNotInAuditors identity
  | DriverError 'e

type_synonym 'e verifier = "bytes \<Rightarrow> bytes \<Rightarrow> 'e + unit"

type_synonym 'e get_state = "token_id \<Rightarrow> 'e + bytes"

record 'e Backend =
  be_Ledger :: "'e get_state option"
  be_Message :: bytes
  be_Cursor :: nat
  be_Sigs :: "bytes list"

definition NewBackend :: "'e get_state option \<Rightarrow> bytes \<Rightarrow> bytes list \<Rightarrow> 'e Backend" where
  "NewBackend ledger message sigs =
     \<lparr>be_Ledger = ledger, be_Message = message, be_Cursor = 0, be_Sigs = sigs\<rparr>"

definition HasBeenSignedBy ::
  "'e Backend option \<Rightarrow> 'e verifier option \<Rightarrow> 'e v_error + bytes \<times> 'e Backend" where
  "HasBeenSignedBy b verifier =
     (case b of
        None \<Rightarrow> Inl NilBackend
      | Some b \<Rightarrow>
          if be_Cursor b \<ge> length (be_Sigs b) then Inl InsufficientSignatures
          else (case verifier of
             None \<Rightarrow> Inl ErrNilSignatureVerifier
           | Some verify \<Rightarrow>
               (let sigma = be_Sigs b ! be_Cursor b; b = b\<lparr>be_Cursor := be_Cursor b + 1\<rparr> in
                bind_sum (wrap_err DriverError (verify (be_Message b) sigma)) (\<lambda>_. Inr (sigma, b)))))"

definition Backend_GetState :: "'e Backend option \<Rightarrow> token_id \<Rightarrow> 'e v_error + bytes" where
  "Backend_GetState b tid =
     (case b of
        None \<Rightarrow> Inl LedgerNotAvailable
      | Some b \<Rightarrow>
          (case be_Ledger b of
             None \<Rightarrow> Inl LedgerNotAvailable
           | Some get \<Rightarrow> wrap_err DriverError (get tid)))"

definition Backend_Signatures :: "'e Backend option \<Rightarrow> bytes list" where
  "Backend_Signatures b = (case b of None \<Rightarrow> [] | Some b \<Rightarrow> be_Sigs b)"

definition EnsureExhausted :: "'e Backend option \<Rightarrow> 'e v_error + unit" where
  "EnsureExhausted b =
     (case b of
        None \<Rightarrow> Inl NilBackend
      | Some b \<Rightarrow>
          if be_Cursor b \<noteq> length (be_Sigs b)
          then Inl (ErrUnconsumedSignatures (be_Cursor b) (length (be_Sigs b))) else Inr ())"

section \<open>Validators\<close>

type_synonym metadata = "(string \<times> bytes) list"
type_synonym counters = "(string \<times> nat) list"
type_synonym attributes = "string \<rightharpoonup> bytes"

record ('pp, 'tok, 'ta, 'ia, 'e) Context =
  ctx_PP :: 'pp
  ctx_Anchor :: string
  ctx_TokenRequest :: TokenRequest
  ctx_SignatureProvider :: "'e Backend option"
  ctx_Signatures :: "bytes list"
  ctx_InputTokens :: "'tok list"
  ctx_TransferAction :: "'ta option"
  ctx_IssueAction :: "'ia option"
  ctx_Ledger :: "'e Backend option"
  ctx_MetadataCounter :: counters
  ctx_Attributes :: attributes

definition count_key :: "string \<Rightarrow> counters \<Rightarrow> counters" where
  "count_key k m = AList.update k ((case map_of m k of None \<Rightarrow> 0 | Some n \<Rightarrow> n) + 1) m"

definition CountMetadataKey ::
  "string \<Rightarrow> ('pp, 'tok, 'ta, 'ia, 'e) Context \<Rightarrow> ('pp, 'tok, 'ta, 'ia, 'e) Context" where
  "CountMetadataKey k ctx = ctx\<lparr>ctx_MetadataCounter := count_key k (ctx_MetadataCounter ctx)\<rparr>"

type_synonym ('pp, 'tok, 'ta, 'ia, 'e) validate_func =
  "nesting_ctx \<Rightarrow> ('pp, 'tok, 'ta, 'ia, 'e) Context \<Rightarrow> 'e v_error + ('pp, 'tok, 'ta, 'ia, 'e) Context"

text \<open>What the actions of a driver tell the validator: their metadata.\<close>

record ('ta, 'ia) action_ops =
  ta_GetMetadata :: "'ta \<Rightarrow> metadata"
  ia_GetMetadata :: "'ia \<Rightarrow> metadata"

record ('pp, 'tok, 'ta, 'ia, 'e) Validator =
  v_PublicParams :: 'pp
  v_ActionDeserializer :: "(TokenRequest \<Rightarrow> 'e v_error + 'ia option list \<times> 'ta option list) option"
  v_AuditingValidators :: "('pp, 'tok, 'ta, 'ia, 'e) validate_func list"
  v_TransferValidators :: "('pp, 'tok, 'ta, 'ia, 'e) validate_func list"
  v_IssueValidators :: "('pp, 'tok, 'ta, 'ia, 'e) validate_func list"
  v_Limits :: ResourceLimits
  v_MinProtocolVersion :: u32
  v_ops :: "('ta, 'ia) action_ops"

definition withIdentityNestingLimits ::
  "('pp, 'tok, 'ta, 'ia, 'e) Validator \<Rightarrow> nesting_ctx \<Rightarrow> nesting_ctx" where
  "withIdentityNestingLimits v ctx =
     WithIdentityNestingLimits ctx (MaxIdentityDepth (v_Limits v)) (MaxIdentityComponents (v_Limits v))"

definition CheckRawRequestSize ::
  "('pp, 'tok, 'ta, 'ia, 'e) Validator \<Rightarrow> bytes \<Rightarrow> 'e v_error + unit" where
  "CheckRawRequestSize v raw =
     (if int (length raw) > MaxRequestBytes (v_Limits v)
      then Inl (ErrRequestTooLarge (MaxRequestBytes (v_Limits v))) else Inr ())"

definition check_action_size :: "int \<Rightarrow> nat \<times> TypedAction option \<Rightarrow> 'e v_error + unit" where
  "check_action_size m ia =
     (case ia of
        (i, None) \<Rightarrow> Inr ()
      | (i, Some a) \<Rightarrow> if int (length (ta_Raw a)) > m then Inl (ErrActionTooLarge i m) else Inr ())"

definition check_signature_size :: "int \<Rightarrow> nat \<times> RequestSignature option \<Rightarrow> 'e v_error + unit" where
  "check_signature_size m is =
     (case is of
        (i, None) \<Rightarrow> Inr ()
      | (i, Some s) \<Rightarrow>
          if (case rs_Action s of Some a \<Rightarrow> int (length (as_Signature a)) > m | None \<Rightarrow> False) \<or>
             (case rs_Auditor s of Some a \<Rightarrow> int (length (au_Signature a)) > m | None \<Rightarrow> False)
          then Inl (ErrSignatureTooLarge i m) else Inr ())"

definition CheckRequestLimits ::
  "('pp, 'tok, 'ta, 'ia, 'e) Validator \<Rightarrow> TokenRequest option \<Rightarrow> 'e v_error + unit" where
  "CheckRequestLimits v tr =
     (case tr of None \<Rightarrow> Inl ErrNilTokenRequest
      | Some tr \<Rightarrow>
          let l = v_Limits v in
          if int (length (tr_Actions tr)) > MaxActions l then Inl (ErrTooManyActions (MaxActions l))
          else if int (length (tr_Signatures tr)) > MaxSignatures l
            then Inl (ErrTooManySignatures (MaxSignatures l))
          else bind_sum (fold_sum (\<lambda>ia _. check_action_size (MaxActionBytes l) ia)
                 (enumerate 0 (tr_Actions tr)) ()) (\<lambda>_.
               fold_sum (\<lambda>is _. check_signature_size (MaxSignatureBytes l) is)
                 (enumerate 0 (tr_Signatures tr)) ()))"

text \<open>
  The validation of one context: the driver's functions in order, then, for an action, the check
  that every metadata key was validated exactly once.
\<close>

definition run_validators ::
  "nesting_ctx \<Rightarrow> ('pp, 'tok, 'ta, 'ia, 'e) validate_func list \<Rightarrow> ('pp, 'tok, 'ta, 'ia, 'e) Context \<Rightarrow>
   'e v_error + ('pp, 'tok, 'ta, 'ia, 'e) Context" where
  "run_validators c vs ctx = fold_sum (\<lambda>v ctx. v c ctx) vs ctx"

definition check_counters :: "metadata \<Rightarrow> counters \<Rightarrow> 'e v_error + unit" where
  "check_counters md m =
     bind_sum (fold_sum (\<lambda>(k, c) counter.
         if c > 1 then Inl (MetadataKeyRepeated k) else Inr (counter + c)) m 0) (\<lambda>counter.
       if length md \<noteq> counter then Inl (MetadataNotValidated (length md) counter) else Inr ())"

definition new_context ::
  "'pp \<Rightarrow> string \<Rightarrow> TokenRequest \<Rightarrow> 'e Backend option \<Rightarrow> 'e Backend option \<Rightarrow> attributes \<Rightarrow>
   'ta option \<Rightarrow> 'ia option \<Rightarrow> ('pp, 'tok, 'ta, 'ia, 'e) Context" where
  "new_context pp anchor tr ledger provider attrs ta ia =
     \<lparr>ctx_PP = pp, ctx_Anchor = anchor, ctx_TokenRequest = tr, ctx_SignatureProvider = provider,
      ctx_Signatures = [], ctx_InputTokens = [], ctx_TransferAction = ta, ctx_IssueAction = ia,
      ctx_Ledger = ledger, ctx_MetadataCounter = [], ctx_Attributes = attrs\<rparr>"

definition VerifyIssue ::
  "('pp, 'tok, 'ta, 'ia, 'e) Validator \<Rightarrow> nesting_ctx \<Rightarrow> string \<Rightarrow> TokenRequest \<Rightarrow> 'ia option \<Rightarrow>
   'e Backend option \<Rightarrow> 'e Backend option \<Rightarrow> attributes \<Rightarrow> 'e v_error + 'e Backend option \<times> attributes" where
  "VerifyIssue v c anchor tr action ledger provider attrs =
     (case action of None \<Rightarrow> Inl ErrNilAction
      | Some a \<Rightarrow>
          bind_sum (run_validators c (v_IssueValidators v)
             (new_context (v_PublicParams v) anchor tr ledger provider attrs None (Some a))) (\<lambda>ctx.
          bind_sum (check_counters (ia_GetMetadata (v_ops v) a) (ctx_MetadataCounter ctx)) (\<lambda>_.
            Inr (ctx_SignatureProvider ctx, ctx_Attributes ctx))))"

definition VerifyTransfer ::
  "('pp, 'tok, 'ta, 'ia, 'e) Validator \<Rightarrow> nesting_ctx \<Rightarrow> string \<Rightarrow> TokenRequest \<Rightarrow> 'ta option \<Rightarrow>
   'e Backend option \<Rightarrow> 'e Backend option \<Rightarrow> attributes \<Rightarrow> 'e v_error + 'e Backend option \<times> attributes" where
  "VerifyTransfer v c anchor tr action ledger provider attrs =
     (case action of None \<Rightarrow> Inl ErrNilAction
      | Some a \<Rightarrow>
          bind_sum (run_validators c (v_TransferValidators v)
             (new_context (v_PublicParams v) anchor tr ledger provider attrs (Some a) None)) (\<lambda>ctx.
          bind_sum (check_counters (ta_GetMetadata (v_ops v) a) (ctx_MetadataCounter ctx)) (\<lambda>_.
            Inr (ctx_SignatureProvider ctx, ctx_Attributes ctx))))"

definition VerifyAuditing ::
  "('pp, 'tok, 'ta, 'ia, 'e) Validator \<Rightarrow> nesting_ctx \<Rightarrow> string \<Rightarrow> TokenRequest option \<Rightarrow>
   'e Backend option \<Rightarrow> 'e Backend option \<Rightarrow> attributes \<Rightarrow> 'e v_error + 'e Backend option \<times> attributes" where
  "VerifyAuditing v c anchor tr ledger provider attrs =
     (case tr of None \<Rightarrow> Inl ErrNilTokenRequest
      | Some tr \<Rightarrow>
          bind_sum (run_validators c (v_AuditingValidators v)
             (new_context (v_PublicParams v) anchor tr ledger provider attrs None None)) (\<lambda>ctx.
            Inr (ctx_SignatureProvider ctx, ctx_Attributes ctx)))"

definition IsAnyNil :: "'a option list \<Rightarrow> bool" where
  "IsAnyNil args = list_ex (\<lambda>a. a = None) args"

section \<open>Actions in request order\<close>

record ('ta, 'ia) deserializedAction =
  da_index :: nat
  da_actionID :: u32
  da_typeID :: ActionType
  da_issue :: "'ia option"
  da_transfer :: "'ta option"

text \<open>The value the validator returns for an action: the issue or the transfer.\<close>

definition da_value :: "('ta, 'ia) deserializedAction \<Rightarrow> 'ia option + 'ta option" where
  "da_value a = (if da_typeID a = ACTION_TYPE_ISSUE then Inl (da_issue a) else Inr (da_transfer a))"

text \<open>
  The loop over the request's actions: \<open>ii\<close> and \<open>ti\<close> are the positions reached among the issues
  and the transfers.
\<close>

fun order_actions ::
  "'ia option list \<Rightarrow> 'ta option list \<Rightarrow> nat \<Rightarrow> nat \<Rightarrow> nat \<Rightarrow> TypedAction option list \<Rightarrow>
   'e v_error + ('ta, 'ia) deserializedAction list \<times> nat \<times> nat" where
  "order_actions issues transfers ii ti index [] = Inr ([], ii, ti)"
| "order_actions issues transfers ii ti index (ta # tas) =
     (case ta of
        None \<Rightarrow> Inl ErrNilAction
      | Some typed \<Rightarrow>
          if ta_Type typed = ACTION_TYPE_ISSUE then
            (if ii \<ge> length issues \<or> issues ! ii = None then Inl ErrNilAction
             else bind_sum (order_actions issues transfers (ii + 1) ti (index + 1) tas) (\<lambda>(as, r).
               Inr (\<lparr>da_index = index, da_actionID = of_nat index, da_typeID = ta_Type typed,
                     da_issue = issues ! ii, da_transfer = None\<rparr> # as, r)))
          else if ta_Type typed = ACTION_TYPE_TRANSFER then
            (if ti \<ge> length transfers \<or> transfers ! ti = None then Inl ErrNilAction
             else bind_sum (order_actions issues transfers ii (ti + 1) (index + 1) tas) (\<lambda>(as, r).
               Inr (\<lparr>da_index = index, da_actionID = of_nat index, da_typeID = ta_Type typed,
                     da_issue = None, da_transfer = transfers ! ti\<rparr> # as, r)))
          else Inl (UnknownTypeAt (ta_Type typed) index))"

definition deserializeActionsInRequestOrder ::
  "('pp, 'tok, 'ta, 'ia, 'e) Validator \<Rightarrow> TokenRequest option \<Rightarrow>
   'e v_error + ('ta, 'ia) deserializedAction list" where
  "deserializeActionsInRequestOrder v tr =
     (case tr of None \<Rightarrow> Inl ErrNilTokenRequest
      | Some tr \<Rightarrow>
          (case v_ActionDeserializer v of None \<Rightarrow> Inl ErrNilActionDeserializer
           | Some DeserializeActions \<Rightarrow>
               bind_sum (DeserializeActions tr) (\<lambda>(issues, transfers).
               bind_sum (order_actions issues transfers 0 0 0 (tr_Actions tr)) (\<lambda>(actions, ii, ti).
                 if ii \<noteq> length issues \<or> ti \<noteq> length transfers
                 then Inl (ActionCountMismatch ii (length issues) ti (length transfers))
                 else Inr actions))))"

definition verifyDeserializedAction ::
  "('pp, 'tok, 'ta, 'ia, 'e) Validator \<Rightarrow> nesting_ctx \<Rightarrow> string \<Rightarrow> TokenRequest \<Rightarrow>
   'e Backend option \<Rightarrow> 'e Backend option \<Rightarrow> ('ta, 'ia) deserializedAction \<Rightarrow> attributes \<Rightarrow>
   'e v_error + 'e Backend option \<times> attributes" where
  "verifyDeserializedAction v c anchor tr ledger provider action attrs =
     (if da_typeID action = ACTION_TYPE_ISSUE
      then VerifyIssue v c anchor tr (da_issue action) ledger provider attrs
      else if da_typeID action = ACTION_TYPE_TRANSFER
      then VerifyTransfer v c anchor tr (da_transfer action) ledger provider attrs
      else Inl (UnknownTypeAt (da_typeID action) (da_index action)))"

section \<open>Requests\<close>

definition verifyTokenRequestWithScopedSignatures ::
  "('pp, 'tok, 'ta, 'ia, 'e) Validator \<Rightarrow> nesting_ctx \<Rightarrow> 'e Backend option \<Rightarrow> 'e Backend option \<Rightarrow>
   (u32 \<rightharpoonup> 'e Backend) \<Rightarrow> string \<Rightarrow> TokenRequest \<Rightarrow> attributes \<Rightarrow>
   'e v_error + ('ia option + 'ta option) list \<times> attributes" where
  "verifyTokenRequestWithScopedSignatures v c ledger auditorProvider actionProviders anchor tr attrs =
     bind_sum (VerifyAuditing v c anchor (Some tr) ledger auditorProvider attrs) (\<lambda>(auditorProvider, attrs).
     bind_sum (EnsureExhausted auditorProvider) (\<lambda>_.
     bind_sum (deserializeActionsInRequestOrder v (Some tr)) (\<lambda>actions.
       fold_sum (\<lambda>action (res, attrs).
         let provider = (case actionProviders (da_actionID action) of
                           None \<Rightarrow> NewBackend None [] [] | Some b \<Rightarrow> b) in
         bind_sum (verifyDeserializedAction v c anchor tr ledger (Some provider) action attrs)
           (\<lambda>(provider, attrs).
             bind_sum (EnsureExhausted provider) (\<lambda>_. Inr (res @ [da_value action], attrs))))
         actions ([], attrs))))"

definition VerifyTokenRequest ::
  "('pp, 'tok, 'ta, 'ia, 'e) Validator \<Rightarrow> nesting_ctx \<Rightarrow> 'e Backend option \<Rightarrow> 'e Backend option \<Rightarrow>
   string \<Rightarrow> TokenRequest option \<Rightarrow> attributes \<Rightarrow>
   'e v_error + ('ia option + 'ta option) list \<times> attributes" where
  "VerifyTokenRequest v c ledger provider anchor tr attrs =
     (case tr of None \<Rightarrow> Inl ErrNilTokenRequest
      | Some r \<Rightarrow>
          if v_ActionDeserializer v = None then Inl ErrNilActionDeserializer
          else let c = withIdentityNestingLimits v c in
            bind_sum (VerifyAuditing v c anchor tr ledger provider attrs) (\<lambda>(provider, attrs).
            bind_sum (deserializeActionsInRequestOrder v tr) (\<lambda>actions.
            bind_sum (fold_sum (\<lambda>action (res, provider, attrs).
                bind_sum (verifyDeserializedAction v c anchor r ledger provider action attrs)
                  (\<lambda>(provider, attrs). Inr (res @ [da_value action], provider, attrs)))
                actions ([], provider, attrs)) (\<lambda>(res, _, attrs).
              Inr (res, attrs)))))"

text \<open>
  The loop that splits the signatures: auditor signatures, action signatures, and the action
  signatures of each action.
\<close>

definition split_signature ::
  "nat \<Rightarrow> RequestSignature option \<Rightarrow> bytes list \<times> bytes list \<times> (u32 \<Rightarrow> bytes list) \<Rightarrow>
   'e v_error + bytes list \<times> bytes list \<times> (u32 \<Rightarrow> bytes list)" where
  "split_signature n sig st =
     (case st of (auditorSignatures, actionSignatures, byID) \<Rightarrow>
        (case sig of
           None \<Rightarrow> Inr st
         | Some s \<Rightarrow>
             (case rs_Auditor s of
                Some a \<Rightarrow> Inr (auditorSignatures @ [au_Signature a], actionSignatures, byID)
              | None \<Rightarrow>
                  (case rs_Action s of
                     None \<Rightarrow> Inr st
                   | Some a \<Rightarrow>
                       if unat (as_ActionID a) \<ge> n
                       then Inl (ErrActionSignatureIDOutOfRange (as_ActionID a) n)
                       else Inr (auditorSignatures, actionSignatures @ [as_Signature a],
                                 byID(as_ActionID a := byID (as_ActionID a) @ [as_Signature a]))))))"

definition TokenRequestToSign :: string where "TokenRequestToSign = ''trs''"
definition TokenRequestSignatures :: string where "TokenRequestSignatures = ''sigs''"

definition VerifyTokenRequestFromRaw ::
  "(bytes \<Rightarrow> pb_TokenRequest option) \<Rightarrow> ('pp, 'tok, 'ta, 'ia, 'e) Validator \<Rightarrow> nesting_ctx \<Rightarrow>
   'e get_state \<Rightarrow> string \<Rightarrow> bytes \<Rightarrow>
   'e v_error + ('ia option + 'ta option) list \<times> attributes" where
  "VerifyTokenRequestFromRaw unmarshal v c getState anchor raw =
     (if raw = [] then Inl EmptyTokenRequest
      else let c = withIdentityNestingLimits v c in
        bind_sum (CheckRawRequestSize v raw) (\<lambda>_.
        bind_sum (wrap_err RequestError (TokenRequest_FromBytes unmarshal zero_TokenRequest raw)) (\<lambda>tr.
        if tr_Version tr = 0 then Inl ErrInvalidVersion
        else if v_MinProtocolVersion v > 0 \<and> tr_Version tr < v_MinProtocolVersion v
          then Inl (ErrVersionBelowMinimum (tr_Version tr) (v_MinProtocolVersion v))
        else if tr_Actions tr = [] then Inl ErrNoActions
        else
        bind_sum (CheckRequestLimits v (Some tr)) (\<lambda>_.
        bind_sum (wrap_err RequestError (MarshalToMessageToSign tr (bytes_of_string anchor))) (\<lambda>signed.
        bind_sum (fold_sum (split_signature (length (tr_Actions tr))) (tr_Signatures tr)
                    ([], [], \<lambda>_. [])) (\<lambda>(auditorSignatures, actionSignatures, byID).
          let attributes = Map.empty(TokenRequestToSign \<mapsto> signed,
                TokenRequestSignatures \<mapsto> json_Marshal_slices (auditorSignatures @ actionSignatures));
              ledger = NewBackend (Some getState) signed [];
              auditorProvider = NewBackend None signed auditorSignatures;
              actionProviders = fold (\<lambda>i m. m(of_nat i \<mapsto> NewBackend None signed (byID (of_nat i))))
                [0..<length (tr_Actions tr)] Map.empty
          in verifyTokenRequestWithScopedSignatures v c (Some ledger) (Some auditorProvider)
               actionProviders anchor tr attributes))))))"

definition UnmarshalActions ::
  "(bytes \<Rightarrow> pb_TokenRequest option) \<Rightarrow> ('pp, 'tok, 'ta, 'ia, 'e) Validator \<Rightarrow> bytes \<Rightarrow>
   'e v_error + ('ia option + 'ta option) list" where
  "UnmarshalActions unmarshal v raw =
     bind_sum (wrap_err RequestError (TokenRequest_FromBytes unmarshal zero_TokenRequest raw)) (\<lambda>tr.
     if v_ActionDeserializer v = None then Inl ErrNilActionDeserializer
     else bind_sum (deserializeActionsInRequestOrder v (Some tr)) (\<lambda>actions.
       Inr (map da_value actions)))"

section \<open>Validation functions shared by the drivers\<close>

definition PublicMetadataPrefix :: string where "PublicMetadataPrefix = ''pub.''"

definition HasPrefix :: "string \<Rightarrow> string \<Rightarrow> bool" where
  "HasPrefix s p = (take (length p) s = p)"

definition count_public_keys ::
  "metadata \<Rightarrow> ('pp, 'tok, 'ta, 'ia, 'e) Context \<Rightarrow> ('pp, 'tok, 'ta, 'ia, 'e) Context" where
  "count_public_keys md ctx =
     fold (\<lambda>(key, _) ctx. if HasPrefix key PublicMetadataPrefix then CountMetadataKey key ctx else ctx)
       md ctx"

definition IssueApplicationDataValidate ::
  "('ia \<Rightarrow> metadata) \<Rightarrow> ('pp, 'tok, 'ta, 'ia, 'e) validate_func" where
  "IssueApplicationDataValidate GetMetadata c ctx =
     (case ctx_IssueAction ctx of
        None \<Rightarrow> Inl (RequestError NilDereference)
      | Some a \<Rightarrow> Inr (count_public_keys (GetMetadata a) ctx))"

definition TransferApplicationDataValidate ::
  "('ta \<Rightarrow> metadata) \<Rightarrow> ('pp, 'tok, 'ta, 'ia, 'e) validate_func" where
  "TransferApplicationDataValidate GetMetadata c ctx =
     (case ctx_TransferAction ctx of
        None \<Rightarrow> Inl (RequestError NilDereference)
      | Some a \<Rightarrow> Inr (count_public_keys (GetMetadata a) ctx))"

text \<open>What the platform and the driver provide to the validation functions.\<close>

record ('pp, 'e) validator_env =
  env_Equal :: "identity \<Rightarrow> identity \<Rightarrow> bool"
  env_IsNone :: "identity \<Rightarrow> bool"
  env_Auditors :: "'pp \<Rightarrow> identity list"
  env_GetAuditorVerifier :: "nesting_ctx \<Rightarrow> identity \<Rightarrow> 'e + 'e verifier option"
  env_GetOwnerVerifier :: "nesting_ctx \<Rightarrow> identity \<Rightarrow> 'e + 'e verifier option"
  env_GetIssuerVerifier :: "nesting_ctx \<Rightarrow> identity \<Rightarrow> 'e + 'e verifier option"

definition auditor_signatures :: "TokenRequest \<Rightarrow> AuditorSignature list" where
  "auditor_signatures tr =
     concat (map (\<lambda>s. case s of
        None \<Rightarrow> []
      | Some s \<Rightarrow> (case rs_Auditor s of None \<Rightarrow> [] | Some a \<Rightarrow> [a])) (tr_Signatures tr))"

definition audit_signature ::
  "('pp, 'e) validator_env \<Rightarrow> nesting_ctx \<Rightarrow> identity list \<Rightarrow> AuditorSignature \<Rightarrow>
   ('pp, 'tok, 'ta, 'ia, 'e) Context \<Rightarrow> 'e v_error + ('pp, 'tok, 'ta, 'ia, 'e) Context" where
  "audit_signature E c auditors s ctx =
     (if \<not> list_ex (env_Equal E (au_Identity s)) auditors
      then Inl (AuditorNotInAuditors (au_Identity s))
      else bind_sum (wrap_err DriverError (env_GetAuditorVerifier E c (au_Identity s))) (\<lambda>verifier.
        if ctx_SignatureProvider ctx = None then Inl ErrNilSignatureProvider
        else bind_sum (HasBeenSignedBy (ctx_SignatureProvider ctx) verifier) (\<lambda>(_, b).
          Inr (ctx\<lparr>ctx_SignatureProvider := Some b\<rparr>))))"

definition AuditingSignaturesValidate ::
  "('pp, 'e) validator_env \<Rightarrow> ('pp, 'tok, 'ta, 'ia, 'e) validate_func" where
  "AuditingSignaturesValidate E c ctx =
     (let sigs = auditor_signatures (ctx_TokenRequest ctx); auditors = env_Auditors E (ctx_PP ctx) in
      if auditors = [] then (if sigs \<noteq> [] then Inl ErrAuditorSignaturesPresent else Inr ctx)
      else if sigs = [] then Inl ErrAuditorSignaturesMissing
      else fold_sum (audit_signature E c auditors) sigs ctx)"

section \<open>Metadata keys are validated exactly once\<close>

definition counters_ok :: "counters \<Rightarrow> bool" where
  "counters_ok m \<longleftrightarrow> distinct (map fst m) \<and> (\<forall>c\<in>set (map snd m). 0 < c)"

lemma counters_ok_Nil [simp]: "counters_ok []"
  by (simp add: counters_ok_def)

lemma count_key_ok:
  assumes "counters_ok m"
  shows "counters_ok (count_key k m)"
proof -
  have "set (map snd (AList.update k v m)) \<subseteq> insert v (set (map snd m))" for v
    by (induction m) auto
  then show ?thesis
    using assms by (fastforce simp: counters_ok_def count_key_def distinct_update)
qed

lemma count_key_keys: "fst ` set (count_key k m) = insert k (fst ` set m)"
  by (simp add: count_key_def dom_update)

lemma check_counters_sum:
  fixes m :: counters
  shows "fold_sum (\<lambda>(k, c) counter. if c > 1 then Inl (MetadataKeyRepeated k) else Inr (counter + c)) m n =
     Inr s \<longleftrightarrow> s = n + sum_list (map snd m) \<and> (\<forall>c\<in>set (map snd m). c \<le> 1)"
  by (induction m arbitrary: n) (auto simp: sum_elims split: if_splits)

lemma check_counters_exact:
  assumes "check_counters md m = Inr u" and "counters_ok m"
    and "fst ` set m \<subseteq> fst ` set md" and "distinct (map fst md)"
  shows "fst ` set m = fst ` set md" and "\<forall>c\<in>set (map snd m). c = 1"
proof -
  have le: "\<forall>c\<in>set (map snd m). c \<le> 1" and len: "length md = sum_list (map snd m)"
    using assms(1) unfolding check_counters_def bind_sum_eq_Inr check_counters_sum
    by (auto split: if_splits)
  have one: "\<forall>c\<in>set (map snd m). c = 1"
  proof
    fix c assume "c \<in> set (map snd m)"
    then have "c \<le> 1" "0 < c" using le assms(2) by (auto simp: counters_ok_def)
    then show "c = 1" by simp
  qed
  have "map snd m = replicate (length m) 1"
    using one by (intro replicate_eqI) auto
  then have "length md = length m" using len by (simp add: sum_list_replicate)
  moreover have "card (fst ` set m) = length m" "card (fst ` set md) = length md"
    using assms(2,4) distinct_card [of "map fst m"] distinct_card [of "map fst md"]
    by (auto simp: counters_ok_def)
  ultimately show "fst ` set m = fst ` set md"
    using assms(3) by (intro card_subset_eq) auto
  show "\<forall>c\<in>set (map snd m). c = 1" by (rule one)
qed

lemma count_public_keys_counter:
  "ctx_MetadataCounter (count_public_keys md ctx) =
     fold (\<lambda>(k, _) m. if HasPrefix k PublicMetadataPrefix then count_key k m else m) md
       (ctx_MetadataCounter ctx)"
  unfolding count_public_keys_def
  by (induction md arbitrary: ctx) (auto simp: CountMetadataKey_def)

lemma count_public_keys_frame:
  "ctx_SignatureProvider (count_public_keys md ctx) = ctx_SignatureProvider ctx"
  "ctx_Attributes (count_public_keys md ctx) = ctx_Attributes ctx"
  unfolding count_public_keys_def
  by (induction md arbitrary: ctx) (auto simp: CountMetadataKey_def)

lemma count_public_keys_ok:
  assumes "counters_ok (ctx_MetadataCounter ctx)"
  shows "counters_ok (ctx_MetadataCounter (count_public_keys md ctx))"
    and "fst ` set (ctx_MetadataCounter (count_public_keys md ctx)) =
      fst ` set (ctx_MetadataCounter ctx) \<union> {k \<in> fst ` set md. HasPrefix k PublicMetadataPrefix}"
proof -
  let ?f = "\<lambda>(k, _ :: bytes) m. if HasPrefix k PublicMetadataPrefix then count_key k m else m"
  have "counters_ok m \<Longrightarrow> counters_ok (fold ?f md m) \<and>
      fst ` set (fold ?f md m) = fst ` set m \<union> {k \<in> fst ` set md. HasPrefix k PublicMetadataPrefix}" for m
  proof (induction md arbitrary: m)
    case (Cons kv md)
    show ?case
    proof (cases "HasPrefix (fst kv) PublicMetadataPrefix")
      case True
      then show ?thesis
        using Cons.IH [OF count_key_ok [OF Cons.prems, of "fst kv"]]
        by (auto simp: case_prod_beta count_key_keys)
    next
      case False
      then show ?thesis using Cons.IH [OF Cons.prems] by (auto simp: case_prod_beta)
    qed
  qed simp
  then show "counters_ok (ctx_MetadataCounter (count_public_keys md ctx))"
    "fst ` set (ctx_MetadataCounter (count_public_keys md ctx)) =
      fst ` set (ctx_MetadataCounter ctx) \<union> {k \<in> fst ` set md. HasPrefix k PublicMetadataPrefix}"
    using assms by (simp_all add: count_public_keys_counter)
qed

section \<open>Signatures are scoped to their action\<close>

lemma HasBeenSignedBy_ok:
  "HasBeenSignedBy b verifier = Inr (sigma, b') \<longleftrightarrow>
     (\<exists>b0 verify. b = Some b0 \<and> verifier = Some verify \<and> be_Cursor b0 < length (be_Sigs b0) \<and>
        sigma = be_Sigs b0 ! be_Cursor b0 \<and> verify (be_Message b0) sigma = Inr () \<and>
        b' = b0\<lparr>be_Cursor := be_Cursor b0 + 1\<rparr>)"
  by (auto simp: HasBeenSignedBy_def Let_def sum_elims split: option.splits if_splits)

lemma EnsureExhausted_ok:
  "EnsureExhausted b = Inr u \<longleftrightarrow> (\<exists>b0. b = Some b0 \<and> be_Cursor b0 = length (be_Sigs b0))"
  by (auto simp: EnsureExhausted_def split: option.splits)

text \<open>The signatures a request carries for one action, in order.\<close>

definition action_signatures :: "RequestSignature option list \<Rightarrow> u32 \<Rightarrow> bytes list" where
  "action_signatures ss i =
     concat (map (\<lambda>s. case s of
        None \<Rightarrow> []
      | Some s \<Rightarrow>
          (case (rs_Auditor s, rs_Action s) of
             (None, Some a) \<Rightarrow> if as_ActionID a = i then [as_Signature a] else []
           | _ \<Rightarrow> [])) ss)"

lemma action_signatures_simps:
  "action_signatures [] i = []"
  "action_signatures (s # ss) i = action_signatures [s] i @ action_signatures ss i"
  by (simp_all add: action_signatures_def)

definition auditors_signing :: "RequestSignature option list \<Rightarrow> AuditorSignature list" where
  "auditors_signing ss =
     auditor_signatures \<lparr>tr_Version = 0, tr_Actions = [], tr_Signatures = ss\<rparr>"

lemma auditors_signing_simps:
  "auditors_signing [] = []"
  "auditors_signing (s # ss) = auditors_signing [s] @ auditors_signing ss"
  "auditor_signatures tr = auditors_signing (tr_Signatures tr)"
  by (simp_all add: auditor_signatures_def auditors_signing_def)

lemma split_signature_step:
  assumes "split_signature n s (aud, act, byID) = Inr (aud', act', byID')"
  shows "byID' i = byID i @ action_signatures [s] i \<and> aud' = aud @ map au_Signature (auditors_signing [s])"
  using assms
  by (auto simp: split_signature_def action_signatures_def auditors_signing_def auditor_signatures_def
      split: option.splits if_splits)

lemma split_signatures:
  assumes "fold_sum (split_signature n) ss (aud, act, byID) = (Inr (aud', act', byID') :: 'e v_error + _)"
  shows "byID' i = byID i @ action_signatures ss i \<and> aud' = aud @ map au_Signature (auditors_signing ss)"
  using assms
proof (induction ss arbitrary: aud act byID)
  case (Cons s ss)
  from Cons.prems obtain st where s: "split_signature n s (aud, act, byID) = (Inr st :: 'e v_error + _)"
    and rest: "fold_sum (split_signature n) ss st = (Inr (aud', act', byID') :: 'e v_error + _)"
    by (auto simp: bind_sum_eq_Inr)
  obtain a1 c1 b1 where st: "st = (a1, c1, b1)" by (cases st)
  show ?case
    using Cons.IH [OF rest [unfolded st]] split_signature_step [OF s [unfolded st], of i]
      action_signatures_simps(2) [of s ss i] auditors_signing_simps(2) [of s ss] by simp
qed (simp add: action_signatures_simps auditors_signing_simps)

lemma provider_map:
  fixes P :: "u32 \<Rightarrow> 'b"
  assumes "i < n"
  shows "fold (\<lambda>i m. m(of_nat i \<mapsto> P (of_nat i))) [0..<n] Map.empty (of_nat i :: u32) = Some (P (of_nat i))"
proof -
  have "fold (\<lambda>i m. m(of_nat i \<mapsto> P (of_nat i))) xs m k =
      (if k \<in> set (map of_nat xs) then Some (P k) else m k)" for xs m and k :: u32
    by (induction xs arbitrary: m) auto
  then show ?thesis using assms by auto
qed

section \<open>Actions keep the order of the request\<close>

text \<open>What the validator works on when every action decodes: the action at its position.\<close>

definition ordered_action ::
  "(TypedAction \<Rightarrow> 'ia) \<Rightarrow> (TypedAction \<Rightarrow> 'ta) \<Rightarrow> nat \<times> TypedAction \<Rightarrow> ('ta, 'ia) deserializedAction" where
  "ordered_action di dt ia =
     (case ia of (i, a) \<Rightarrow>
        if ta_Type a = ACTION_TYPE_ISSUE
        then \<lparr>da_index = i, da_actionID = of_nat i, da_typeID = ta_Type a,
              da_issue = Some (di a), da_transfer = None\<rparr>
        else \<lparr>da_index = i, da_actionID = of_nat i, da_typeID = ta_Type a,
              da_issue = None, da_transfer = Some (dt a)\<rparr>)"

definition known_type :: "TypedAction \<Rightarrow> bool" where
  "known_type a \<longleftrightarrow> ta_Type a = ACTION_TYPE_ISSUE \<or> ta_Type a = ACTION_TYPE_TRANSFER"

definition is_issue :: "TypedAction \<Rightarrow> bool" where
  "is_issue a \<longleftrightarrow> ta_Type a = ACTION_TYPE_ISSUE"

definition is_transfer :: "TypedAction \<Rightarrow> bool" where
  "is_transfer a \<longleftrightarrow> ta_Type a = ACTION_TYPE_TRANSFER"

lemma action_types_differ [simp]:
  "ACTION_TYPE_TRANSFER \<noteq> ACTION_TYPE_ISSUE" "ACTION_TYPE_ISSUE \<noteq> ACTION_TYPE_TRANSFER"
  by (simp_all add: action_type_defs)

lemma order_actions_decoded:
  assumes "\<forall>a\<in>set as. known_type a"
  shows "order_actions (pi @ map (\<lambda>a. Some (di a)) (filter is_issue as))
      (pt @ map (\<lambda>a. Some (dt a)) (filter is_transfer as)) (length pi) (length pt) n (map Some as) =
    Inr (map (ordered_action di dt) (enumerate n as),
      length pi + length (filter is_issue as), length pt + length (filter is_transfer as))"
  using assms
proof (induction as arbitrary: pi pt n)
  case (Cons a as)
  show ?case
  proof (cases "is_issue a")
    case True
    then have nt: "\<not> is_transfer a" by (simp add: is_issue_def is_transfer_def)
    show ?thesis
      using Cons.IH [of "pi @ [Some (di a)]" pt "Suc n"] Cons.prems True nt
      by (simp add: is_issue_def ordered_action_def nth_append)
  next
    case False
    then have tr: "is_transfer a" "ta_Type a \<noteq> ACTION_TYPE_ISSUE" "ta_Type a = ACTION_TYPE_TRANSFER"
      using Cons.prems by (auto simp: known_type_def is_issue_def is_transfer_def)
    show ?thesis
      using Cons.IH [of pi "pt @ [Some (dt a)]" "Suc n"] Cons.prems False tr
      by (simp add: ordered_action_def nth_append)
  qed
qed simp

lemma deserialize_in_order:
  assumes "\<forall>a\<in>set as. known_type a" and "tr_Actions tr = map Some as"
    and "v_ActionDeserializer v = Some D"
    and "D tr = Inr (map (\<lambda>a. Some (di a)) (filter is_issue as), map (\<lambda>a. Some (dt a)) (filter is_transfer as))"
  shows "deserializeActionsInRequestOrder v (Some tr) = Inr (map (ordered_action di dt) (enumerate 0 as))"
  by (simp add: deserializeActionsInRequestOrder_def assms(2-4)
      order_actions_decoded [OF assms(1), where pi = "[]" and pt = "[]", simplified])

section \<open>What an accepted request went through\<close>

lemma wf_request_actions:
  assumes "wf_request tr"
  obtains as where "tr_Actions tr = map Some as" and "\<forall>a\<in>set as. known_type a"
proof -
  have "xs = map Some (map the xs) \<and> (\<forall>a\<in>set (map the xs). known_type a)"
    if "list_all wf_action xs" for xs
    using that by (induction xs) (auto simp: known_type_def elim!: wf_action.elims)
  then show ?thesis
    using assms that [of "map the (tr_Actions tr)"] by (auto simp: wf_request_def)
qed

lemma order_actions_Cons:
  assumes "order_actions issues transfers ii ti n (t # tas) = (Inr (ds, r) :: 'e v_error + _)"
  shows "\<exists>d0 ds' ii' ti'. ds = d0 # ds' \<and> da_actionID d0 = of_nat n \<and>
    order_actions issues transfers ii' ti' (n + 1) tas = (Inr (ds', r) :: 'e v_error + _)"
proof -
  obtain ty where t: "t = Some ty" using assms by (cases t) auto
  show ?thesis
  proof (cases "ta_Type ty = ACTION_TYPE_ISSUE")
    case True
    with assms obtain ds' where "order_actions issues transfers (ii + 1) ti (n + 1) tas = (Inr (ds', r) :: 'e v_error + _)"
      "ds = \<lparr>da_index = n, da_actionID = of_nat n, da_typeID = ta_Type ty,
        da_issue = issues ! ii, da_transfer = None\<rparr> # ds'"
      by (auto simp: t bind_sum_eq_Inr split: if_splits)
    then show ?thesis by (metis deserializedAction.select_convs(2))
  next
    case False
    with assms obtain ds' where "order_actions issues transfers ii (ti + 1) (n + 1) tas = (Inr (ds', r) :: 'e v_error + _)"
      "ds = \<lparr>da_index = n, da_actionID = of_nat n, da_typeID = ta_Type ty,
        da_issue = None, da_transfer = transfers ! ti\<rparr> # ds'"
      by (auto simp: t bind_sum_eq_Inr split: if_splits)
    then show ?thesis by (metis deserializedAction.select_convs(2))
  qed
qed

lemma order_actions_ids:
  assumes "order_actions issues transfers ii ti n tas = (Inr (ds, r) :: 'e v_error + _)" and "d \<in> set ds"
  shows "\<exists>i<length tas. da_actionID d = of_nat (n + i)"
  using assms
proof (induction tas arbitrary: ii ti n ds)
  case (Cons t tas)
  from order_actions_Cons [OF Cons.prems(1)] obtain d0 ds' ii' ti' where
    ds: "ds = d0 # ds'" "da_actionID d0 = of_nat n" and
    rest: "order_actions issues transfers ii' ti' (n + 1) tas = (Inr (ds', r) :: 'e v_error + _)"
    by blast
  show ?case
  proof (cases "d = d0")
    case True
    then show ?thesis using ds by (intro exI [of _ 0]) simp
  next
    case False
    then obtain i where "i < length tas" "da_actionID d = of_nat (n + 1 + i)"
      using Cons.IH [OF rest] Cons.prems(2) ds by auto
    then show ?thesis by (intro exI [of _ "Suc i"]) simp
  qed
qed simp

definition scoped_step ::
  "('pp, 'tok, 'ta, 'ia, 'e) Validator \<Rightarrow> nesting_ctx \<Rightarrow> string \<Rightarrow> TokenRequest \<Rightarrow> 'e Backend option \<Rightarrow>
   (u32 \<rightharpoonup> 'e Backend) \<Rightarrow> ('ta, 'ia) deserializedAction \<Rightarrow>
   ('ia option + 'ta option) list \<times> attributes \<Rightarrow> 'e v_error + ('ia option + 'ta option) list \<times> attributes" where
  "scoped_step v c anchor tr ledger providers action st =
     (case st of (res, attrs) \<Rightarrow>
        let provider = (case providers (da_actionID action) of
                          None \<Rightarrow> NewBackend None [] [] | Some b \<Rightarrow> b) in
        bind_sum (verifyDeserializedAction v c anchor tr ledger (Some provider) action attrs)
          (\<lambda>(provider, attrs).
            bind_sum (EnsureExhausted provider) (\<lambda>_. Inr (res @ [da_value action], attrs))))"

text \<open>The action was verified with the given provider, and the provider was used up.\<close>

definition verified_with ::
  "('pp, 'tok, 'ta, 'ia, 'e) Validator \<Rightarrow> nesting_ctx \<Rightarrow> string \<Rightarrow> TokenRequest \<Rightarrow> 'e Backend option \<Rightarrow>
   'e Backend \<Rightarrow> ('ta, 'ia) deserializedAction \<Rightarrow> bool" where
  "verified_with v c anchor tr ledger b action \<longleftrightarrow>
     (\<exists>attrs attrs' b'. verifyDeserializedAction v c anchor tr ledger (Some b) action attrs =
        Inr (Some b', attrs') \<and> be_Cursor b' = length (be_Sigs b'))"

lemma scoped_loop:
  assumes "fold_sum (scoped_step v c anchor tr ledger providers) ds (res, attrs) = Inr (res', attrs')"
  shows "res' = res @ map da_value ds \<and>
    (\<forall>d\<in>set ds. verified_with v c anchor tr ledger
      (case providers (da_actionID d) of None \<Rightarrow> NewBackend None [] [] | Some b \<Rightarrow> b) d)"
  using assms
proof (induction ds arbitrary: res attrs)
  case (Cons d ds)
  then obtain res1 attrs1 where
    step: "scoped_step v c anchor tr ledger providers d (res, attrs) = Inr (res1, attrs1)" and
    rest: "fold_sum (scoped_step v c anchor tr ledger providers) ds (res1, attrs1) = Inr (res', attrs')"
    by (auto simp: bind_sum_eq_Inr)
  have "res1 = res @ [da_value d] \<and> verified_with v c anchor tr ledger
      (case providers (da_actionID d) of None \<Rightarrow> NewBackend None [] [] | Some b \<Rightarrow> b) d"
    using step by (fastforce simp: scoped_step_def verified_with_def Let_def bind_sum_eq_Inr
        EnsureExhausted_ok)
  then show ?case using Cons.IH [OF rest] by simp
qed simp

lemma accepted_request:
  fixes v :: "('pp, 'tok, 'ta, 'ia, 'e) Validator"
  assumes "VerifyTokenRequestFromRaw unmarshal v c getState anchor raw = Inr (res, attrs)"
  obtains tr signed ds where
    "TokenRequest_FromBytes unmarshal zero_TokenRequest raw = Inr tr" and "wf_request tr"
    and "tr_Actions tr \<noteq> []"
    and "CheckRawRequestSize v raw = Inr ()" and "CheckRequestLimits v (Some tr) = Inr ()"
    and "MarshalToMessageToSign tr (bytes_of_string anchor) = Inr signed"
    and "\<exists>a0 a1 b'. VerifyAuditing v (withIdentityNestingLimits v c) anchor (Some tr)
      (Some (NewBackend (Some getState) signed []))
      (Some (NewBackend None signed (map au_Signature (auditor_signatures tr)))) a0 = Inr (Some b', a1) \<and>
      be_Cursor b' = length (be_Sigs b')"
    and "deserializeActionsInRequestOrder v (Some tr) = Inr ds" and "res = map da_value ds"
    and "\<forall>d\<in>set ds. verified_with v (withIdentityNestingLimits v c) anchor tr
      (Some (NewBackend (Some getState) signed []))
      (NewBackend None signed (action_signatures (tr_Signatures tr) (da_actionID d))) d"
proof -
  let ?c = "withIdentityNestingLimits v c"
  from assms obtain tr where size: "CheckRawRequestSize v raw = Inr ()"
    and tr: "TokenRequest_FromBytes unmarshal zero_TokenRequest raw = Inr tr"
    and ne: "tr_Actions tr \<noteq> []" and lim: "CheckRequestLimits v (Some tr) = Inr ()"
    by (auto simp: VerifyTokenRequestFromRaw_def bind_sum_eq_Inr wrap_err_eq_Inr Let_def split: if_splits)
  obtain signed auds acts byID where
    sg: "MarshalToMessageToSign tr (bytes_of_string anchor) = Inr signed" and
    sp: "fold_sum (split_signature (length (tr_Actions tr))) (tr_Signatures tr) ([], [], \<lambda>_. []) =
      (Inr (auds, acts, byID) :: 'e v_error + _)" and
    run: "verifyTokenRequestWithScopedSignatures v ?c (Some (NewBackend (Some getState) signed []))
      (Some (NewBackend None signed auds))
      (fold (\<lambda>i m. m(of_nat i \<mapsto> NewBackend None signed (byID (of_nat i))))
        [0..<length (tr_Actions tr)] Map.empty) anchor tr
      (Map.empty(TokenRequestToSign \<mapsto> signed,
        TokenRequestSignatures \<mapsto> json_Marshal_slices (auds @ acts))) = Inr (res, attrs)"
    using assms tr ne lim size
    by (auto simp: VerifyTokenRequestFromRaw_def bind_sum_eq_Inr wrap_err_eq_Inr Let_def split: if_splits)
  have by_id: "byID i = action_signatures (tr_Signatures tr) i"
    and auds: "auds = map au_Signature (auditor_signatures tr)" for i
    using split_signatures [OF sp, of i] by (simp_all add: auditors_signing_simps(3))
  obtain p a1 ds where
    aud: "VerifyAuditing v ?c anchor (Some tr) (Some (NewBackend (Some getState) signed []))
      (Some (NewBackend None signed auds)) (Map.empty(TokenRequestToSign \<mapsto> signed,
        TokenRequestSignatures \<mapsto> json_Marshal_slices (auds @ acts))) = Inr (p, a1)" and
    ex: "EnsureExhausted p = Inr ()" and ds: "deserializeActionsInRequestOrder v (Some tr) = Inr ds" and
    loop: "fold_sum (scoped_step v ?c anchor tr (Some (NewBackend (Some getState) signed []))
      (fold (\<lambda>i m. m(of_nat i \<mapsto> NewBackend None signed (byID (of_nat i))))
        [0..<length (tr_Actions tr)] Map.empty)) ds ([], a1) = Inr (res, attrs)"
    using run
    by (auto simp: verifyTokenRequestWithScopedSignatures_def bind_sum_eq_Inr scoped_step_def [abs_def])
  have wf: "wf_request tr"
    using tr decoded_request_wf by (auto simp: TokenRequest_FromBytes_def split: option.splits)
  have ids: "\<exists>i<length (tr_Actions tr). da_actionID d = of_nat i" if d: "d \<in> set ds" for d
  proof -
    from ds obtain issues transfers r where
      "order_actions issues transfers 0 0 0 (tr_Actions tr) = (Inr (ds, r) :: 'e v_error + _)"
      by (auto simp: deserializeActionsInRequestOrder_def bind_sum_eq_Inr split: option.splits if_splits)
    from order_actions_ids [OF this d] show ?thesis by simp
  qed
  define providers where "providers = fold (\<lambda>i m. m(of_nat i \<mapsto> NewBackend (None :: 'e get_state option) signed (byID (of_nat i))))
        [0..<length (tr_Actions tr)] (Map.empty :: u32 \<rightharpoonup> 'e Backend)"
  have all: "verified_with v ?c anchor tr (Some (NewBackend (Some getState) signed []))
      (case providers (da_actionID d) of None \<Rightarrow> NewBackend None [] [] | Some b \<Rightarrow> b) d" if "d \<in> set ds" for d
    using scoped_loop [OF loop] that unfolding providers_def by blast
  show ?thesis
  proof (rule that [OF tr wf ne size lim sg _ ds])
    show "\<exists>a0 a1 b'. VerifyAuditing v ?c anchor (Some tr) (Some (NewBackend (Some getState) signed []))
      (Some (NewBackend None signed (map au_Signature (auditor_signatures tr)))) a0 = Inr (Some b', a1) \<and>
      be_Cursor b' = length (be_Sigs b')"
      using aud ex by (auto simp: auds EnsureExhausted_ok)
    show "res = map da_value ds" using scoped_loop [OF loop] by simp
    show "\<forall>d\<in>set ds. verified_with v ?c anchor tr (Some (NewBackend (Some getState) signed []))
      (NewBackend None signed (action_signatures (tr_Signatures tr) (da_actionID d))) d"
    proof
      fix d assume d: "d \<in> set ds"
      with ids obtain i where i: "i < length (tr_Actions tr)" "da_actionID d = of_nat i" by blast
      have "providers (da_actionID d) = Some (NewBackend None signed (byID (da_actionID d)))"
        unfolding i(2) providers_def by (rule provider_map [OF i(1)])
      then show "verified_with v ?c anchor tr (Some (NewBackend (Some getState) signed []))
          (NewBackend None signed (action_signatures (tr_Signatures tr) (da_actionID d))) d"
        using all [OF d] by (simp add: by_id)
    qed
  qed
qed


text \<open>The action at a position of the result is the one at that position of the request.\<close>

lemma order_actions_positions:
  assumes "order_actions issues transfers ii ti n tas = (Inr (ds, r) :: 'e v_error + _)"
  shows "length ds = length tas \<and> (\<forall>i<length ds. da_actionID (ds ! i) = of_nat (n + i))"
  using assms
proof (induction tas arbitrary: ii ti n ds)
  case (Cons t tas)
  from order_actions_Cons [OF Cons.prems(1)] obtain d0 ds' ii' ti' where
    ds: "ds = d0 # ds'" "da_actionID d0 = of_nat n" and
    rest: "order_actions issues transfers ii' ti' (n + 1) tas = (Inr (ds', r) :: 'e v_error + _)"
    by blast
  show ?case using Cons.IH [OF rest] ds by (auto simp: nth_Cons split: nat.split)
qed simp

lemma accepted_action:
  fixes v :: "('pp, 'tok, 'ta, 'ia, 'e) Validator"
  assumes acc: "VerifyTokenRequestFromRaw unmarshal v c getState anchor raw = Inr (res, attrs)"
    and i: "i < length res"
  obtains tr signed d where
    "TokenRequest_FromBytes unmarshal zero_TokenRequest raw = Inr tr"
    and "MarshalToMessageToSign tr (bytes_of_string anchor) = Inr signed"
    and "length res = length (tr_Actions tr)" and "res ! i = da_value d"
    and "verified_with v (withIdentityNestingLimits v c) anchor tr
      (Some (NewBackend (Some getState) signed []))
      (NewBackend None signed (action_signatures (tr_Signatures tr) (of_nat i))) d"
proof -
  obtain tr signed ds where
    tr: "TokenRequest_FromBytes unmarshal zero_TokenRequest raw = Inr tr"
      "MarshalToMessageToSign tr (bytes_of_string anchor) = Inr signed"
    and ds: "deserializeActionsInRequestOrder v (Some tr) = Inr ds" and res: "res = map da_value ds"
    and ver: "\<forall>d\<in>set ds. verified_with v (withIdentityNestingLimits v c) anchor tr
      (Some (NewBackend (Some getState) signed []))
      (NewBackend None signed (action_signatures (tr_Signatures tr) (da_actionID d))) d"
    by (rule accepted_request [OF acc])
  from ds obtain issues transfers r where
    "order_actions issues transfers 0 0 0 (tr_Actions tr) = (Inr (ds, r) :: 'e v_error + _)"
    by (auto simp: deserializeActionsInRequestOrder_def bind_sum_eq_Inr split: option.splits if_splits)
  from order_actions_positions [OF this] have pos: "length ds = length (tr_Actions tr)"
    "da_actionID (ds ! i) = of_nat i"
    using i res by auto
  show ?thesis
  proof (rule that [OF tr])
    show "length res = length (tr_Actions tr)" using res pos by simp
    show "res ! i = da_value (ds ! i)" using res i by simp
    show "verified_with v (withIdentityNestingLimits v c) anchor tr
      (Some (NewBackend (Some getState) signed []))
      (NewBackend None signed (action_signatures (tr_Signatures tr) (of_nat i))) (ds ! i)"
      using ver i res pos by (metis length_map nth_mem)
  qed
qed

lemma verified_transfer:
  fixes v :: "('pp, 'tok, 'ta, 'ia, 'e) Validator"
  assumes "verified_with v c anchor tr ledger b d" and "da_value d = Inr x"
  obtains a attrs ctx b' where "x = Some a"
    and "run_validators c (v_TransferValidators v)
      (new_context (v_PublicParams v) anchor tr ledger (Some b) attrs (Some a) None) = Inr ctx"
    and "check_counters (ta_GetMetadata (v_ops v) a) (ctx_MetadataCounter ctx) =
      (Inr () :: 'e v_error + unit)"
    and "ctx_SignatureProvider ctx = Some b'" and "be_Cursor b' = length (be_Sigs b')"
proof -
  from assms(1) obtain attrs attrs' b' where
    run: "verifyDeserializedAction v c anchor tr ledger (Some b) d attrs = Inr (Some b', attrs')"
    and ex: "be_Cursor b' = length (be_Sigs b')"
    by (auto simp: verified_with_def)
  have "da_typeID d \<noteq> ACTION_TYPE_ISSUE" "x = da_transfer d"
    using assms(2) by (auto simp: da_value_def split: if_splits)
  with run have "VerifyTransfer v c anchor tr x ledger (Some b) attrs = Inr (Some b', attrs')"
    by (auto simp: verifyDeserializedAction_def split: if_splits)
  then show ?thesis
    using ex that by (auto simp: VerifyTransfer_def bind_sum_eq_Inr split: option.splits)
qed

lemma verified_issue:
  fixes v :: "('pp, 'tok, 'ta, 'ia, 'e) Validator"
  assumes "verified_with v c anchor tr ledger b d" and "da_value d = Inl x"
  obtains a attrs ctx b' where "x = Some a"
    and "run_validators c (v_IssueValidators v)
      (new_context (v_PublicParams v) anchor tr ledger (Some b) attrs None (Some a)) = Inr ctx"
    and "check_counters (ia_GetMetadata (v_ops v) a) (ctx_MetadataCounter ctx) =
      (Inr () :: 'e v_error + unit)"
    and "ctx_SignatureProvider ctx = Some b'" and "be_Cursor b' = length (be_Sigs b')"
proof -
  from assms(1) obtain attrs attrs' b' where
    run: "verifyDeserializedAction v c anchor tr ledger (Some b) d attrs = Inr (Some b', attrs')"
    and ex: "be_Cursor b' = length (be_Sigs b')"
    by (auto simp: verified_with_def)
  have "da_typeID d = ACTION_TYPE_ISSUE" "x = da_issue d"
    using assms(2) by (auto simp: da_value_def split: if_splits)
  with run have "VerifyIssue v c anchor tr x ledger (Some b) attrs = Inr (Some b', attrs')"
    by (auto simp: verifyDeserializedAction_def split: if_splits)
  then show ?thesis
    using ex that by (auto simp: VerifyIssue_def bind_sum_eq_Inr split: option.splits)
qed

end
