(* ===== verification/Htlc.thy ===== *)
theory Htlc
  imports Validator Keys
begin

text \<open>
  Hash time-locked contracts: the script with its hash information and the claim and reclaim
  verifiers (\<open>src/token/services/interop/htlc/script.go\<close>, \<open>signer.go\<close>, \<open>keys.go\<close>), the output
  encodings of the hash (\<open>src/token/services/interop/encoding/encoding.go\<close>), the checks a
  transfer of a locked token must pass (\<open>src/token/services/identity/interop/htlc/validator.go\<close>)
  and the deserializer of script identities (\<open>deserializer.go\<close>, \<open>info.go\<close> there).

  Instants are integers. Parameters are the hash functions of the \<open>crypto\<close> package, the identity
  operations of the platform, and the JSON codec: \<open>json_strict\<close> is the decoder that rejects
  unknown fields, \<open>json_lenient\<close> the plain one; the code uses one in one place and the other in
  another, so the model keeps them apart. Errors carry their message text without the formatted
  values; reading through a \<open>nil\<close> interface is \<open>NilPointer\<close>.
\<close>

section \<open>Errors and parameters\<close>

datatype go_error =
    Errorf string
  | TooDeep nesting_error
  | TooManyIdentityComponents nat int
  | Decode typed_error
  | Joined "go_error list"
  | NilPointer

type_synonym time = int

record HashInfo =
  hi_Hash :: bytes
  hi_HashFunc :: nat
  hi_HashEncoding :: nat

record Script =
  sc_Sender :: identity
  sc_Recipient :: identity
  sc_Deadline :: time
  sc_HashInfo :: HashInfo

record ClaimSignature =
  cs_RecipientSignature :: bytes
  cs_Preimage :: bytes

record ScriptInfo =
  si_Sender :: bytes
  si_Recipient :: bytes

record htlc_env =
  hash_Available :: "nat \<Rightarrow> bool"
  hash_Sum :: "nat \<Rightarrow> bytes \<Rightarrow> bytes"
  id_IsNone :: "identity \<Rightarrow> bool"
  id_Equal :: "identity \<Rightarrow> identity \<Rightarrow> bool"
  json_Script :: "bytes \<Rightarrow> Script option"
  json_Script_lenient :: "bytes \<Rightarrow> Script option"
  json_Claim_strict :: "bytes \<Rightarrow> ClaimSignature option"
  json_Claim_lenient :: "bytes \<Rightarrow> ClaimSignature option"
  json_Claim_Marshal :: "ClaimSignature \<Rightarrow> bytes option"
  json_ScriptInfo :: "bytes \<Rightarrow> ScriptInfo option"
  json_ScriptInfo_Marshal :: "ScriptInfo \<Rightarrow> bytes option"

section \<open>Encodings\<close>

type_synonym encoding_func = "bytes \<Rightarrow> string"
type_synonym encodings = "encoding_func option list"

definition maxEncoding :: nat where "maxEncoding = 3"

text \<open>The conversion \<open>string(src)\<close>.\<close>

definition string_of_bytes :: "bytes \<Rightarrow> string" where
  "string_of_bytes bs = map (\<lambda>b. char_of (unat b)) bs"

definition RegisterEncoding :: "nat \<Rightarrow> encoding_func \<Rightarrow> encodings \<Rightarrow> go_error + encodings" where
  "RegisterEncoding e f reg =
     (if e \<ge> maxEncoding then Inl (Errorf ''RegisterEncoding of unknown Encoding function'')
      else Inr (reg[e := Some f]))"

definition init_Encodings :: "go_error + encodings" where
  "init_Encodings =
     bind_sum (RegisterEncoding 0 string_of_bytes (replicate maxEncoding None)) (\<lambda>reg.
     bind_sum (RegisterEncoding 1 base64_encode reg) (\<lambda>reg.
       RegisterEncoding 2 hex_encode reg))"

definition Encoding_New :: "encodings \<Rightarrow> nat \<Rightarrow> encoding_func option" where
  "Encoding_New reg e = (if e < maxEncoding then reg ! e else None)"

definition Encoding_Available :: "encodings \<Rightarrow> nat \<Rightarrow> bool" where
  "Encoding_Available reg e = (e < maxEncoding \<and> reg ! e \<noteq> None)"

definition Encoding_String :: "nat \<Rightarrow> string" where
  "Encoding_String e =
     (if e = 0 then ''None'' else if e = 1 then ''Base64'' else if e = 2 then ''Hex''
      else ''unknown Encoding value '' @ int_text 10 (int e))"

text \<open>The registry once the package is initialised.\<close>

definition Encodings :: encodings where
  "Encodings = (case init_Encodings of Inr reg \<Rightarrow> reg | Inl _ \<Rightarrow> [])"

section \<open>Scripts\<close>

definition HashInfo_Validate :: "htlc_env \<Rightarrow> HashInfo \<Rightarrow> go_error + unit" where
  "HashInfo_Validate E i =
     bind_sum (check (hash_Available E (hi_HashFunc i)) (Errorf ''hash function not available'')) (\<lambda>_.
       check (Encoding_Available Encodings (hi_HashEncoding i))
         (Errorf ''encoding function not available''))"

definition HashInfo_Image :: "htlc_env \<Rightarrow> HashInfo \<Rightarrow> bytes \<Rightarrow> go_error + bytes" where
  "HashInfo_Image E i preImage =
     bind_sum (HashInfo_Validate E i) (\<lambda>_.
       let img = hash_Sum E (hi_HashFunc i) preImage in
       case Encoding_New Encodings (hi_HashEncoding i) of
         None \<Rightarrow> Inl NilPointer
       | Some EncodeToString \<Rightarrow> Inr (bytes_of_string (EncodeToString img)))"

definition HashInfo_Compare :: "HashInfo \<Rightarrow> bytes \<Rightarrow> go_error + unit" where
  "HashInfo_Compare i img =
     (if img = hi_Hash i then Inr () else Inl (Errorf ''passed image does not match the hash''))"

definition Script_Validate :: "htlc_env \<Rightarrow> Script \<Rightarrow> time \<Rightarrow> go_error + unit" where
  "Script_Validate E s timeReference =
     (if id_IsNone E (sc_Sender s) then Inl (Errorf ''sender not set'')
      else if id_IsNone E (sc_Recipient s) then Inl (Errorf ''recipient not set'')
      else if sc_Deadline s < timeReference then Inl (Errorf ''expiration date has already passed'')
      else HashInfo_Validate E (sc_HashInfo s))"

definition Script_FromBytes :: "htlc_env \<Rightarrow> bytes \<Rightarrow> go_error + Script" where
  "Script_FromBytes E raw =
     (case json_Script_lenient E raw of
        None \<Rightarrow> Inl (Errorf ''invalid script'') | Some s \<Rightarrow> Inr s)"

text \<open>
  The authorization of a script: the owner wallets of the sender and of the recipient, given by
  the wallet service (\<open>None\<close> when there is none), make a token mine.
\<close>

definition senderWallet :: "string \<Rightarrow> string" where
  "senderWallet w = ''htlc.sender'' @ w"

definition recipientWallet :: "string \<Rightarrow> string" where
  "recipientWallet w = ''htlc.recipient'' @ w"

definition ScriptType :: identity_type where "ScriptType = HTLCScriptIdentityType"

definition ScriptAuth_IsMine ::
  "htlc_env \<Rightarrow> (identity \<Rightarrow> string option) \<Rightarrow> token \<Rightarrow> string \<times> string list \<times> bool" where
  "ScriptAuth_IsMine E OwnerWallet tok =
     (case UnmarshalTypedIdentity (Owner tok) of
        Inl _ \<Rightarrow> ([], [], False)
      | Inr ti \<Rightarrow>
          if Ti_Type ti \<noteq> ScriptType then ([], [], False)
          else (case json_Script_lenient E (Ti_Identity ti) of
             None \<Rightarrow> ([], [], False)
           | Some script \<Rightarrow>
               if id_IsNone E (sc_Sender script) \<or> id_IsNone E (sc_Recipient script)
               then ([], [], False)
               else
                 let ids = (case OwnerWallet (sc_Sender script) of
                              Some w \<Rightarrow> [senderWallet w] | None \<Rightarrow> []);
                     ids = ids @ (case OwnerWallet (sc_Recipient script) of
                              Some w \<Rightarrow> [recipientWallet w] | None \<Rightarrow> [])
                 in ([], ids, ids \<noteq> [])))"

definition ScriptAuth_OwnerType :: "bytes \<Rightarrow> go_error + identity_type \<times> bytes" where
  "ScriptAuth_OwnerType raw =
     bind_sum (wrap_err Decode (UnmarshalTypedIdentity raw)) (\<lambda>ti. Inr (Ti_Type ti, Ti_Identity ti))"

section \<open>Claims and reclaims\<close>

definition concatTokenRequestTxIDPreimage :: "bytes \<Rightarrow> bytes \<Rightarrow> bytes" where
  "concatTokenRequestTxIDPreimage tokenRequestAndTxID preImage = tokenRequestAndTxID @ preImage"

definition ClaimSigner_Sign ::
  "htlc_env \<Rightarrow> (bytes \<Rightarrow> go_error + bytes) \<Rightarrow> bytes \<Rightarrow> bytes \<Rightarrow> go_error + bytes" where
  "ClaimSigner_Sign E Recipient_Sign preimage tokenRequestAndTxID =
     bind_sum (Recipient_Sign (concatTokenRequestTxIDPreimage tokenRequestAndTxID preimage)) (\<lambda>sigma.
       case json_Claim_Marshal E \<lparr>cs_RecipientSignature = sigma, cs_Preimage = preimage\<rparr> of
         None \<Rightarrow> Inl (Errorf ''failed marshalling claim signature'')
       | Some raw \<Rightarrow> Inr raw)"

text \<open>Calling \<open>Verify\<close> on a verifier that may be \<open>nil\<close>.\<close>

definition call_verifier :: "go_error verifier option \<Rightarrow> bytes \<Rightarrow> bytes \<Rightarrow> go_error + unit" where
  "call_verifier v msg sigma = (case v of None \<Rightarrow> Inl NilPointer | Some f \<Rightarrow> f msg sigma)"

definition ClaimVerifier_Verify ::
  "htlc_env \<Rightarrow> go_error verifier option \<Rightarrow> HashInfo \<Rightarrow> bytes \<Rightarrow> bytes \<Rightarrow> go_error + unit" where
  "ClaimVerifier_Verify E Recipient hashInfo tokenRequestAndTxID claimSignature =
     (case json_Claim_lenient E claimSignature of
        None \<Rightarrow> Inl (Errorf ''failed to unmarshal claim signature'')
      | Some sig \<Rightarrow>
          bind_sum (call_verifier Recipient
              (concatTokenRequestTxIDPreimage tokenRequestAndTxID (cs_Preimage sig))
              (cs_RecipientSignature sig)) (\<lambda>_.
          bind_sum (HashInfo_Image E hashInfo (cs_Preimage sig)) (\<lambda>img.
            if hi_Hash hashInfo \<noteq> img then Inl (Errorf ''hash mismatch'') else Inr ())))"

record htlc_verifier =
  hv_Recipient :: "go_error verifier option"
  hv_Sender :: "go_error verifier option"
  hv_Deadline :: time
  hv_HashInfo :: HashInfo
  hv_ClockFunc :: "time option"

definition hv_now :: "htlc_verifier \<Rightarrow> time \<Rightarrow> time" where
  "hv_now v time_Now = (case hv_ClockFunc v of Some t \<Rightarrow> t | None \<Rightarrow> time_Now)"

definition Verifier_Verify ::
  "htlc_env \<Rightarrow> time \<Rightarrow> htlc_verifier \<Rightarrow> bytes \<Rightarrow> bytes \<Rightarrow> go_error + unit" where
  "Verifier_Verify E time_Now v msg sigma =
     (if hv_now v time_Now < hv_Deadline v
      then ClaimVerifier_Verify E (hv_Recipient v) (hv_HashInfo v) msg sigma
      else call_verifier (hv_Sender v) msg sigma)"

section \<open>Metadata keys\<close>

definition ClaimPreImage :: string where "ClaimPreImage = ''htlc.cpi''"
definition LockHash :: string where "LockHash = ''htlc.lh''"

definition ClaimKey :: "bytes \<Rightarrow> string" where
  "ClaimKey v = ClaimPreImage @ hex_encode v"

definition LockKey :: "bytes \<Rightarrow> string" where
  "LockKey v = LockHash @ hex_encode v"

definition LockValue :: "bytes \<Rightarrow> bytes" where
  "LockValue v = bytes_of_string (hex_encode v)"

section \<open>Checks of a transfer\<close>

datatype OperationType = OpNone | Claim | Reclaim

definition VerifyOwner ::
  "htlc_env \<Rightarrow> bytes \<Rightarrow> bytes \<Rightarrow> time \<Rightarrow> go_error + Script \<times> OperationType" where
  "VerifyOwner E senderRawOwner outRawOwner now =
     (if outRawOwner = [] then Inl (Errorf ''the output owner must be set'')
      else bind_sum (wrap_err Decode (UnmarshalTypedIdentity senderRawOwner)) (\<lambda>sender.
        if Ti_Type sender \<noteq> ScriptType then Inl (Errorf ''invalid identity type'')
        else (case json_Script E (Ti_Identity sender) of
           None \<Rightarrow> Inl (Errorf ''invalid script'')
         | Some script \<Rightarrow>
             if now < sc_Deadline script then
               (if \<not> id_Equal E (sc_Recipient script) (Some outRawOwner)
                then Inl (Errorf ''owner of output token does not correspond to recipient in htlc request'')
                else Inr (script, Claim))
             else
               (if \<not> id_Equal E (sc_Sender script) (Some outRawOwner)
                then Inl (Errorf ''owner of output token does not correspond to sender in htlc request'')
                else Inr (script, Reclaim)))))"

definition MetadataClaimKeyCheck ::
  "htlc_env \<Rightarrow> metadata \<Rightarrow> Script \<Rightarrow> OperationType \<Rightarrow> bytes \<Rightarrow> go_error + string" where
  "MetadataClaimKeyCheck E md script op sig =
     (if op = Reclaim then Inr []
      else (case json_Claim_strict E sig of
         None \<Rightarrow> Inl (Errorf ''failed unmarshalling claim signature'')
       | Some claim \<Rightarrow>
           if cs_Preimage claim = [] \<or> cs_RecipientSignature claim = []
             then Inl (Errorf ''expected a valid claim preImage and recipient signature'')
           else if md = [] then Inl (Errorf ''cannot find htlc pre-image, no metadata'')
           else bind_sum (HashInfo_Image E (sc_HashInfo script) (cs_Preimage claim)) (\<lambda>img.
             let key = ClaimKey img in
             case map_of md key of
               None \<Rightarrow> Inl (Errorf ''cannot find htlc pre-image, missing metadata entry'')
             | Some value \<Rightarrow>
                 if value \<noteq> cs_Preimage claim
                 then Inl (Errorf ''invalid action, cannot match htlc pre-image with metadata'')
                 else Inr key)))"

definition MetadataLockKeyCheck :: "metadata \<Rightarrow> Script \<Rightarrow> go_error + string" where
  "MetadataLockKeyCheck md script =
     (if md = [] then Inl (Errorf ''cannot find htlc lock, no metadata'')
      else let key = LockKey (hi_Hash (sc_HashInfo script)) in
        case map_of md key of
          None \<Rightarrow> Inl (Errorf ''cannot find htlc lock, missing metadata entry'')
        | Some value \<Rightarrow>
            if value \<noteq> LockValue (hi_Hash (sc_HashInfo script))
            then Inl (Errorf ''invalid action, cannot match htlc lock with metadata'')
            else Inr key)"

section \<open>The deserializer of script identities\<close>

text \<open>
  \<open>DV\<close> is the parent deserializer of the sender's and the recipient's identities; it receives the
  nesting budget left.
\<close>

definition htlc_DeserializeVerifier ::
  "htlc_env \<Rightarrow> (nesting_ctx \<Rightarrow> identity \<Rightarrow> go_error + go_error verifier option) \<Rightarrow>
   nesting_ctx \<Rightarrow> identity_type \<Rightarrow> bytes \<Rightarrow> go_error + htlc_verifier" where
  "htlc_DeserializeVerifier E DV ctx typ raw =
     (if typ \<noteq> ScriptType then Inl (Errorf ''cannot deserializer type'')
      else bind_sum (wrap_err TooDeep (EnterCompositeIdentity ctx)) (\<lambda>ctx.
        case json_Script E raw of
          None \<Rightarrow> Inl (Errorf ''failed to unmarshal TypedIdentity as an htlc script'')
        | Some script \<Rightarrow>
            bind_sum (DV ctx (sc_Sender script)) (\<lambda>sender.
            bind_sum (DV ctx (sc_Recipient script)) (\<lambda>recipient.
              Inr \<lparr>hv_Recipient = recipient, hv_Sender = sender, hv_Deadline = sc_Deadline script,
                   hv_HashInfo = sc_HashInfo script, hv_ClockFunc = None\<rparr>))))"

definition htlc_Recipients ::
  "htlc_env \<Rightarrow> identity_type \<Rightarrow> bytes \<Rightarrow> go_error + identity list" where
  "htlc_Recipients E typ raw =
     (if typ \<noteq> ScriptType then Inl (Errorf ''unknown identity type'')
      else case json_Script E raw of
             None \<Rightarrow> Inl (Errorf ''failed to unmarshal htlc script'')
           | Some script \<Rightarrow> Inr [sc_Recipient script])"

definition htlc_GetAuditInfo ::
  "htlc_env \<Rightarrow> (nesting_ctx \<Rightarrow> identity \<Rightarrow> go_error + bytes) \<Rightarrow> nesting_ctx \<Rightarrow> identity_type \<Rightarrow> bytes \<Rightarrow>
   go_error + bytes" where
  "htlc_GetAuditInfo E GetAuditInfo ctx typ raw =
     (if typ \<noteq> ScriptType then Inl (Errorf ''invalid type'')
      else bind_sum (wrap_err TooDeep (EnterCompositeIdentity ctx)) (\<lambda>ctx.
        case json_Script E raw of
          None \<Rightarrow> Inl (Errorf ''failed to unmarshal htlc script'')
        | Some script \<Rightarrow>
            bind_sum (GetAuditInfo ctx (sc_Sender script)) (\<lambda>s.
            bind_sum (GetAuditInfo ctx (sc_Recipient script)) (\<lambda>r.
              case json_ScriptInfo_Marshal E \<lparr>si_Sender = s, si_Recipient = r\<rparr> of
                None \<Rightarrow> Inl (Errorf ''failed marshaling audit info for script'')
              | Some b \<Rightarrow> Inr b))))"

definition GetScriptSenderAndRecipient :: "htlc_env \<Rightarrow> bytes \<Rightarrow> go_error + identity \<times> identity" where
  "GetScriptSenderAndRecipient E raw =
     (case json_Script E raw of
        None \<Rightarrow> Inl (Errorf ''failed to unmarshal htlc script'')
      | Some script \<Rightarrow> Inr (sc_Sender script, sc_Recipient script))"

definition AuditInfoMatcher_Match ::
  "htlc_env \<Rightarrow> (nesting_ctx \<Rightarrow> identity \<Rightarrow> bytes \<Rightarrow> go_error + unit) \<Rightarrow> bytes \<Rightarrow> nesting_ctx \<Rightarrow> bytes \<Rightarrow>
   go_error + unit" where
  "AuditInfoMatcher_Match E MatchIdentity auditInfo ctx raw =
     bind_sum (wrap_err TooDeep (EnterCompositeIdentity ctx)) (\<lambda>ctx.
       case json_ScriptInfo E auditInfo of
         None \<Rightarrow> Inl (Errorf ''failed to unmarshal script info'')
       | Some info \<Rightarrow>
           bind_sum (GetScriptSenderAndRecipient E raw) (\<lambda>(sender, recipient).
           bind_sum (MatchIdentity ctx sender (si_Sender info)) (\<lambda>_.
             MatchIdentity ctx recipient (si_Recipient info))))"

definition htlc_DeserializeAuditInfo ::
  "htlc_env \<Rightarrow> (identity \<Rightarrow> bytes \<Rightarrow> go_error + 'ai) \<Rightarrow> bytes \<Rightarrow> bytes \<Rightarrow> go_error + 'ai" where
  "htlc_DeserializeAuditInfo E DeserializeAuditInfo owner raw =
     (case json_Script E owner of
        None \<Rightarrow> Inl (Errorf ''failed to unmarshal htlc identity'')
      | Some script \<Rightarrow>
          (case json_ScriptInfo E raw of
             None \<Rightarrow> Inl (Errorf ''invalid audit info, failed unmarshal'')
           | Some si \<Rightarrow>
               if si_Sender si = [] \<and> si_Recipient si = []
                 then Inl (Errorf ''invalid audit info, failed unmarshal'')
               else if si_Recipient si = [] then Inl (Errorf ''no recipient defined'')
               else DeserializeAuditInfo (sc_Recipient script) (si_Recipient si)))"

section \<open>Lemmas\<close>

lemma Encodings_value: "Encodings = [Some string_of_bytes, Some base64_encode, Some hex_encode]"
  by (simp add: Encodings_def init_Encodings_def RegisterEncoding_def maxEncoding_def numeral_3_eq_3)

lemma encoding_registered:
  "Encoding_Available Encodings e \<longleftrightarrow> e < 3"
  "Encoding_Available Encodings e \<Longrightarrow> \<exists>f. Encoding_New Encodings e = Some f"
  by (auto simp: Encoding_Available_def Encoding_New_def Encodings_value maxEncoding_def
      less_Suc_eq numeral_3_eq_3 numeral_2_eq_2 nth_Cons split: nat.splits)

lemma HashInfo_Image_ok:
  "HashInfo_Image E i p = Inr img \<longleftrightarrow>
     hash_Available E (hi_HashFunc i) \<and>
     (\<exists>f. Encoding_New Encodings (hi_HashEncoding i) = Some f \<and>
        img = bytes_of_string (f (hash_Sum E (hi_HashFunc i) p)))"
  using encoding_registered
  by (auto simp: HashInfo_Image_def HashInfo_Validate_def Let_def Encoding_New_def maxEncoding_def
      sum_elims split: option.splits if_splits)

lemma HashInfo_Image_no_panic: "HashInfo_Image E i p \<noteq> Inl NilPointer"
  using encoding_registered(2)[of "hi_HashEncoding i"]
  by (auto simp: HashInfo_Image_def HashInfo_Validate_def Let_def check_def split: option.splits)

lemma ClaimVerifier_ok:
  "ClaimVerifier_Verify E r hi msg sigma = Inr u \<longleftrightarrow>
     (\<exists>claim v. json_Claim_lenient E sigma = Some claim \<and> r = Some v \<and>
        v (msg @ cs_Preimage claim) (cs_RecipientSignature claim) = Inr () \<and>
        HashInfo_Image E hi (cs_Preimage claim) = Inr (hi_Hash hi))"
  by (auto simp: ClaimVerifier_Verify_def call_verifier_def concatTokenRequestTxIDPreimage_def
      sum_elims split: option.splits if_splits)

lemma Verifier_ok:
  "Verifier_Verify E now v msg sigma = Inr () \<longleftrightarrow>
     (if hv_now v now < hv_Deadline v
      then ClaimVerifier_Verify E (hv_Recipient v) (hv_HashInfo v) msg sigma = Inr ()
      else \<exists>f. hv_Sender v = Some f \<and> f msg sigma = Inr ())"
  by (auto simp: Verifier_Verify_def call_verifier_def split: option.splits)

lemma VerifyOwner_ok:
  "VerifyOwner E sender out now = Inr (script, op) \<longleftrightarrow>
     out \<noteq> [] \<and>
     (\<exists>ti. UnmarshalTypedIdentity sender = Inr ti \<and> Ti_Type ti = ScriptType \<and>
        json_Script E (Ti_Identity ti) = Some script) \<and>
     (if now < sc_Deadline script
      then op = Claim \<and> id_Equal E (sc_Recipient script) (Some out)
      else op = Reclaim \<and> id_Equal E (sc_Sender script) (Some out))"
proof (cases "UnmarshalTypedIdentity sender")
  case (Inr ti)
  show ?thesis
    by (cases "json_Script E (Ti_Identity ti)") (auto simp: VerifyOwner_def Inr wrap_err_def)
qed (simp add: VerifyOwner_def wrap_err_def)

lemma MetadataClaimKeyCheck_ok:
  assumes "op \<noteq> Reclaim"
  shows "MetadataClaimKeyCheck E md script op sig = Inr key \<longleftrightarrow>
     (\<exists>claim img. json_Claim_strict E sig = Some claim \<and>
        cs_Preimage claim \<noteq> [] \<and> cs_RecipientSignature claim \<noteq> [] \<and>
        HashInfo_Image E (sc_HashInfo script) (cs_Preimage claim) = Inr img \<and>
        key = ClaimKey img \<and> map_of md key = Some (cs_Preimage claim))"
  using assms
  by (auto simp: MetadataClaimKeyCheck_def Let_def sum_elims split: option.splits if_splits)

lemma MetadataLockKeyCheck_ok:
  "MetadataLockKeyCheck md script = Inr key \<longleftrightarrow>
     key = LockKey (hi_Hash (sc_HashInfo script)) \<and>
     map_of md key = Some (LockValue (hi_Hash (sc_HashInfo script)))"
  by (auto simp: MetadataLockKeyCheck_def Let_def split: option.splits if_splits)

lemma htlc_keys:
  "ClaimKey a = ClaimKey b \<longleftrightarrow> a = b" "LockKey a = LockKey b \<longleftrightarrow> a = b"
  "ClaimKey a \<noteq> LockKey b" "LockKey a \<noteq> ClaimKey b"
  "\<not> HasPrefix (ClaimKey a) PublicMetadataPrefix" "\<not> HasPrefix (LockKey a) PublicMetadataPrefix"
  by (simp_all add: ClaimKey_def LockKey_def ClaimPreImage_def LockHash_def hex_encode_inject
      HasPrefix_def PublicMetadataPrefix_def)

section \<open>Properties\<close>

text \<open>
  C6: A script's funds move in exactly one of two ways. Given the verifiers of its sender and
  recipient, the verifier deserialized from a script accepts a signature over a message if and
  only if either the deadline has not passed, the signature is a claim whose recipient signature
  covers the message followed by the preimage, and the encoded hash of the preimage equals the
  hash the script stores; or the deadline has passed and the sender signed the message. A hash
  or an encoding the binary does not know makes the claim fail, it never makes the verifier
  dereference \<open>nil\<close>.
\<close>

theorem htlc_verifier_accepts_iff:
  assumes script: "json_Script E raw = Some script"
    and deep: "EnterCompositeIdentity ctx = Inr ctx'"
    and sender: "DV ctx' (sc_Sender script) = Inr (Some vs)"
    and recipient: "DV ctx' (sc_Recipient script) = Inr (Some vr)"
    and vr: "\<And>m s. vr m s \<noteq> Inl NilPointer" and vs: "\<And>m s. vs m s \<noteq> Inl NilPointer"
  shows "\<exists>v. htlc_DeserializeVerifier E DV ctx ScriptType raw = Inr v \<and>
    (\<forall>now msg sigma.
      (Verifier_Verify E now v msg sigma = Inr () \<longleftrightarrow>
         (if now < sc_Deadline script
          then \<exists>claim. json_Claim_lenient E sigma = Some claim \<and>
            vr (msg @ cs_Preimage claim) (cs_RecipientSignature claim) = Inr () \<and>
            HashInfo_Image E (sc_HashInfo script) (cs_Preimage claim) = Inr (hi_Hash (sc_HashInfo script))
          else vs msg sigma = Inr ())) \<and>
      Verifier_Verify E now v msg sigma \<noteq> Inl NilPointer)"
proof -
  let ?v = "\<lparr>hv_Recipient = Some vr, hv_Sender = Some vs, hv_Deadline = sc_Deadline script,
             hv_HashInfo = sc_HashInfo script, hv_ClockFunc = None\<rparr>"
  have "htlc_DeserializeVerifier E DV ctx ScriptType raw = Inr ?v"
    by (simp add: htlc_DeserializeVerifier_def script deep sender recipient wrap_err_def)
  moreover have "Verifier_Verify E now ?v msg sigma \<noteq> Inl NilPointer" for now msg sigma
    using HashInfo_Image_no_panic vr vs
    by (auto simp: Verifier_Verify_def ClaimVerifier_Verify_def call_verifier_def bind_sum_def
        split: option.splits sum.splits)
  ultimately show ?thesis
    by (intro exI[of _ ?v]) (auto simp: Verifier_ok ClaimVerifier_ok hv_now_def)
qed

text \<open>
  A concrete platform for the examples: one hash (the identity), identities compared as bytes,
  and a codec that recognises single messages.
\<close>

definition example_script :: Script where
  "example_script = \<lparr>sc_Sender = Some [1], sc_Recipient = Some [2], sc_Deadline = 100,
     sc_HashInfo = \<lparr>hi_Hash = bytes_of_string ''07'', hi_HashFunc = 5, hi_HashEncoding = 2\<rparr>\<rparr>"

definition example_claim :: ClaimSignature where
  "example_claim = \<lparr>cs_RecipientSignature = [2], cs_Preimage = [7]\<rparr>"

definition example_htlc :: htlc_env where
  "example_htlc = \<lparr>hash_Available = (\<lambda>h. h = 5), hash_Sum = (\<lambda>_ b. b),
     id_IsNone = (\<lambda>i. i = None \<or> i = Some []), id_Equal = (=),
     json_Script = (\<lambda>b. if b = [0x7B] then Some example_script else None),
     json_Script_lenient = (\<lambda>b. if b = [0x7B] then Some example_script else None),
     json_Claim_strict = (\<lambda>b. if b = [0x7B, 0x7D] then Some example_claim else None),
     json_Claim_lenient = (\<lambda>b. if b = [0x7B, 0x7D] then Some example_claim else None),
     json_Claim_Marshal = (\<lambda>_. Some [0x7B, 0x7D]),
     json_ScriptInfo = (\<lambda>_. None), json_ScriptInfo_Marshal = (\<lambda>_. None)\<rparr>"

text \<open>An inner verifier that accepts the identity itself as its signature.\<close>

definition example_verifier :: "identity \<Rightarrow> go_error verifier" where
  "example_verifier i msg sigma =
     (if Some sigma = i then Inr () else Inl (Errorf ''bad signature''))"

lemma example_verifier_no_panic: "example_verifier i m s \<noteq> Inl NilPointer"
  by (simp add: example_verifier_def)

lemma example_image:
  "HashInfo_Image example_htlc (sc_HashInfo example_script) [7] = Inr (hi_Hash (sc_HashInfo example_script))"
  by (simp add: HashInfo_Image_ok example_htlc_def example_script_def Encoding_New_def maxEncoding_def
      Encodings_value hex_encode_def digit_char_def)

theorem htlc_verifier_accepts_iff_witness:
  "\<exists>v. htlc_DeserializeVerifier example_htlc (\<lambda>_ i. Inr (Some (example_verifier i))) None
      ScriptType [0x7B] = Inr v \<and>
     Verifier_Verify example_htlc 99 v [9] [0x7B, 0x7D] = Inr () \<and>
     Verifier_Verify example_htlc 100 v [9] [0x7B, 0x7D] \<noteq> Inr () \<and>
     Verifier_Verify example_htlc 100 v [9] [1] = Inr ()"
proof -
  have deep: "EnterCompositeIdentity None = Inr (Some \<lparr>nesting_depth = 1, maxDepth = 5, maxComponents = 16\<rparr>)"
    by (simp add: EnterCompositeIdentity_def nestingFrom_def DefaultResourceLimits_def)
  have js: "json_Script example_htlc [0x7B] = Some example_script"
    by (simp add: example_htlc_def)
  have jc: "json_Claim_lenient example_htlc [0x7B, 0x7D] = Some example_claim"
    by (simp add: example_htlc_def)
  from htlc_verifier_accepts_iff[of example_htlc "[0x7B]", OF js deep, of
      "\<lambda>_ i. Inr (Some (example_verifier i))", OF refl refl
      example_verifier_no_panic example_verifier_no_panic]
  obtain v where "htlc_DeserializeVerifier example_htlc (\<lambda>_ i. Inr (Some (example_verifier i))) None
      ScriptType [0x7B] = Inr v"
    and acc: "\<And>now msg sigma. Verifier_Verify example_htlc now v msg sigma = Inr () \<longleftrightarrow>
       (if now < sc_Deadline example_script
        then \<exists>claim. json_Claim_lenient example_htlc sigma = Some claim \<and>
          example_verifier (sc_Recipient example_script) (msg @ cs_Preimage claim)
            (cs_RecipientSignature claim) = Inr () \<and>
          HashInfo_Image example_htlc (sc_HashInfo example_script) (cs_Preimage claim) =
            Inr (hi_Hash (sc_HashInfo example_script))
        else example_verifier (sc_Sender example_script) msg sigma = Inr ())"
    by blast
  moreover have "Verifier_Verify example_htlc 99 v [9] [0x7B, 0x7D] = Inr ()"
    unfolding acc jc using example_image by (simp add: example_script_def example_claim_def example_verifier_def)
  moreover have "Verifier_Verify example_htlc 100 v [9] [0x7B, 0x7D] \<noteq> Inr ()"
      "Verifier_Verify example_htlc 100 v [9] [1] = Inr ()"
    unfolding acc by (simp_all add: example_script_def example_verifier_def)
  ultimately show ?thesis by blast
qed

end
