(* ===== verification/Asn1.thy ===== *)
theory Asn1
  imports Identity_Codec Keys
begin

text \<open>
  The part of \<open>encoding/asn1\<close> that the code uses on structures of byte slices and strings, and the
  canonical decoder \<open>UnmarshalCanonicalDER\<close> of \<open>src/token/services/identity/marshal/marshal.go\<close>
  built on it. The lemmas show that decoding inverts encoding for elements shorter than \<open>2^31\<close>
  bytes, and that the canonical decoder accepts exactly what the encoder produces.
\<close>

section \<open>Elements\<close>

text \<open>
  Lengths are read as \<open>parseTagAndLength\<close> reads them: no indefinite form, no leading zero byte, no
  long form for a length below 128, and no length of \<open>2^31\<close> or more.
\<close>

fun asn1_length_bytes :: "nat \<Rightarrow> bytes \<Rightarrow> nat \<Rightarrow> (nat \<times> bytes) option" where
  "asn1_length_bytes 0 bs acc = (if acc < 128 then None else Some (acc, bs))"
| "asn1_length_bytes (Suc n) [] acc = None"
| "asn1_length_bytes (Suc n) (b # bs) acc =
     (if acc \<ge> 2 ^ 23 then None
      else let acc = acc * 256 + unat b in
        if acc = 0 then None else asn1_length_bytes n bs acc)"

definition asn1_length :: "bytes \<Rightarrow> (nat \<times> bytes) option" where
  "asn1_length bs =
     (case bs of
        [] \<Rightarrow> None
      | b # bs \<Rightarrow>
          if unat b < 128 then Some (unat b, bs)
          else if unat b = 128 then None
          else asn1_length_bytes (unat b - 128) bs 0)"

definition asn1_element :: "byte \<Rightarrow> bytes \<Rightarrow> (bytes \<times> bytes) option" where
  "asn1_element tag bs =
     (case bs of
        [] \<Rightarrow> None
      | t # bs \<Rightarrow>
          if t \<noteq> tag then None
          else case asn1_length bs of
            None \<Rightarrow> None
          | Some (n, bs) \<Rightarrow> if n > length bs then None else Some (take n bs, drop n bs))"

lemma be_nat_Cons: "be_nat (b # bs) = unat b * 256 ^ length bs + be_nat bs"
proof -
  have "foldl (\<lambda>l c. l * 256 + unat c) x bs = x * 256 ^ length bs + foldl (\<lambda>l c. l * 256 + unat c) 0 bs" for x
  proof (induction bs arbitrary: x)
    case (Cons c cs)
    show ?case
      using Cons.IH [of "x * 256 + unat c"] Cons.IH [of "unat c"] by (simp add: algebra_simps)
  qed simp
  from this [of "unat b"] show ?thesis by (simp add: be_nat_def)
qed

lemma asn1_length_bytes_be:
  assumes "acc * 256 ^ length bs + be_nat bs = n" and "128 \<le> n" and "n < 2 ^ 31"
    and "hd (bs @ [1]) \<noteq> 0 \<or> 0 < acc"
  shows "asn1_length_bytes (length bs) (bs @ rest) acc = Some (n, rest)"
  using assms
proof (induction bs arbitrary: acc)
  case Nil
  then show ?case by (simp add: be_nat_def)
next
  case (Cons b bs)
  let ?acc = "acc * 256 + unat b"
  have total: "?acc * 256 ^ length bs + be_nat bs = n"
    using Cons.prems(1) by (simp add: be_nat_Cons algebra_simps)
  have pos: "0 < ?acc" using Cons.prems(4) by (auto simp: byte_eq_0_iff)
  have small: "\<not> 2 ^ 23 \<le> acc"
  proof
    assume "2 ^ 23 \<le> acc"
    then have "2 ^ 23 * 256 \<le> acc * 256 ^ length (b # bs)"
      by (intro mult_le_mono) simp_all
    then have "2 ^ 23 * 256 \<le> n" unfolding Cons.prems(1) [symmetric] by (rule le_trans) (rule le_add1)
    then show False using Cons.prems(3) by simp
  qed
  have "asn1_length_bytes (length bs) (bs @ rest) ?acc = Some (n, rest)"
    by (rule Cons.IH [OF total Cons.prems(2,3)]) (use pos in simp)
  then show ?case using pos small by (simp only: list.size append_Cons asn1_length_bytes.simps Let_def) simp
qed

lemma asn1_length_derLength:
  assumes "l < 2 ^ 31"
  shows "asn1_length (derLength l @ rest) = Some (l, rest)"
proof (cases "l < 128")
  case True
  then show ?thesis
    by (simp add: asn1_length_def derLength_short unsigned_of_nat take_bit_eq_mod)
next
  case False
  then have "128 \<le> l" "l < 2 ^ 32" using assms by simp_all
  then obtain bs where bs: "derLength l = of_nat (128 + length bs) # bs" "1 \<le> length bs" "length bs \<le> 4"
    "hd bs \<noteq> 0" "be_nat bs = l"
    by (rule derLength_long)
  have "unat (of_nat (128 + length bs) :: byte) = 128 + length bs"
    using bs(3) by (simp add: unsigned_of_nat take_bit_eq_mod del: of_nat_add)
  moreover have "asn1_length_bytes (length bs) (bs @ rest) 0 = Some (l, rest)"
    by (rule asn1_length_bytes_be) (use bs False assms in \<open>cases bs; simp\<close>)+
  ultimately show ?thesis using bs(1,2) by (cases bs) (simp_all add: asn1_length_def del: of_nat_add)
qed

lemma asn1_element_appendTLV:
  "length v < 2 ^ 31 \<Longrightarrow> asn1_element tag (appendTLV [] tag v @ rest) = Some (v, rest)"
  by (simp add: asn1_element_def appendTLV_def asn1_length_derLength)

section \<open>Lists of byte slices\<close>

text \<open>\<open>parseSequenceOf\<close> on octet strings, and the encoding of such a list.\<close>

lemma asn1_element_shorter: "asn1_element tag bs = Some (v, rest) \<Longrightarrow> length rest < length bs"
proof -
  have loop: "asn1_length_bytes n bs acc = Some (m, rest) \<Longrightarrow> length rest \<le> length bs" for n bs acc m and rest :: bytes
    by (induction n bs acc rule: asn1_length_bytes.induct) (auto simp: Let_def split: if_splits)
  assume "asn1_element tag bs = Some (v, rest)"
  then show ?thesis
    by (auto simp: asn1_element_def asn1_length_def dest!: loop split: list.splits if_splits option.splits)
qed

function asn1_octets :: "bytes \<Rightarrow> bytes list option" where
  "asn1_octets bs =
     (if bs = [] then Some []
      else case asn1_element tagOctetString bs of
        None \<Rightarrow> None
      | Some (v, rest) \<Rightarrow> map_option ((#) v) (asn1_octets rest))"
  by pat_completeness auto
termination
  by (relation "measure length") (auto dest: asn1_element_shorter)

declare asn1_octets.simps [simp del]

definition octets_Marshal :: "bytes list \<Rightarrow> bytes" where
  "octets_Marshal vs = appendTLV [] tagSequence (concat (map (appendTLV [] tagOctetString) vs))"

text \<open>A structure whose only field is such a list.\<close>

definition slices_Marshal :: "bytes list \<Rightarrow> bytes" where
  "slices_Marshal vs = appendTLV [] tagSequence (octets_Marshal vs)"

definition slices_Unmarshal :: "bytes \<Rightarrow> (bytes list \<times> bytes) option" where
  "slices_Unmarshal b =
     (case asn1_element tagSequence b of
        None \<Rightarrow> None
      | Some (body, rest) \<Rightarrow>
          (case asn1_element tagSequence body of
             None \<Rightarrow> None
           | Some (inner, _) \<Rightarrow> map_option (\<lambda>vs. (vs, rest)) (asn1_octets inner)))"

text \<open>
  A structure of a string tagged \<open>utf8\<close> and such a list. The decoder also takes the other string
  types of ASN.1 for the string, \<open>other\<close> being how their contents are read.
\<close>

definition string_of_octets :: "bytes \<Rightarrow> string" where
  "string_of_octets bs = map (\<lambda>b. char_of (unat b)) bs"

definition asn1_string_tags :: "byte list" where
  "asn1_string_tags = [0x13, 0x16, 0x1B, 0x14, 0x12, 0x1E]"

definition asn1_string :: "(byte \<Rightarrow> bytes \<Rightarrow> string option) \<Rightarrow> bytes \<Rightarrow> (string \<times> bytes) option" where
  "asn1_string other bs =
     (case bs of
        [] \<Rightarrow> None
      | t # _ \<Rightarrow>
          (case asn1_element t bs of
             None \<Rightarrow> None
           | Some (v, rest) \<Rightarrow>
               if t = tagUTF8String then
                 (if utf8_runes (map unat v) = None then None else Some (string_of_octets v, rest))
               else if t \<in> set asn1_string_tags then map_option (\<lambda>s. (s, rest)) (other t v)
               else None))"

definition named_slices_Marshal :: "string \<times> bytes list \<Rightarrow> bytes" where
  "named_slices_Marshal p =
     appendTLV [] tagSequence (appendTLV [] tagUTF8String (bytes_of_string (fst p)) @ octets_Marshal (snd p))"

definition named_slices_Unmarshal ::
    "(byte \<Rightarrow> bytes \<Rightarrow> string option) \<Rightarrow> bytes \<Rightarrow> ((string \<times> bytes list) \<times> bytes) option" where
  "named_slices_Unmarshal other b =
     (case asn1_element tagSequence b of
        None \<Rightarrow> None
      | Some (body, rest) \<Rightarrow>
          (case asn1_string other body of
             None \<Rightarrow> None
           | Some (s, body) \<Rightarrow>
               (case asn1_element tagSequence body of
                  None \<Rightarrow> None
                | Some (inner, _) \<Rightarrow> map_option (\<lambda>vs. ((s, vs), rest)) (asn1_octets inner))))"

section \<open>Canonical decoding\<close>

text \<open>
  The type parameter of the source is the pair of the decoder and the encoder of the type; the
  destination is \<open>nil\<close> when \<open>val\<close> is \<open>False\<close>.
\<close>

definition UnmarshalCanonicalDER ::
    "(bytes \<Rightarrow> ('a \<times> bytes) option) \<Rightarrow> ('a \<Rightarrow> bytes) \<Rightarrow> bool \<Rightarrow> bytes \<Rightarrow> m_error + 'a" where
  "UnmarshalCanonicalDER asn1_Unmarshal asn1_Marshal val b =
     (if \<not> val then Inl ErrInvalidDestination
      else case asn1_Unmarshal b of
        None \<Rightarrow> Inl ErrAsn1
      | Some (v, rest) \<Rightarrow>
          if length rest \<noteq> 0 then Inl ErrTrailingBytes
          else if b \<noteq> asn1_Marshal v then Inl ErrNonCanonical
          else Inr v)"

lemma asn1_octets_concat:
  "\<forall>v \<in> set vs. length v < 2 ^ 31 \<Longrightarrow> asn1_octets (concat (map (appendTLV [] tagOctetString) vs)) = Some vs"
proof (induction vs)
  case Nil
  show ?case by (simp add: asn1_octets.simps [of "[]"])
next
  case (Cons v vs)
  have ne: "appendTLV [] tagOctetString v \<noteq> []" by (simp add: appendTLV_def)
  show ?case
    using Cons ne asn1_element_appendTLV [of v tagOctetString "concat (map (appendTLV [] tagOctetString) vs)"]
    by (simp add: asn1_octets.simps [of "appendTLV [] tagOctetString v @ concat (map (appendTLV [] tagOctetString) vs)"])
qed

lemma length_appendTLV_ge: "length v \<le> length (appendTLV d t v)"
  by (simp add: appendTLV_def)

lemma octets_Marshal_lengths:
  assumes "length (octets_Marshal vs) < 2 ^ 31"
  shows "length (concat (map (appendTLV [] tagOctetString) vs)) < 2 ^ 31" and "\<forall>v \<in> set vs. length v < 2 ^ 31"
proof -
  show inner: "length (concat (map (appendTLV [] tagOctetString) vs)) < 2 ^ 31"
    using assms length_appendTLV_ge [of _ "[]" tagSequence] unfolding octets_Marshal_def by (rule le_less_trans [rotated])
  show "\<forall>v \<in> set vs. length v < 2 ^ 31"
  proof
    fix v assume "v \<in> set vs"
    then have "length (appendTLV [] tagOctetString v) \<le> length (concat (map (appendTLV [] tagOctetString) vs))"
      by (simp add: length_concat member_le_sum_list)
    with inner length_appendTLV_ge [of v "[]" tagOctetString] show "length v < 2 ^ 31" by linarith
  qed
qed

lemma slices_roundtrip:
  assumes "length (slices_Marshal vs) < 2 ^ 31"
  shows "slices_Unmarshal (slices_Marshal vs) = Some (vs, [])"
proof -
  have len: "length (octets_Marshal vs) < 2 ^ 31"
    using assms length_appendTLV_ge [of _ "[]" tagSequence] unfolding slices_Marshal_def by (rule le_less_trans [rotated])
  note l = octets_Marshal_lengths [OF len]
  show ?thesis
    using asn1_element_appendTLV [OF len, of tagSequence "[]"] asn1_element_appendTLV [OF l(1), of tagSequence "[]"]
      asn1_octets_concat [OF l(2)]
    by (simp add: slices_Unmarshal_def slices_Marshal_def octets_Marshal_def)
qed

lemma string_of_octets_of_string: "string_of_octets (bytes_of_string s) = s"
  by (induction s) (auto simp: string_of_octets_def bytes_of_string_def unat_of_char)

definition valid_utf8 :: "string \<Rightarrow> bool" where
  "valid_utf8 s \<longleftrightarrow> utf8_runes (map of_char s) \<noteq> None"

lemma unat_bytes_of_string: "map unat (bytes_of_string s) = map of_char s"
  by (induction s) (auto simp: bytes_of_string_def unat_of_char)

lemma named_slices_roundtrip:
  assumes "length (named_slices_Marshal (s, vs)) < 2 ^ 31" and "valid_utf8 s"
  shows "named_slices_Unmarshal other (named_slices_Marshal (s, vs)) = Some ((s, vs), [])"
proof -
  let ?str = "appendTLV [] tagUTF8String (bytes_of_string s)"
  have body: "length (?str @ octets_Marshal vs) < 2 ^ 31"
    using assms(1) length_appendTLV_ge [of "?str @ octets_Marshal vs" "[]" tagSequence]
    by (simp add: named_slices_Marshal_def)
  then have len: "length (octets_Marshal vs) < 2 ^ 31" "length (bytes_of_string s) < 2 ^ 31"
    using length_appendTLV_ge [of "bytes_of_string s" "[]" tagUTF8String] by simp_all
  note l = octets_Marshal_lengths [OF len(1)]
  have "asn1_element tagSequence (octets_Marshal vs @ []) = Some (concat (map (appendTLV [] tagOctetString) vs), [])"
    unfolding octets_Marshal_def by (rule asn1_element_appendTLV) (rule l(1))
  then have inner: "asn1_element tagSequence (octets_Marshal vs) = Some (concat (map (appendTLV [] tagOctetString) vs), [])"
    by simp
  have tag: "\<exists>tl. ?str @ octets_Marshal vs = tagUTF8String # tl" by (simp add: appendTLV_def)
  have "asn1_string other (?str @ octets_Marshal vs) = Some (s, octets_Marshal vs)"
    using tag asn1_element_appendTLV [OF len(2), of tagUTF8String "octets_Marshal vs"] assms(2)
    by (auto simp: asn1_string_def valid_utf8_def unat_bytes_of_string string_of_octets_of_string)
  then show ?thesis
    using asn1_element_appendTLV [OF body, of tagSequence "[]"] inner asn1_octets_concat [OF l(2)]
    by (simp add: named_slices_Unmarshal_def named_slices_Marshal_def)
qed

lemma UnmarshalCanonicalDER_Inr:
  "UnmarshalCanonicalDER u m True b = Inr v \<longleftrightarrow> u b = Some (v, []) \<and> b = m v"
  by (auto simp: UnmarshalCanonicalDER_def split: option.splits if_splits)

end
