(* ===== verification/Fabtoken_Actions.thy ===== *)
theory Fabtoken_Actions
  imports Htlc Asn1
begin

text \<open>
  The actions of the fabtoken driver: typed tokens (\<open>src/token/services/tokens/typed.go\<close>,
  \<open>src/token/services/tokens/core/fabtoken/token.go\<close>), outputs, issue and transfer actions with
  their serialization, resource limits and structural validation
  (\<open>src/token/core/fabtoken/v1/actions\<close>), and the driver's public parameters
  (\<open>src/token/core/fabtoken/v1/setup/setup.go\<close>).

  A metadata map is an association list, as in the request validator. The protobuf and JSON codecs
  are parameters, \<open>None\<close> being an error; the DER codec of typed tokens is written out, since
  \<open>encoding/asn1\<close> belongs to the standard library. A decoding method takes the receiver it fills
  as an argument.
\<close>

section \<open>Typed tokens\<close>

text \<open>
  A structure of an \<open>int32\<close> and a byte slice; \<open>asn1.Unmarshal\<close> ignores bytes that follow the last
  field inside the sequence.
\<close>

record TypedToken =
  tt_Type :: u32
  tt_Token :: bytes

definition TypedToken_Bytes :: "TypedToken \<Rightarrow> bytes" where
  "TypedToken_Bytes t =
     appendTLV [] tagSequence
       (appendTLV [] tagInteger (encodeInt32 (tt_Type t)) @ appendTLV [] tagOctetString (tt_Token t))"

definition UnmarshalTypedToken :: "bytes \<Rightarrow> go_error + TypedToken" where
  "UnmarshalTypedToken raw =
     (case asn1_element tagSequence raw of
        None \<Rightarrow> Inl (Errorf ''failed to unmarshal to TypedToken'')
      | Some (body, rest) \<Rightarrow>
          (case asn1_element tagInteger body of
             None \<Rightarrow> Inl (Errorf ''failed to unmarshal to TypedToken'')
           | Some (i, body) \<Rightarrow>
               (case (parseInt32 i, asn1_element tagOctetString body) of
                  (Inr typ, Some (tok, _)) \<Rightarrow>
                    if rest \<noteq> [] then Inl (Errorf ''trailing bytes after TypedToken'')
                    else Inr \<lparr>tt_Type = typ, tt_Token = tok\<rparr>
                | _ \<Rightarrow> Inl (Errorf ''failed to unmarshal to TypedToken''))))"

definition tokens_WrapWithType :: "u32 \<Rightarrow> bytes \<Rightarrow> bytes" where
  "tokens_WrapWithType typ tok = TypedToken_Bytes \<lparr>tt_Type = typ, tt_Token = tok\<rparr>"

definition fabtoken_Type :: u32 where "fabtoken_Type = 1"

definition WrapTokenWithType :: "bytes \<Rightarrow> bytes" where
  "WrapTokenWithType tok = tokens_WrapWithType fabtoken_Type tok"

definition fabtoken_UnmarshalTypedToken :: "bytes \<Rightarrow> go_error + TypedToken" where
  "fabtoken_UnmarshalTypedToken raw =
     bind_sum (UnmarshalTypedToken raw) (\<lambda>t.
       if tt_Type t \<noteq> fabtoken_Type then Inl (Errorf ''invalid token type'') else Inr t)"

section \<open>Outputs\<close>

type_synonym Output = token

definition Output_Serialize :: "(Output \<Rightarrow> bytes option) \<Rightarrow> Output \<Rightarrow> go_error + bytes" where
  "Output_Serialize json_Marshal t =
     (case json_Marshal t of
        None \<Rightarrow> Inl (Errorf ''failed serializing token'')
      | Some raw \<Rightarrow> Inr (WrapTokenWithType raw))"

definition Output_Deserialize :: "(bytes \<Rightarrow> Output option) \<Rightarrow> bytes \<Rightarrow> go_error + Output" where
  "Output_Deserialize json_Unmarshal raw =
     bind_sum (fabtoken_UnmarshalTypedToken raw) (\<lambda>typed.
       case json_Unmarshal (tt_Token typed) of
         None \<Rightarrow> Inl (Errorf ''invalid token'') | Some t \<Rightarrow> Inr t)"

definition Output_IsRedeem :: "Output \<Rightarrow> bool" where
  "Output_IsRedeem t \<longleftrightarrow> length (Owner t) = 0"

definition Output_Validate :: "Output \<Rightarrow> bool \<Rightarrow> go_error + unit" where
  "Output_Validate t checkOwner =
     (if checkOwner \<and> length (Owner t) = 0 then Inl (Errorf ''token owner cannot be empty'')
      else if length (Quantity t) = 0 then Inl (Errorf ''token quantity cannot be empty'')
      else if length (Type t) = 0 then Inl (Errorf ''token type cannot be empty'')
      else Inr ())"

text \<open>Metadata of an output: the issuer, wrapped in the same structure as a token.\<close>

record TypedMetadata =
  tm_Type :: u32
  tm_Metadata :: bytes

definition TypedMetadata_Bytes :: "TypedMetadata \<Rightarrow> bytes" where
  "TypedMetadata_Bytes m =
     appendTLV [] tagSequence
       (appendTLV [] tagInteger (encodeInt32 (tm_Type m)) @ appendTLV [] tagOctetString (tm_Metadata m))"

definition UnmarshalTypedMetadata :: "bytes \<Rightarrow> go_error + TypedMetadata" where
  "UnmarshalTypedMetadata raw =
     (case asn1_element tagSequence raw of
        None \<Rightarrow> Inl (Errorf ''failed to unmarshal to TypedMetadata'')
      | Some (body, rest) \<Rightarrow>
          (case asn1_element tagInteger body of
             None \<Rightarrow> Inl (Errorf ''failed to unmarshal to TypedMetadata'')
           | Some (i, body) \<Rightarrow>
               (case (parseInt32 i, asn1_element tagOctetString body) of
                  (Inr typ, Some (md, _)) \<Rightarrow>
                    if rest \<noteq> [] then Inl (Errorf ''trailing bytes after TypedMetadata'')
                    else Inr \<lparr>tm_Type = typ, tm_Metadata = md\<rparr>
                | _ \<Rightarrow> Inl (Errorf ''failed to unmarshal to TypedMetadata''))))"

definition tokens_WrapMetadataWithType :: "u32 \<Rightarrow> bytes \<Rightarrow> bytes" where
  "tokens_WrapMetadataWithType typ md = TypedMetadata_Bytes \<lparr>tm_Type = typ, tm_Metadata = md\<rparr>"

definition WrapMetadataWithType :: "bytes \<Rightarrow> bytes" where
  "WrapMetadataWithType md = tokens_WrapMetadataWithType fabtoken_Type md"

definition fabtoken_UnmarshalTypedMetadata :: "bytes \<Rightarrow> go_error + TypedMetadata" where
  "fabtoken_UnmarshalTypedMetadata raw =
     bind_sum (UnmarshalTypedMetadata raw) (\<lambda>m.
       if tm_Type m \<noteq> fabtoken_Type then Inl (Errorf ''invalid metadata type'') else Inr m)"

record OutputMetadata =
  om_Issuer :: bytes

definition OutputMetadata_Deserialize ::
  "(bytes \<Rightarrow> OutputMetadata option) \<Rightarrow> bytes \<Rightarrow> go_error + OutputMetadata" where
  "OutputMetadata_Deserialize json_Unmarshal b =
     bind_sum (fabtoken_UnmarshalTypedToken b) (\<lambda>typed.
       case json_Unmarshal (tt_Token typed) of
         None \<Rightarrow> Inl (Errorf ''invalid metadata'') | Some m \<Rightarrow> Inr m)"

definition OutputMetadata_Serialize ::
  "(OutputMetadata \<Rightarrow> bytes option) \<Rightarrow> OutputMetadata \<Rightarrow> go_error + bytes" where
  "OutputMetadata_Serialize json_Marshal m =
     (case json_Marshal m of
        None \<Rightarrow> Inl (Errorf ''failed serializing token'')
      | Some raw \<Rightarrow> Inr (WrapMetadataWithType raw))"

section \<open>Limits\<close>

definition checkMetadataLimits :: "metadata \<Rightarrow> int \<Rightarrow> int \<Rightarrow> int \<Rightarrow> go_error + unit" where
  "checkMetadataLimits md maxEntries maxKeyBytes maxValueBytes =
     (if int (length md) > maxEntries then Inl (Errorf ''too many metadata entries'')
      else fold_sum (\<lambda>(k, v) _.
        if int (length k) > maxKeyBytes then Inl (Errorf ''metadata key too large'')
        else if int (length v) > maxValueBytes then Inl (Errorf ''metadata value too large'')
        else Inr ()) md ())"

section \<open>Messages\<close>

text \<open>The protobuf messages of \<open>src/token/core/fabtoken/protos-go/v1/actions/ftactions.pb.go\<close>.\<close>

record pb_Token =
  pbtok_Owner :: bytes
  pbtok_Type :: string
  pbtok_Quantity :: string

record pb_ActionOutput =
  pbao_Token :: "pb_Token option"

record pb_IssueAction =
  pbia_Version :: u32
  pbia_Issuer :: "pb_Identity option"
  pbia_Outputs :: "pb_ActionOutput option list"
  pbia_Metadata :: metadata

record pb_TransferActionInput =
  pbtai_TokenId :: "pb_TokenID option"
  pbtai_Input :: "pb_Token option"

record pb_TransferAction =
  pbta_Version :: u32
  pbta_Inputs :: "pb_TransferActionInput option list"
  pbta_Outputs :: "pb_ActionOutput option list"
  pbta_Metadata :: metadata
  pbta_Issuer :: "pb_Identity option"

definition actions_ProtocolV1 :: u32 where "actions_ProtocolV1 = 1"

definition output_message :: "Output \<Rightarrow> pb_ActionOutput" where
  "output_message t =
     \<lparr>pbao_Token = Some \<lparr>pbtok_Owner = Owner t, pbtok_Type = Type t, pbtok_Quantity = Quantity t\<rparr>\<rparr>"

text \<open>The body of the loops that read outputs back.\<close>

definition message_output :: "pb_ActionOutput option \<Rightarrow> Output option" where
  "message_output m =
     (case m of
        None \<Rightarrow> None
      | Some m \<Rightarrow>
          (case pbao_Token m of
             None \<Rightarrow> None
           | Some t \<Rightarrow> Some \<lparr>Owner = pbtok_Owner t, Type = pbtok_Type t, Quantity = pbtok_Quantity t\<rparr>))"

text \<open>The loops that serialize the outputs of an action.\<close>

definition serialize_outputs ::
  "(Output \<Rightarrow> bytes option) \<Rightarrow> Output option list \<Rightarrow> go_error + bytes list" where
  "serialize_outputs json_Marshal outs =
     map_sum_list (\<lambda>out. case out of
         None \<Rightarrow> Inl (Errorf ''nil output'')
       | Some out \<Rightarrow>
           (case Output_Serialize json_Marshal out of
              Inl _ \<Rightarrow> Inl (Errorf ''failed to serialize output'') | Inr ser \<Rightarrow> Inr ser)) outs"

section \<open>Issue actions\<close>

record IssueAction =
  fia_Issuer :: identity
  fia_Outputs :: "Output option list"
  fia_Metadata :: metadata
  fia_limits :: "ResourceLimits option"

definition zero_IssueAction :: IssueAction where
  "zero_IssueAction = \<lparr>fia_Issuer = None, fia_Outputs = [], fia_Metadata = [], fia_limits = None\<rparr>"

definition IssueAction_SetLimits :: "ResourceLimits \<Rightarrow> IssueAction \<Rightarrow> IssueAction" where
  "IssueAction_SetLimits l i = i\<lparr>fia_limits := Some l\<rparr>"

definition effective_limits :: "ResourceLimits option \<Rightarrow> ResourceLimits" where
  "effective_limits l = (case l of None \<Rightarrow> DefaultResourceLimits | Some l \<Rightarrow> l)"

definition IssueAction_effectiveLimits :: "IssueAction \<Rightarrow> ResourceLimits" where
  "IssueAction_effectiveLimits i = effective_limits (fia_limits i)"

definition IssueAction_Serialize ::
  "(pb_IssueAction \<Rightarrow> bytes option) \<Rightarrow> IssueAction \<Rightarrow> go_error + bytes" where
  "IssueAction_Serialize marshal i =
     bind_sum (ToProtosSlice (\<lambda>out. Inr (output_message out)) (fia_Outputs i)) (\<lambda>outputs.
       case marshal \<lparr>pbia_Version = actions_ProtocolV1,
              pbia_Issuer = Some \<lparr>pbi_Raw = fia_Issuer i\<rparr>, pbia_Outputs = outputs,
              pbia_Metadata = fia_Metadata i\<rparr> of
         None \<Rightarrow> Inl (Errorf ''failed to marshal'') | Some raw \<Rightarrow> Inr raw)"

definition IssueAction_Deserialize ::
  "(bytes \<Rightarrow> pb_IssueAction option) \<Rightarrow> IssueAction \<Rightarrow> bytes \<Rightarrow> go_error + IssueAction" where
  "IssueAction_Deserialize unmarshal i raw =
     (case unmarshal raw of
        None \<Rightarrow> Inl (Errorf ''failed to deserialize issue action'')
      | Some m \<Rightarrow>
          if pbia_Version m \<noteq> actions_ProtocolV1 then Inl (Errorf ''invalid issue version'')
          else let limits = IssueAction_effectiveLimits i in
            if int (length (pbia_Outputs m)) > MaxOutputs limits then Inl (Errorf ''too many outputs'')
            else bind_sum (checkMetadataLimits (pbia_Metadata m) (MaxMetadataEntries limits)
                   (MaxMetadataKeyBytes limits) (MaxMetadataValueBytes limits)) (\<lambda>_.
              Inr (i\<lparr>fia_Outputs := map message_output (pbia_Outputs m),
                     fia_Issuer := (case pbia_Issuer m of
                        None \<Rightarrow> fia_Issuer i | Some m \<Rightarrow> pbi_Raw m),
                     fia_Metadata := pbia_Metadata m\<rparr>)))"

definition IssueAction_GetSerializedOutputs ::
  "(Output \<Rightarrow> bytes option) \<Rightarrow> IssueAction \<Rightarrow> go_error + bytes list" where
  "IssueAction_GetSerializedOutputs json_Marshal i = serialize_outputs json_Marshal (fia_Outputs i)"

definition validate_output :: "Output option \<Rightarrow> go_error + unit" where
  "validate_output out =
     (case out of
        None \<Rightarrow> Inl (Errorf ''nil output'')
      | Some out \<Rightarrow>
          if length (Type out) = 0 then Inl (Errorf ''output type is empty'')
          else if length (Quantity out) = 0 then Inl (Errorf ''output quantity is empty'')
          else Inr ())"

definition IssueAction_Validate :: "htlc_env \<Rightarrow> IssueAction \<Rightarrow> go_error + unit" where
  "IssueAction_Validate E i =
     (if id_IsNone E (fia_Issuer i) then Inl (Errorf ''issuer is not set'')
      else if length (fia_Outputs i) = 0 then Inl (Errorf ''no outputs in issue action'')
      else let limits = IssueAction_effectiveLimits i in
        if int (length (fia_Outputs i)) > MaxOutputs limits then Inl (Errorf ''too many outputs'')
        else bind_sum (fold_sum (\<lambda>out _. validate_output out) (fia_Outputs i) ()) (\<lambda>_.
          checkMetadataLimits (fia_Metadata i) (MaxMetadataEntries limits)
            (MaxMetadataKeyBytes limits) (MaxMetadataValueBytes limits)))"

section \<open>Transfer actions\<close>

record TransferActionInput =
  tai_ID :: "token_id option"
  tai_Input :: "Output option"

record TransferAction =
  fta_Inputs :: "TransferActionInput option list"
  fta_Outputs :: "Output option list"
  fta_Metadata :: metadata
  fta_Issuer :: identity
  fta_limits :: "ResourceLimits option"

definition zero_TransferAction :: TransferAction where
  "zero_TransferAction =
     \<lparr>fta_Inputs = [], fta_Outputs = [], fta_Metadata = [], fta_Issuer = None, fta_limits = None\<rparr>"

definition TransferActionInput_ToProtos :: "TransferActionInput \<Rightarrow> go_error + pb_TransferActionInput" where
  "TransferActionInput_ToProtos a =
     Inr \<lparr>pbtai_TokenId = map_option (\<lambda>i. \<lparr>pbid_TxId = TxId i, pbid_Index = Index i\<rparr>) (tai_ID a),
          pbtai_Input = map_option (\<lambda>t. \<lparr>pbtok_Owner = Owner t, pbtok_Type = Type t,
             pbtok_Quantity = Quantity t\<rparr>) (tai_Input a)\<rparr>"

definition TransferActionInput_FromProtos ::
  "TransferActionInput \<Rightarrow> pb_TransferActionInput \<Rightarrow> go_error + TransferActionInput" where
  "TransferActionInput_FromProtos a m =
     Inr (a\<lparr>tai_ID := (case pbtai_TokenId m of
               None \<Rightarrow> tai_ID a | Some i \<Rightarrow> Some \<lparr>TxId = pbid_TxId i, Index = pbid_Index i\<rparr>),
            tai_Input := (case pbtai_Input m of
               None \<Rightarrow> tai_Input a
             | Some t \<Rightarrow> Some \<lparr>Owner = pbtok_Owner t, Type = pbtok_Type t, Quantity = pbtok_Quantity t\<rparr>)\<rparr>)"

definition TransferAction_SetLimits :: "ResourceLimits \<Rightarrow> TransferAction \<Rightarrow> TransferAction" where
  "TransferAction_SetLimits l t = t\<lparr>fta_limits := Some l\<rparr>"

definition TransferAction_effectiveLimits :: "TransferAction \<Rightarrow> ResourceLimits" where
  "TransferAction_effectiveLimits t = effective_limits (fta_limits t)"

definition TransferAction_GetSerializedOutputs ::
  "(Output \<Rightarrow> bytes option) \<Rightarrow> TransferAction \<Rightarrow> go_error + bytes list" where
  "TransferAction_GetSerializedOutputs json_Marshal t = serialize_outputs json_Marshal (fta_Outputs t)"

definition TransferAction_IsRedeemAt :: "TransferAction \<Rightarrow> nat \<Rightarrow> go_error + bool" where
  "TransferAction_IsRedeemAt t index =
     (if index \<ge> length (fta_Outputs t) then Inl NilPointer
      else case fta_Outputs t ! index of None \<Rightarrow> Inl NilPointer | Some out \<Rightarrow> Inr (Output_IsRedeem out))"

fun any_redeem :: "Output option list \<Rightarrow> go_error + bool" where
  "any_redeem [] = Inr False"
| "any_redeem (out # outs) =
     (case out of None \<Rightarrow> Inl NilPointer
      | Some out \<Rightarrow> if Output_IsRedeem out then Inr True else any_redeem outs)"

definition TransferAction_IsRedeem :: "TransferAction \<Rightarrow> go_error + bool" where
  "TransferAction_IsRedeem t = any_redeem (fta_Outputs t)"

definition TransferAction_SerializeOutputAt ::
  "(Output \<Rightarrow> bytes option) \<Rightarrow> TransferAction \<Rightarrow> nat \<Rightarrow> go_error + bytes" where
  "TransferAction_SerializeOutputAt json_Marshal t index =
     (if index \<ge> length (fta_Outputs t) then Inl (Errorf ''it does not exist'')
      else case fta_Outputs t ! index of
        None \<Rightarrow> Inl (Errorf ''nil output'') | Some out \<Rightarrow> Output_Serialize json_Marshal out)"

definition TransferAction_GetInputs :: "TransferAction \<Rightarrow> go_error + token_id option list" where
  "TransferAction_GetInputs t =
     map_sum_list (\<lambda>input. case input of None \<Rightarrow> Inl NilPointer | Some i \<Rightarrow> Inr (tai_ID i)) (fta_Inputs t)"

text \<open>\<open>json.Marshal\<close> of a \<open>nil\<close> pointer is the text \<open>null\<close>.\<close>

definition TransferAction_GetSerializedInputs ::
  "(Output \<Rightarrow> bytes option) \<Rightarrow> TransferAction \<Rightarrow> go_error + bytes list" where
  "TransferAction_GetSerializedInputs json_Marshal t =
     map_sum_list (\<lambda>input. case input of
         None \<Rightarrow> Inr []
       | Some i \<Rightarrow>
           (case tai_Input i of
              None \<Rightarrow> Inr (WrapTokenWithType (bytes_of_string ''null''))
            | Some tok \<Rightarrow> Output_Serialize json_Marshal tok)) (fta_Inputs t)"

definition validate_input :: "TransferActionInput option \<Rightarrow> go_error + unit" where
  "validate_input input =
     (case input of
        None \<Rightarrow> Inl (Errorf ''empty input'')
      | Some i \<Rightarrow>
          (case tai_ID i of
             None \<Rightarrow> Inl (Errorf ''invalid input's ID, it is empty'')
           | Some tid \<Rightarrow>
               if length (TxId tid) = 0 then Inl (Errorf ''invalid input's ID, tx id is empty'')
               else (case tai_Input i of
                  None \<Rightarrow> Inl (Errorf ''empty token'')
                | Some tok \<Rightarrow> Output_Validate tok True)))"

definition TransferAction_Validate :: "TransferAction \<Rightarrow> go_error + unit" where
  "TransferAction_Validate t =
     (if length (fta_Inputs t) = 0 then Inl (Errorf ''invalid number of token inputs'')
      else let limits = TransferAction_effectiveLimits t in
        if int (length (fta_Inputs t)) > MaxInputs limits then Inl (Errorf ''too many inputs'')
        else bind_sum (fold_sum (\<lambda>input _. validate_input input) (fta_Inputs t) ()) (\<lambda>_.
          if int (length (fta_Outputs t)) > MaxOutputs limits then Inl (Errorf ''too many outputs'')
          else bind_sum (fold_sum (\<lambda>out _. validate_output out) (fta_Outputs t) ()) (\<lambda>_.
            checkMetadataLimits (fta_Metadata t) (MaxMetadataEntries limits)
              (MaxMetadataKeyBytes limits) (MaxMetadataValueBytes limits))))"

definition TransferAction_Serialize ::
  "(pb_TransferAction \<Rightarrow> bytes option) \<Rightarrow> TransferAction \<Rightarrow> go_error + bytes" where
  "TransferAction_Serialize marshal t =
     bind_sum (ToProtosSlice TransferActionInput_ToProtos (fta_Inputs t)) (\<lambda>inputs.
     bind_sum (ToProtosSlice (\<lambda>out. Inr (output_message out)) (fta_Outputs t)) (\<lambda>outputs.
       case marshal \<lparr>pbta_Version = actions_ProtocolV1, pbta_Inputs = inputs, pbta_Outputs = outputs,
              pbta_Metadata = fta_Metadata t,
              pbta_Issuer = (case fta_Issuer t of
                 None \<Rightarrow> None | Some b \<Rightarrow> Some \<lparr>pbi_Raw = Some b\<rparr>)\<rparr> of
         None \<Rightarrow> Inl (Errorf ''failed to marshal'') | Some raw \<Rightarrow> Inr raw))"

definition TransferAction_Deserialize ::
  "(bytes \<Rightarrow> pb_TransferAction option) \<Rightarrow> TransferAction \<Rightarrow> bytes \<Rightarrow> go_error + TransferAction" where
  "TransferAction_Deserialize unmarshal t raw =
     (case unmarshal raw of
        None \<Rightarrow> Inl (Errorf ''failed to deserialize issue action'')
      | Some m \<Rightarrow>
          if pbta_Version m \<noteq> actions_ProtocolV1 then Inl (Errorf ''invalid issue version'')
          else let limits = TransferAction_effectiveLimits t in
            if int (length (pbta_Inputs m)) > MaxInputs limits then Inl (Errorf ''too many inputs'')
            else if int (length (pbta_Outputs m)) > MaxOutputs limits then Inl (Errorf ''too many outputs'')
            else bind_sum (checkMetadataLimits (pbta_Metadata m) (MaxMetadataEntries limits)
                   (MaxMetadataKeyBytes limits) (MaxMetadataValueBytes limits)) (\<lambda>_.
              bind_sum (wrap_err (\<lambda>_. Errorf ''failed unmarshalling receivers metadata'')
                (FromProtosSlice TransferActionInput_FromProtos (pbta_Inputs m)
                  (GenericSliceOfPointers \<lparr>tai_ID = None, tai_Input = None\<rparr> (length (pbta_Inputs m))))) (\<lambda>inputs.
              Inr (t\<lparr>fta_Inputs := inputs,
                     fta_Outputs := map message_output (pbta_Outputs m),
                     fta_Metadata := pbta_Metadata m,
                     fta_Issuer := (case pbta_Issuer m of None \<Rightarrow> None | Some i \<Rightarrow> pbi_Raw i)\<rparr>))))"

section \<open>Public parameters\<close>

record PublicParams =
  pp_DriverName :: string
  pp_DriverVersion :: u32
  pp_QuantityPrecision :: u64
  pp_MaxToken :: u64
  pp_Auditor :: bytes
  pp_IssuerIDs :: "identity list"
  pp_ExtraData :: metadata

record pb_PublicParameters =
  pbpp_TokenDriverName :: string
  pbpp_TokenDriverVersion :: u32
  pbpp_Auditor :: "pb_Identity option"
  pbpp_Issuers :: "pb_Identity option list"
  pbpp_MaxToken :: u64
  pbpp_QuantityPrecision :: u64
  pbpp_Metadata :: metadata

text \<open>The container that carries serialized parameters with the identifier of their driver.\<close>

record pb_PPContainer =
  ppc_Identifier :: string
  ppc_Raw :: bytes

definition FabTokenDriverName :: string where "FabTokenDriverName = ''fabtoken''"
definition setup_ProtocolV1 :: u32 where "setup_ProtocolV1 = 1"

definition DriverIdentifier :: "string \<Rightarrow> u32 \<Rightarrow> string" where
  "DriverIdentifier name ver = name @ ''.v'' @ int_text 10 (uint ver)"

definition max_token_value :: "u64 \<Rightarrow> u64" where
  "max_token_value precision =
     (if unat precision < 64 then push_bit (unat precision) 1 else 0) - 1"

definition NewWith :: "string \<Rightarrow> u32 \<Rightarrow> u64 \<Rightarrow> go_error + PublicParams" where
  "NewWith driverName driverVersion precision =
     (if precision > 64 then Inl (Errorf ''invalid precision, must be smaller or equal than 64'')
      else if precision = 0 then Inl (Errorf ''invalid precision, should be greater than 0'')
      else Inr \<lparr>pp_DriverName = driverName, pp_DriverVersion = driverVersion,
                pp_QuantityPrecision = precision, pp_MaxToken = max_token_value precision,
                pp_Auditor = [], pp_IssuerIDs = [], pp_ExtraData = []\<rparr>)"

definition Setup :: "u64 \<Rightarrow> go_error + PublicParams" where
  "Setup precision = NewWith FabTokenDriverName setup_ProtocolV1 precision"

definition WithVersion :: "u64 \<Rightarrow> u32 \<Rightarrow> go_error + PublicParams" where
  "WithVersion precision version = NewWith FabTokenDriverName version precision"

definition PublicParams_Bytes :: "(pb_PublicParameters \<Rightarrow> bytes option) \<Rightarrow> PublicParams \<Rightarrow> go_error + bytes" where
  "PublicParams_Bytes marshal p =
     bind_sum (ToProtosSlice (\<lambda>i. Inr \<lparr>pbi_Raw = Some i\<rparr>) (pp_IssuerIDs p)) (\<lambda>issuers.
       case marshal \<lparr>pbpp_TokenDriverName = pp_DriverName p,
              pbpp_TokenDriverVersion = pp_DriverVersion p,
              pbpp_Auditor = Some \<lparr>pbi_Raw = Some (pp_Auditor p)\<rparr>, pbpp_Issuers = issuers,
              pbpp_MaxToken = pp_MaxToken p, pbpp_QuantityPrecision = pp_QuantityPrecision p,
              pbpp_Metadata = pp_ExtraData p\<rparr> of
         None \<Rightarrow> Inl (Errorf ''failed to marshal'') | Some raw \<Rightarrow> Inr raw)"

definition PublicParams_FromBytes ::
  "(bytes \<Rightarrow> pb_PublicParameters option) \<Rightarrow> PublicParams \<Rightarrow> bytes \<Rightarrow> go_error + PublicParams" where
  "PublicParams_FromBytes unmarshal p data =
     (case unmarshal data of
        None \<Rightarrow> Inl (Errorf ''failed to unmarshal public parameters'')
      | Some m \<Rightarrow>
          Inr (p\<lparr>pp_DriverVersion := pbpp_TokenDriverVersion m,
                 pp_QuantityPrecision := pbpp_QuantityPrecision m,
                 pp_MaxToken := pbpp_MaxToken m,
                 pp_IssuerIDs := map (\<lambda>i. case i of None \<Rightarrow> None | Some i \<Rightarrow> pbi_Raw i) (pbpp_Issuers m),
                 pp_Auditor := (case pbpp_Auditor m of
                    None \<Rightarrow> pp_Auditor p
                  | Some i \<Rightarrow> (case pbi_Raw i of None \<Rightarrow> [] | Some b \<Rightarrow> b)),
                 pp_ExtraData := pbpp_Metadata m\<rparr>))"

definition PublicParams_Serialize ::
  "(pb_PublicParameters \<Rightarrow> bytes option) \<Rightarrow> (pb_PPContainer \<Rightarrow> bytes option) \<Rightarrow> PublicParams \<Rightarrow>
   go_error + bytes" where
  "PublicParams_Serialize marshal container_Marshal p =
     bind_sum (PublicParams_Bytes marshal p) (\<lambda>raw.
       case container_Marshal \<lparr>ppc_Identifier = DriverIdentifier (pp_DriverName p) (pp_DriverVersion p),
              ppc_Raw = raw\<rparr> of
         None \<Rightarrow> Inl (Errorf ''failed to marshal'') | Some b \<Rightarrow> Inr b)"

definition PublicParams_Deserialize ::
  "(bytes \<Rightarrow> pb_PublicParameters option) \<Rightarrow> (bytes \<Rightarrow> pb_PPContainer option) \<Rightarrow> PublicParams \<Rightarrow> bytes \<Rightarrow>
   go_error + PublicParams" where
  "PublicParams_Deserialize unmarshal container_Unmarshal p raw =
     (case container_Unmarshal raw of
        None \<Rightarrow> Inl (Errorf ''failed to deserialize public parameters'')
      | Some c \<Rightarrow>
          if ppc_Identifier c \<noteq> DriverIdentifier (pp_DriverName p) (pp_DriverVersion p)
          then Inl (Errorf ''invalid identifier'')
          else PublicParams_FromBytes unmarshal p (ppc_Raw c))"

definition NewPublicParamsFromBytes ::
  "(bytes \<Rightarrow> pb_PublicParameters option) \<Rightarrow> (bytes \<Rightarrow> pb_PPContainer option) \<Rightarrow> bytes \<Rightarrow> string \<Rightarrow> u32 \<Rightarrow>
   go_error + PublicParams" where
  "NewPublicParamsFromBytes unmarshal container_Unmarshal raw driverName driverVersion =
     PublicParams_Deserialize unmarshal container_Unmarshal
       \<lparr>pp_DriverName = driverName, pp_DriverVersion = driverVersion, pp_QuantityPrecision = 0,
        pp_MaxToken = 0, pp_Auditor = [], pp_IssuerIDs = [], pp_ExtraData = []\<rparr> raw"

definition SetAuditors :: "PublicParams \<Rightarrow> bytes list \<Rightarrow> go_error + PublicParams" where
  "SetAuditors p ids =
     (case ids of [] \<Rightarrow> Inl (Errorf ''no auditor identities provided'')
      | a # _ \<Rightarrow> Inr (p\<lparr>pp_Auditor := a\<rparr>))"

definition AddIssuer :: "identity \<Rightarrow> PublicParams \<Rightarrow> PublicParams" where
  "AddIssuer issuer p = p\<lparr>pp_IssuerIDs := pp_IssuerIDs p @ [issuer]\<rparr>"

definition SetIssuers :: "identity list \<Rightarrow> PublicParams \<Rightarrow> PublicParams" where
  "SetIssuers ids p = p\<lparr>pp_IssuerIDs := ids\<rparr>"

definition AddAuditor :: "bytes \<Rightarrow> PublicParams \<Rightarrow> PublicParams" where
  "AddAuditor auditor p = p\<lparr>pp_Auditor := auditor\<rparr>"

definition Auditors :: "PublicParams \<Rightarrow> identity list" where
  "Auditors p = (if length (pp_Auditor p) = 0 then [] else [Some (pp_Auditor p)])"

definition Issuers :: "PublicParams \<Rightarrow> identity list" where
  "Issuers p = pp_IssuerIDs p"

definition PublicParams_Validate :: "PublicParams \<Rightarrow> go_error + unit" where
  "PublicParams_Validate p =
     (if pp_QuantityPrecision p > 64 then Inl (Errorf ''invalid precision, must be less than 64'')
      else if pp_QuantityPrecision p = 0 then Inl (Errorf ''invalid precision, must be greater than 0'')
      else if pp_MaxToken p > max_token_value (pp_QuantityPrecision p)
      then Inl (Errorf ''max token value is invalid'')
      else Inr ())"

section \<open>Round trips\<close>

lemma typed_token_roundtrip:
  assumes "length (TypedToken_Bytes t) < 2 ^ 31"
  shows "UnmarshalTypedToken (TypedToken_Bytes t) = Inr t"
proof -
  let ?i = "appendTLV [] tagInteger (encodeInt32 (tt_Type t))" and ?o = "appendTLV [] tagOctetString (tt_Token t)"
  have len: "length (?i @ ?o) < 2 ^ 31" "length (encodeInt32 (tt_Type t)) < 2 ^ 31" "length (tt_Token t) < 2 ^ 31"
    using assms length_encodeInt32 [of "tt_Type t"] by (simp_all add: TypedToken_Bytes_def appendTLV_def)
  have "asn1_element tagSequence (TypedToken_Bytes t) = Some (?i @ ?o, [])"
    using asn1_element_appendTLV [OF len(1), of tagSequence "[]"] by (simp add: TypedToken_Bytes_def)
  moreover have "asn1_element tagInteger (?i @ ?o) = Some (encodeInt32 (tt_Type t), ?o)"
    using len(2) by (rule asn1_element_appendTLV)
  moreover have "asn1_element tagOctetString ?o = Some (tt_Token t, [])"
    using asn1_element_appendTLV [OF len(3), of tagOctetString "[]"] by simp
  ultimately show ?thesis
    by (simp add: UnmarshalTypedToken_def parseInt32_encodeInt32)
qed

end
