(* ===== verification/Fabtoken_Validator.thy ===== *)
theory Fabtoken_Validator
  imports Fabtoken_Actions
begin

text \<open>
  The validator of the fabtoken driver (\<open>src/token/core/fabtoken/v1/validator\<close>): the validation
  functions of issues and transfers, in the order \<open>NewValidator\<close> composes them, over the request
  validator of the common theory.

  Parameters are collected in \<open>fab_env\<close>: the platform's identities and codecs, the deserializer
  of verifiers, the instant that \<open>time.Now\<close> returns, and the protobuf decoders of actions.

  The lemmas read off what an accepted issue or transfer satisfies; the properties state it for
  the requests that \<open>VerifyTokenRequestFromRaw\<close> accepts.
\<close>

section \<open>Context\<close>

record fab_env =
  fe_htlc :: htlc_env
  fe_GetAuditorVerifier :: "nesting_ctx \<Rightarrow> identity \<Rightarrow> go_error + go_error verifier option"
  fe_GetOwnerVerifier :: "nesting_ctx \<Rightarrow> identity \<Rightarrow> go_error + go_error verifier option"
  fe_GetIssuerVerifier :: "nesting_ctx \<Rightarrow> identity \<Rightarrow> go_error + go_error verifier option"
  fe_now :: time
  fe_unmarshal_issue :: "bytes \<Rightarrow> pb_IssueAction option"
  fe_unmarshal_transfer :: "bytes \<Rightarrow> pb_TransferAction option"

type_synonym fab_context =
  "(PublicParams, Output option, TransferAction, IssueAction, go_error) Context"

type_synonym fab_result = "go_error v_error + fab_context"

type_synonym fab_validator =
  "(PublicParams, Output option, TransferAction, IssueAction, go_error) Validator"

definition fab_venv :: "fab_env \<Rightarrow> (PublicParams, go_error) validator_env" where
  "fab_venv E =
     \<lparr>env_Equal = id_Equal (fe_htlc E), env_IsNone = id_IsNone (fe_htlc E), env_Auditors = Auditors,
      env_GetAuditorVerifier = fe_GetAuditorVerifier E, env_GetOwnerVerifier = fe_GetOwnerVerifier E,
      env_GetIssuerVerifier = fe_GetIssuerVerifier E\<rparr>"

abbreviation fail :: "string \<Rightarrow> go_error v_error + 'a" where
  "fail msg \<equiv> Inl (DriverError (Errorf msg))"

definition DeserializeActions ::
  "fab_env \<Rightarrow> ResourceLimits \<Rightarrow> TokenRequest \<Rightarrow>
   go_error v_error + IssueAction option list \<times> TransferAction option list" where
  "DeserializeActions E limits tr =
     bind_sum (wrap_err RequestError (GetIssues tr)) (\<lambda>issues.
     bind_sum (map_sum_list (\<lambda>raw. bind_sum (wrap_err DriverError
         (IssueAction_Deserialize (fe_unmarshal_issue E) (IssueAction_SetLimits limits zero_IssueAction) raw))
         (\<lambda>a. Inr (Some a))) issues) (\<lambda>issueActions.
     bind_sum (wrap_err RequestError (GetTransfers tr)) (\<lambda>transfers.
     bind_sum (map_sum_list (\<lambda>raw. bind_sum (wrap_err DriverError
         (TransferAction_Deserialize (fe_unmarshal_transfer E)
           (TransferAction_SetLimits limits zero_TransferAction) raw))
         (\<lambda>a. Inr (Some a))) transfers) (\<lambda>transferActions.
       Inr (issueActions, transferActions)))))"

section \<open>Issues\<close>

definition check_issued_quantity :: "u64 \<Rightarrow> Output option \<Rightarrow> go_error v_error + unit" where
  "check_issued_quantity precision out =
     (case out of
        None \<Rightarrow> Inl (RequestError NilDereference)
      | Some out \<Rightarrow>
          (case ToQuantity (Quantity out) precision of
             Inl _ \<Rightarrow> fail ''failed parsing quantity''
           | Inr q \<Rightarrow>
               if Quantity_Cmp q (NewZeroQuantity precision) = 0 then fail ''quantity is zero''
               else Inr ()))"

definition IssueValidate ::
  "fab_env \<Rightarrow> nesting_ctx \<Rightarrow> fab_context \<Rightarrow> fab_result" where
  "IssueValidate E c ctx =
     (case ctx_IssueAction ctx of
        None \<Rightarrow> Inl (RequestError NilDereference)
      | Some action \<Rightarrow>
          bind_sum (wrap_err DriverError (IssueAction_Validate (fe_htlc E) action)) (\<lambda>_.
          if length (fia_Outputs action) = 0 then fail ''there is no output''
          else bind_sum (fold_sum (\<lambda>out _. check_issued_quantity (pp_QuantityPrecision (ctx_PP ctx)) out)
                 (fia_Outputs action) ()) (\<lambda>_.
          let issuers = Issuers (ctx_PP ctx) in
          if length issuers \<noteq> 0 \<and> \<not> list_ex (id_Equal (fe_htlc E) (fia_Issuer action)) issuers
          then fail ''issuer not authorized''
          else bind_sum (wrap_err DriverError (fe_GetIssuerVerifier E c (fia_Issuer action))) (\<lambda>verifier.
          if ctx_SignatureProvider ctx = None then Inl ErrNilSignatureProvider
          else bind_sum (HasBeenSignedBy (ctx_SignatureProvider ctx) verifier) (\<lambda>(_, b).
            Inr (ctx\<lparr>ctx_SignatureProvider := Some b\<rparr>))))))"

section \<open>Transfers\<close>

definition TransferActionValidate ::
  "fab_env \<Rightarrow> nesting_ctx \<Rightarrow> fab_context \<Rightarrow> fab_result" where
  "TransferActionValidate E c ctx =
     (case ctx_TransferAction ctx of
        None \<Rightarrow> Inl (RequestError NilDereference)
      | Some action \<Rightarrow>
          bind_sum (wrap_err DriverError (TransferAction_Validate action)) (\<lambda>_. Inr ctx))"

text \<open>
  One iteration of the loop over the inputs: the tokens collected so far, the cache of verifiers by
  owner, and the context.
\<close>

definition input_signature ::
  "fab_env \<Rightarrow> nesting_ctx \<Rightarrow> TransferActionInput option \<Rightarrow>
   Output option list \<times> (bytes \<rightharpoonup> go_error verifier option) \<times> fab_context \<Rightarrow>
   go_error v_error + Output option list \<times> (bytes \<rightharpoonup> go_error verifier option) \<times> fab_context" where
  "input_signature E c input st =
     (case (st, input) of
        ((toks, cache, ctx), Some i) \<Rightarrow>
          (case tai_Input i of
             None \<Rightarrow> fail ''nil input or nil token''
           | Some tok \<Rightarrow>
               let owner = Owner tok in
               bind_sum (case cache owner of
                   Some verifier \<Rightarrow> Inr (verifier, cache)
                 | None \<Rightarrow>
                     bind_sum (wrap_err DriverError (fe_GetOwnerVerifier E c (Some owner))) (\<lambda>verifier.
                       Inr (verifier, cache(owner \<mapsto> verifier)))) (\<lambda>(verifier, cache).
               if ctx_SignatureProvider ctx = None then Inl ErrNilSignatureProvider
               else bind_sum (HasBeenSignedBy (ctx_SignatureProvider ctx) verifier) (\<lambda>(sigma, b).
                 Inr (toks @ [Some tok], cache,
                   ctx\<lparr>ctx_SignatureProvider := Some b,
                       ctx_Signatures := ctx_Signatures ctx @ [sigma]\<rparr>))))
      | _ \<Rightarrow> fail ''nil input or nil token'')"

fun redeem_scan :: "Output option list \<Rightarrow> go_error v_error + bool" where
  "redeem_scan [] = Inr False"
| "redeem_scan (out # outs) =
     (case out of
        None \<Rightarrow> fail ''invalid output''
      | Some out \<Rightarrow> if Output_IsRedeem out then Inr True else redeem_scan outs)"

definition redeem_signature ::
  "fab_env \<Rightarrow> nesting_ctx \<Rightarrow> TransferAction \<Rightarrow> fab_context \<Rightarrow> fab_result" where
  "redeem_signature E c action ctx =
     (case fta_Issuer action of
        None \<Rightarrow> fail ''On Redeem action, must have at least one issuer''
      | Some i \<Rightarrow>
          let issuers = Issuers (ctx_PP ctx) in
          if length issuers \<noteq> 0 \<and> \<not> list_ex (id_Equal (fe_htlc E) (Some i)) issuers
          then fail ''issuer not authorized''
          else bind_sum (wrap_err DriverError (fe_GetIssuerVerifier E c (Some i))) (\<lambda>verifier.
            bind_sum (HasBeenSignedBy (ctx_SignatureProvider ctx) verifier) (\<lambda>(sigma, b).
              Inr (ctx\<lparr>ctx_SignatureProvider := Some b,
                       ctx_Signatures := ctx_Signatures ctx @ [sigma]\<rparr>))))"

definition TransferSignatureValidate ::
  "fab_env \<Rightarrow> nesting_ctx \<Rightarrow> fab_context \<Rightarrow> fab_result" where
  "TransferSignatureValidate E c ctx =
     (case ctx_TransferAction ctx of
        None \<Rightarrow> Inl (RequestError NilDereference)
      | Some action \<Rightarrow>
          if length (fta_Inputs action) = 0 then fail ''invalid number of token inputs''
          else bind_sum (fold_sum (input_signature E c) (fta_Inputs action) ([], Map.empty, ctx))
            (\<lambda>(toks, _, ctx).
              bind_sum (if length (Issuers (ctx_PP ctx)) > 0
                        then bind_sum (redeem_scan (fta_Outputs action)) (\<lambda>isRedeem.
                          if isRedeem then redeem_signature E c action ctx else Inr ctx)
                        else Inr ctx) (\<lambda>ctx.
                Inr (ctx\<lparr>ctx_InputTokens := toks\<rparr>))))"

definition add_balance :: "u64 \<Rightarrow> string \<Rightarrow> Output option \<Rightarrow> quantity \<Rightarrow> go_error v_error + quantity" where
  "add_balance precision typ tok acc =
     (case tok of
        None \<Rightarrow> fail ''nil token''
      | Some t \<Rightarrow>
          bind_sum (wrap_err (\<lambda>_. DriverError (Errorf ''failed parsing quantity''))
             (ToQuantity (Quantity t) precision)) (\<lambda>q.
          bind_sum (wrap_err (\<lambda>_. DriverError (Errorf ''failed adding quantity''))
             (Quantity_Add acc q)) (\<lambda>acc.
            if Type t \<noteq> typ then fail ''type does not match'' else Inr acc)))"

definition TransferBalanceValidate ::
  "fab_env \<Rightarrow> nesting_ctx \<Rightarrow> fab_context \<Rightarrow> fab_result" where
  "TransferBalanceValidate E c ctx =
     (case ctx_TransferAction ctx of
        None \<Rightarrow> Inl (RequestError NilDereference)
      | Some action \<Rightarrow>
          if length (fta_Outputs action) = 0 then fail ''there is no output''
          else (case ctx_InputTokens ctx of
             [] \<Rightarrow> fail ''there is no input''
           | None # _ \<Rightarrow> fail ''first input is nil''
           | Some first # _ \<Rightarrow>
               let typ = Type first; precision = pp_QuantityPrecision (ctx_PP ctx) in
               bind_sum (fold_sum (add_balance precision typ) (ctx_InputTokens ctx)
                 (NewZeroQuantity precision)) (\<lambda>inputSum.
               bind_sum (fold_sum (add_balance precision typ) (fta_Outputs action)
                 (NewZeroQuantity precision)) (\<lambda>outputSum.
                 if Quantity_Cmp inputSum outputSum \<noteq> 0
                 then fail ''input sum does not match output sum'' else Inr ctx))))"

definition htlc_input ::
  "fab_env \<Rightarrow> TransferAction \<Rightarrow> nat \<times> Output option \<Rightarrow> fab_context \<Rightarrow> fab_result" where
  "htlc_input E action input ctx =
     (case input of
        (i, None) \<Rightarrow> fail ''nil input token''
      | (i, Some tok_in) \<Rightarrow>
          bind_sum (wrap_err (\<lambda>e. DriverError (Decode e)) (UnmarshalTypedIdentity (Owner tok_in))) (\<lambda>owner.
          if Ti_Type owner \<noteq> ScriptType then Inr ctx
          else if length (ctx_InputTokens ctx) \<noteq> 1 \<or> length (fta_Outputs action) \<noteq> 1
            then fail ''an htlc script only transfers the ownership of a token''
          else (case fta_Outputs action ! 0 of
             None \<Rightarrow> fail ''output has unexpected type''
           | Some tok \<Rightarrow>
               if Type tok_in \<noteq> Type tok then fail ''type of input does not match type of output''
               else if Quantity tok_in \<noteq> Quantity tok
                 then fail ''quantity of input does not match quantity of output''
               else if Output_IsRedeem tok
                 then fail ''the output corresponding to an htlc spending should not be a redeem''
               else bind_sum (wrap_err DriverError
                   (VerifyOwner (fe_htlc E) (Owner tok_in) (Owner tok) (fe_now E))) (\<lambda>(script, op).
                 if i \<ge> length (ctx_Signatures ctx) then fail ''missing signature for input''
                 else bind_sum (wrap_err DriverError
                     (MetadataClaimKeyCheck (fe_htlc E) (fta_Metadata action) script op
                       (ctx_Signatures ctx ! i))) (\<lambda>metadataKey.
                   Inr (if op \<noteq> Reclaim then CountMetadataKey metadataKey ctx else ctx))))))"

definition htlc_output ::
  "fab_env \<Rightarrow> TransferAction \<Rightarrow> Output option \<Rightarrow> fab_context \<Rightarrow> fab_result" where
  "htlc_output E action out ctx =
     (case out of
        None \<Rightarrow> fail ''invalid output''
      | Some out \<Rightarrow>
          if Output_IsRedeem out then Inr ctx
          else bind_sum (wrap_err (\<lambda>e. DriverError (Decode e)) (UnmarshalTypedIdentity (Owner out))) (\<lambda>owner.
            if Ti_Type owner \<noteq> ScriptType then Inr ctx
            else (case json_Script (fe_htlc E) (Ti_Identity owner) of
               None \<Rightarrow> fail ''invalid script''
             | Some script \<Rightarrow>
                 bind_sum (wrap_err DriverError (Script_Validate (fe_htlc E) script (fe_now E))) (\<lambda>_.
                 bind_sum (wrap_err DriverError (MetadataLockKeyCheck (fta_Metadata action) script))
                   (\<lambda>metadataKey. Inr (CountMetadataKey metadataKey ctx))))))"

definition TransferHTLCValidate ::
  "fab_env \<Rightarrow> nesting_ctx \<Rightarrow> fab_context \<Rightarrow> fab_result" where
  "TransferHTLCValidate E c ctx =
     (case ctx_TransferAction ctx of
        None \<Rightarrow> Inl (RequestError NilDereference)
      | Some action \<Rightarrow>
          bind_sum (fold_sum (htlc_input E action) (enumerate 0 (ctx_InputTokens ctx)) ctx) (\<lambda>ctx.
            fold_sum (htlc_output E action) (fta_Outputs action) ctx))"

section \<open>The validator\<close>

definition fab_NewValidator ::
  "fab_env \<Rightarrow> PublicParams \<Rightarrow> ResourceLimits \<Rightarrow>
   (PublicParams, Output option, TransferAction, IssueAction, go_error) validate_func list \<Rightarrow>
   (PublicParams, Output option, TransferAction, IssueAction, go_error) validate_func list \<Rightarrow>
   (PublicParams, Output option, TransferAction, IssueAction, go_error) validate_func list \<Rightarrow>
   fab_validator" where
  "fab_NewValidator E pp limits extraTransfer extraIssue extraAuditing =
     \<lparr>v_PublicParams = pp,
      v_ActionDeserializer = Some (DeserializeActions E limits),
      v_AuditingValidators = [AuditingSignaturesValidate (fab_venv E)] @ extraAuditing,
      v_TransferValidators = [TransferActionValidate E, TransferSignatureValidate E,
        TransferBalanceValidate E, TransferHTLCValidate E,
        TransferApplicationDataValidate fta_Metadata] @ extraTransfer,
      v_IssueValidators = [IssueValidate E, IssueApplicationDataValidate fia_Metadata] @ extraIssue,
      v_Limits = limits, v_MinProtocolVersion = 0,
      v_ops = \<lparr>ta_GetMetadata = fta_Metadata, ia_GetMetadata = fia_Metadata\<rparr>\<rparr>"

text \<open>The factory of the driver: it validates the parameters and adds no validation function.\<close>

definition ValidatorDriver_NewValidator ::
  "fab_env \<Rightarrow> PublicParams \<Rightarrow> ResourceLimits \<Rightarrow> go_error + fab_validator" where
  "ValidatorDriver_NewValidator E pp limits =
     bind_sum (PublicParams_Validate pp) (\<lambda>_. Inr (fab_NewValidator E pp limits [] [] []))"

section \<open>Signatures of the inputs\<close>

text \<open>An identity signed a message: its verifier is found and accepts the signature.\<close>

definition signed_by ::
  "(identity \<Rightarrow> go_error + go_error verifier option) \<Rightarrow> bytes \<Rightarrow> identity \<Rightarrow> bytes \<Rightarrow> bool" where
  "signed_by get msg i sigma =
     (case get i of Inr (Some verify) \<Rightarrow> verify msg sigma = Inr () | _ \<Rightarrow> False)"

definition spends :: "TransferActionInput option \<Rightarrow> Output \<Rightarrow> bool" where
  "spends input tok \<longleftrightarrow> (\<exists>i. input = Some i \<and> tai_Input i = Some tok)"

definition cache_sound ::
  "fab_env \<Rightarrow> nesting_ctx \<Rightarrow> (bytes \<rightharpoonup> go_error verifier option) \<Rightarrow> bool" where
  "cache_sound E c cache \<longleftrightarrow>
     (\<forall>owner verifier. cache owner = Some verifier \<longrightarrow> fe_GetOwnerVerifier E c (Some owner) = Inr verifier)"

lemma input_signature_ok:
  assumes "input_signature E c input (toks, cache, ctx) = Inr (toks', cache', ctx')"
    and "cache_sound E c cache" and "ctx_SignatureProvider ctx = Some b"
  shows "\<exists>tok. spends input tok \<and> toks' = toks @ [Some tok] \<and> cache_sound E c cache' \<and>
    be_Cursor b < length (be_Sigs b) \<and>
    signed_by (fe_GetOwnerVerifier E c) (be_Message b) (Some (Owner tok)) (be_Sigs b ! be_Cursor b) \<and>
    ctx' = ctx\<lparr>ctx_SignatureProvider := Some (b\<lparr>be_Cursor := be_Cursor b + 1\<rparr>),
               ctx_Signatures := ctx_Signatures ctx @ [be_Sigs b ! be_Cursor b]\<rparr>"
proof -
  obtain i tok where input: "input = Some i" "tai_Input i = Some tok"
    using assms(1) by (auto simp: input_signature_def split: option.splits)
  let ?get = "case cache (Owner tok) of Some w \<Rightarrow> Inr (w, cache)
    | None \<Rightarrow> bind_sum (wrap_err DriverError (fe_GetOwnerVerifier E c (Some (Owner tok)))) (\<lambda>w.
        Inr (w, cache(Owner tok \<mapsto> w)))"
  obtain w cache1 sigma b1 where get: "?get = Inr (w, cache1)"
    and signed: "HasBeenSignedBy (Some b) w = Inr (sigma, b1)"
    and res: "toks' = toks @ [Some tok]" "cache' = cache1"
      "ctx' = ctx\<lparr>ctx_SignatureProvider := Some b1, ctx_Signatures := ctx_Signatures ctx @ [sigma]\<rparr>"
    using assms(1,3) by (auto simp: input_signature_def input Let_def bind_sum_eq_Inr)
  have "fe_GetOwnerVerifier E c (Some (Owner tok)) = Inr w \<and> cache_sound E c cache1"
    using get assms(2) by (auto simp: cache_sound_def bind_sum_eq_Inr wrap_err_eq_Inr split: option.splits if_splits)
  with signed res input show ?thesis
    by (auto simp: HasBeenSignedBy_ok signed_by_def spends_def)
qed

lemma input_signatures_ok:
  assumes "fold_sum (input_signature E c) inputs (toks, cache, ctx) = Inr (toks', cache', ctx')"
    and "cache_sound E c cache" and "ctx_SignatureProvider ctx = Some b"
    and "be_Cursor b \<le> length (be_Sigs b)"
  shows "\<exists>ts. list_all2 spends inputs ts \<and> toks' = toks @ map Some ts \<and>
    be_Cursor b + length inputs \<le> length (be_Sigs b) \<and>
    list_all2 (\<lambda>tok sigma. signed_by (fe_GetOwnerVerifier E c) (be_Message b) (Some (Owner tok)) sigma)
      ts (take (length inputs) (drop (be_Cursor b) (be_Sigs b))) \<and>
    ctx' = ctx\<lparr>ctx_SignatureProvider := Some (b\<lparr>be_Cursor := be_Cursor b + length inputs\<rparr>),
      ctx_Signatures := ctx_Signatures ctx @ take (length inputs) (drop (be_Cursor b) (be_Sigs b))\<rparr>"
  using assms
proof (induction inputs arbitrary: toks cache ctx b)
  case Nil
  then show ?case by (cases ctx) simp
next
  case (Cons input inputs)
  from Cons.prems(1) obtain toks1 cache1 ctx1 where
    step: "input_signature E c input (toks, cache, ctx) = Inr (toks1, cache1, ctx1)" and
    rest: "fold_sum (input_signature E c) inputs (toks1, cache1, ctx1) = Inr (toks', cache', ctx')"
    by (auto simp: bind_sum_eq_Inr)
  let ?b = "b\<lparr>be_Cursor := be_Cursor b + 1\<rparr>"
  from input_signature_ok [OF step Cons.prems(2,3)] obtain tok where
    tok: "spends input tok" "toks1 = toks @ [Some tok]" "cache_sound E c cache1"
      "be_Cursor b < length (be_Sigs b)"
      "signed_by (fe_GetOwnerVerifier E c) (be_Message b) (Some (Owner tok)) (be_Sigs b ! be_Cursor b)"
      "ctx1 = ctx\<lparr>ctx_SignatureProvider := Some ?b,
         ctx_Signatures := ctx_Signatures ctx @ [be_Sigs b ! be_Cursor b]\<rparr>"
    by blast
  have drop: "drop (be_Cursor b) (be_Sigs b) = be_Sigs b ! be_Cursor b # drop (Suc (be_Cursor b)) (be_Sigs b)"
    using tok(4) by (simp add: Cons_nth_drop_Suc)
  have "ctx_SignatureProvider ctx1 = Some ?b" "be_Cursor ?b \<le> length (be_Sigs ?b)"
    using tok by simp_all
  from Cons.IH [OF rest tok(3) this] obtain ts where
    "list_all2 spends inputs ts" "toks' = toks1 @ map Some ts"
    "be_Cursor b + 1 + length inputs \<le> length (be_Sigs b)"
    "list_all2 (\<lambda>tok sigma. signed_by (fe_GetOwnerVerifier E c) (be_Message b) (Some (Owner tok)) sigma)
      ts (take (length inputs) (drop (be_Cursor b + 1) (be_Sigs b)))"
    "ctx' = ctx1\<lparr>ctx_SignatureProvider := Some (?b\<lparr>be_Cursor := be_Cursor b + 1 + length inputs\<rparr>),
      ctx_Signatures := ctx_Signatures ctx1 @ take (length inputs) (drop (be_Cursor b + 1) (be_Sigs b))\<rparr>"
    by auto
  then show ?case using tok drop by (intro exI [of _ "tok # ts"]) simp
qed

lemma redeem_scan_ok:
  "redeem_scan outs = Inr r \<Longrightarrow> r \<longleftrightarrow> (\<exists>out\<in>set outs. \<exists>t. out = Some t \<and> Output_IsRedeem t)"
  by (induction outs) (auto split: option.splits if_splits)

text \<open>What the signature step of a transfer establishes, for the backend of the action.\<close>

definition redeems :: "TransferAction \<Rightarrow> bool" where
  "redeems a \<longleftrightarrow> (\<exists>out\<in>set (fta_Outputs a). \<exists>t. out = Some t \<and> Output_IsRedeem t)"

lemma TransferSignatureValidate_ok:
  assumes "TransferSignatureValidate E c ctx = Inr ctx'" and "ctx_TransferAction ctx = Some a"
    and "ctx_SignatureProvider ctx = Some b" and "be_Cursor b = 0" and "ctx_Signatures ctx = []"
  obtains ts b' where "list_all2 spends (fta_Inputs a) ts"
    and "length ts \<le> length (be_Sigs b)"
    and "list_all2 (\<lambda>tok sigma. signed_by (fe_GetOwnerVerifier E c) (be_Message b) (Some (Owner tok)) sigma)
      ts (take (length ts) (be_Sigs b))"
    and "if Issuers (ctx_PP ctx) \<noteq> [] \<and> redeems a
      then length ts < length (be_Sigs b) \<and> be_Cursor b' = length ts + 1 \<and>
        (\<exists>issuer. fta_Issuer a = Some issuer \<and>
          list_ex (id_Equal (fe_htlc E) (Some issuer)) (Issuers (ctx_PP ctx)) \<and>
          signed_by (fe_GetIssuerVerifier E c) (be_Message b) (Some issuer) (be_Sigs b ! length ts))
      else be_Cursor b' = length ts"
    and "be_Sigs b' = be_Sigs b"
    and "\<exists>sigs. ctx' = ctx\<lparr>ctx_SignatureProvider := Some b', ctx_Signatures := take (length ts) (be_Sigs b) @ sigs,
      ctx_InputTokens := map Some ts\<rparr>"
proof -
  have ne: "fta_Inputs a \<noteq> []"
    using assms(1,2) by (auto simp: TransferSignatureValidate_def)
  from assms(1,2) ne obtain toks cache ctx1 ctx2 where
    loop: "fold_sum (input_signature E c) (fta_Inputs a) ([], Map.empty, ctx) = Inr (toks, cache, ctx1)"
    and redeem: "(if length (Issuers (ctx_PP ctx1)) > 0
      then bind_sum (redeem_scan (fta_Outputs a)) (\<lambda>r. if r then redeem_signature E c a ctx1 else Inr ctx1)
      else Inr ctx1) = Inr ctx2" and ctx': "ctx' = ctx2\<lparr>ctx_InputTokens := toks\<rparr>"
    by (fastforce simp: TransferSignatureValidate_def bind_sum_eq_Inr)
  have "cache_sound E c Map.empty" by (simp add: cache_sound_def)
  from input_signatures_ok [OF loop this assms(3)] obtain ts where
    ts: "list_all2 spends (fta_Inputs a) ts" "toks = map Some ts"
      "length (fta_Inputs a) \<le> length (be_Sigs b)"
      "list_all2 (\<lambda>tok sigma. signed_by (fe_GetOwnerVerifier E c) (be_Message b) (Some (Owner tok)) sigma)
        ts (take (length (fta_Inputs a)) (be_Sigs b))" and
    ctx1: "ctx1 = ctx\<lparr>ctx_SignatureProvider := Some (b\<lparr>be_Cursor := length (fta_Inputs a)\<rparr>),
      ctx_Signatures := take (length (fta_Inputs a)) (be_Sigs b)\<rparr>"
    using assms(4,5) by auto
  have len: "length (fta_Inputs a) = length ts" using ts(1) by (rule list_all2_lengthD)
  show ?thesis
  proof (cases "Issuers (ctx_PP ctx) \<noteq> [] \<and> redeems a")
    case False
    then have "ctx2 = ctx1"
      using redeem redeem_scan_ok [of "fta_Outputs a"]
      by (auto simp: ctx1 redeems_def bind_sum_eq_Inr split: if_splits)
    then have ex: "\<exists>sigs. ctx' = ctx\<lparr>ctx_SignatureProvider := Some (b\<lparr>be_Cursor := length ts\<rparr>),
        ctx_Signatures := take (length ts) (be_Sigs b) @ sigs, ctx_InputTokens := map Some ts\<rparr>"
      by (intro exI [of _ "[]"]) (simp add: ctx' ctx1 len ts(2))
    show ?thesis
      by (rule that [OF ts(1) _ _ _ _ ex]) (use ts False len in auto)
  next
    case True
    then have "redeem_signature E c a ctx1 = Inr ctx2"
      using redeem redeem_scan_ok [of "fta_Outputs a"]
      by (auto simp: ctx1 redeems_def bind_sum_eq_Inr split: if_splits)
    then obtain issuer verify where issuer: "fta_Issuer a = Some issuer"
      "list_ex (id_Equal (fe_htlc E) (Some issuer)) (Issuers (ctx_PP ctx))"
      "fe_GetIssuerVerifier E c (Some issuer) = Inr (Some verify)"
      "verify (be_Message b) (be_Sigs b ! length ts) = Inr ()" "length ts < length (be_Sigs b)" and
      ctx2: "ctx2 = ctx1\<lparr>ctx_SignatureProvider := Some (b\<lparr>be_Cursor := length ts + 1\<rparr>),
        ctx_Signatures := ctx_Signatures ctx1 @ [be_Sigs b ! length ts]\<rparr>"
      using True
      by (auto simp: redeem_signature_def Let_def ctx1 len bind_sum_eq_Inr wrap_err_eq_Inr
          HasBeenSignedBy_ok split: option.splits if_splits)
    show ?thesis
      using that [of ts "b\<lparr>be_Cursor := length ts + 1\<rparr>"] ts True ctx' ctx1 ctx2 issuer len
      by (auto simp: signed_by_def)
  qed
qed

section \<open>Balance\<close>

lemma add_balance_ok:
  assumes "fold_sum (add_balance p typ) toks acc = Inr r"
  obtains ts where "toks = map Some ts" and "\<forall>t\<in>set ts. Type t = typ"
    and "fold_sum (\<lambda>t acc. add_quantity p (Quantity t) acc) ts acc = Inr r"
proof -
  have "\<exists>ts. toks = map Some ts \<and> (\<forall>t\<in>set ts. Type t = typ) \<and>
      fold_sum (\<lambda>t acc. add_quantity p (Quantity t) acc) ts acc = Inr r"
    using assms
  proof (induction toks arbitrary: acc)
    case (Cons tok toks)
    then obtain acc1 where step: "add_balance p typ tok acc = Inr acc1"
      and rest: "fold_sum (add_balance p typ) toks acc1 = Inr r"
      by (auto simp: bind_sum_eq_Inr)
    from step obtain t where "tok = Some t" "Type t = typ" "add_quantity p (Quantity t) acc = Inr acc1"
      by (auto simp: add_balance_def add_quantity_def bind_sum_eq_Inr wrap_err_eq_Inr
          split: option.splits if_splits)
    moreover from Cons.IH [OF rest] obtain ts where "toks = map Some ts" "\<forall>t\<in>set ts. Type t = typ"
      "fold_sum (\<lambda>t acc. add_quantity p (Quantity t) acc) ts acc1 = Inr r" by blast
    ultimately show ?case by (intro exI [of _ "t # ts"]) simp
  qed simp
  then show ?thesis using that by blast
qed

lemma add_balance_sum:
  assumes "fold_sum (add_balance p typ) toks (NewZeroQuantity p) = Inr r" and "0 < sint p"
  obtains ts where "toks = map Some ts" and "\<forall>t\<in>set ts. Type t = typ \<and> is_ok (ToQuantity (Quantity t) p)"
    and "Quantity_ToBigInt r = (\<Sum>t\<leftarrow>ts. amount (Quantity t))" and "quantity_at p r"
proof -
  obtain ts where ts: "toks = map Some ts" "\<forall>t\<in>set ts. Type t = typ"
    and sum: "fold_sum (\<lambda>t acc. add_quantity p (Quantity t) acc) ts (NewZeroQuantity p) = Inr r"
    using assms(1) by (rule add_balance_ok)
  have "quantity_at p (NewZeroQuantity p)" using assms(2) by (simp add: NewZeroQuantity_at)
  from add_quantity_loop_exact [OF sum this] have
    "Quantity_ToBigInt r = (\<Sum>t\<leftarrow>ts. amount (Quantity t))" "quantity_at p r" by simp_all
  moreover have "is_ok (ToQuantity (Quantity t) p)" if "t \<in> set ts" for t
    using fold_sum_each [OF sum that] by (auto simp: add_quantity_def bind_sum_eq_Inr)
  ultimately show ?thesis using that [of ts] ts by blast
qed

text \<open>What a balanced transfer is: one type, equal totals, totals within the precision.\<close>

definition balanced :: "u64 \<Rightarrow> Output list \<Rightarrow> Output list \<Rightarrow> bool" where
  "balanced p ins outs \<longleftrightarrow>
     ins \<noteq> [] \<and> outs \<noteq> [] \<and>
     (\<forall>t\<in>set ins \<union> set outs. Type t = Type (hd ins) \<and> is_ok (ToQuantity (Quantity t) p)) \<and>
     (\<Sum>t\<leftarrow>ins. amount (Quantity t)) = (\<Sum>t\<leftarrow>outs. amount (Quantity t)) \<and>
     fits_precision p (\<Sum>t\<leftarrow>outs. amount (Quantity t))"

lemma TransferBalanceValidate_ok:
  assumes "TransferBalanceValidate E c ctx = Inr ctx'" and "ctx_TransferAction ctx = Some a"
    and "ctx_InputTokens ctx = map Some ts" and "0 < sint (pp_QuantityPrecision (ctx_PP ctx))"
  obtains outs where "ctx' = ctx" and "fta_Outputs a = map Some outs"
    and "balanced (pp_QuantityPrecision (ctx_PP ctx)) ts outs"
proof -
  let ?p = "pp_QuantityPrecision (ctx_PP ctx)"
  obtain first rest where ts: "ts = first # rest"
    using assms(1-3) by (cases ts) (auto simp: TransferBalanceValidate_def split: if_splits)
  have ne: "fta_Outputs a \<noteq> []" using assms(1,2) by (auto simp: TransferBalanceValidate_def)
  let ?sum = "\<lambda>toks. fold_sum (add_balance ?p (Type first)) toks (NewZeroQuantity ?p)"
  have "bind_sum (?sum (map Some ts)) (\<lambda>i. bind_sum (?sum (fta_Outputs a)) (\<lambda>out.
      if Quantity_Cmp i out \<noteq> 0 then fail ''input sum does not match output sum'' else Inr ctx)) = Inr ctx'"
    using assms(1) ne by (simp add: TransferBalanceValidate_def assms(2,3) ts Let_def del: fold_sum.simps)
  then obtain i out where i: "?sum (map Some ts) = Inr i" and out: "?sum (fta_Outputs a) = Inr out"
    and "(if Quantity_Cmp i out \<noteq> 0 then fail ''input sum does not match output sum'' else Inr ctx) = Inr ctx'"
    unfolding bind_sum_eq_Inr by blast
  then have eq: "Quantity_Cmp i out = 0" and ctx: "ctx' = ctx" by (simp_all split: if_splits)
  obtain ts' where ins: "map Some ts = map Some ts'"
      "\<forall>t\<in>set ts'. Type t = Type first \<and> is_ok (ToQuantity (Quantity t) ?p)"
      "Quantity_ToBigInt i = (\<Sum>t\<leftarrow>ts'. amount (Quantity t))" "quantity_at ?p i"
    using i assms(4) by (rule add_balance_sum)
  obtain outs where outs: "fta_Outputs a = map Some outs"
      "\<forall>t\<in>set outs. Type t = Type first \<and> is_ok (ToQuantity (Quantity t) ?p)"
      "Quantity_ToBigInt out = (\<Sum>t\<leftarrow>outs. amount (Quantity t))" "quantity_at ?p out"
    using out assms(4) by (rule add_balance_sum)
  have same: "ts' = ts" using ins(1) by (simp add: inj_map_eq_map)
  have "Quantity_ToBigInt i = Quantity_ToBigInt out"
    using eq unfolding Quantity_Cmp_sgn [OF quantity_at_wf [OF ins(4)] quantity_at_wf [OF outs(4)]]
    by (simp only: sgn_0_0 right_minus_eq)
  then have "(\<Sum>t\<leftarrow>ts. amount (Quantity t)) = (\<Sum>t\<leftarrow>outs. amount (Quantity t))"
    using ins(3) outs(3) same by simp
  moreover have "\<forall>t\<in>set ts \<union> set outs. Type t = Type (hd ts) \<and> is_ok (ToQuantity (Quantity t) ?p)"
    using ins(2) outs(2) same by (auto simp: ts)
  moreover have "ts \<noteq> []" "outs \<noteq> []" using ts ne outs(1) by auto
  moreover have "fits_precision ?p (\<Sum>t\<leftarrow>outs. amount (Quantity t))"
    using quantity_at_fits [OF outs(4)] outs(3) by simp
  ultimately have "balanced ?p ts outs" unfolding balanced_def by blast
  then show ?thesis using that [of outs] ctx outs(1) by blast
qed

section \<open>Metadata\<close>

text \<open>The metadata entries the script checks account for.\<close>

definition lock_key :: "fab_env \<Rightarrow> TransferAction \<Rightarrow> string \<Rightarrow> bool" where
  "lock_key E a k \<longleftrightarrow>
     (\<exists>tok ti script. Some tok \<in> set (fta_Outputs a) \<and> UnmarshalTypedIdentity (Owner tok) = Inr ti \<and>
        Ti_Type ti = ScriptType \<and> json_Script (fe_htlc E) (Ti_Identity ti) = Some script \<and>
        k = LockKey (hi_Hash (sc_HashInfo script)) \<and>
        map_of (fta_Metadata a) k = Some (LockValue (hi_Hash (sc_HashInfo script))))"

definition claim_key :: "fab_env \<Rightarrow> TransferAction \<Rightarrow> Output list \<Rightarrow> string \<Rightarrow> bool" where
  "claim_key E a ins k \<longleftrightarrow>
     (\<exists>tok ti script preimage img. tok \<in> set ins \<and> UnmarshalTypedIdentity (Owner tok) = Inr ti \<and>
        Ti_Type ti = ScriptType \<and> json_Script (fe_htlc E) (Ti_Identity ti) = Some script \<and>
        HashInfo_Image (fe_htlc E) (sc_HashInfo script) preimage = Inr img \<and>
        k = ClaimKey img \<and> map_of (fta_Metadata a) k = Some preimage)"

lemma htlc_key_in_metadata:
  assumes "lock_key E a k \<or> claim_key E a ins k"
  shows "k \<in> fst ` set (fta_Metadata a)"
proof -
  have "map_of (fta_Metadata a) k \<noteq> None" using assms by (auto simp: lock_key_def claim_key_def)
  then show ?thesis by (simp add: map_of_eq_None_iff)
qed

definition htlc_frame :: "fab_env \<Rightarrow> TransferAction \<Rightarrow> Output list \<Rightarrow> fab_context \<Rightarrow> fab_context \<Rightarrow> bool" where
  "htlc_frame E a ins ctx ctx' \<longleftrightarrow>
     (\<exists>m. ctx' = ctx\<lparr>ctx_MetadataCounter := m\<rparr> \<and> (counters_ok (ctx_MetadataCounter ctx) \<longrightarrow> counters_ok m) \<and>
        (\<forall>k\<in>fst ` set m. k \<in> fst ` set (ctx_MetadataCounter ctx) \<or> lock_key E a k \<or> claim_key E a ins k))"

lemma htlc_frame_refl: "htlc_frame E a ins ctx ctx"
  unfolding htlc_frame_def by (intro exI [of _ "ctx_MetadataCounter ctx"]) simp

lemma htlc_frame_trans:
  assumes "htlc_frame E a ins ctx ctx1" and "htlc_frame E a ins ctx1 ctx2"
  shows "htlc_frame E a ins ctx ctx2"
proof -
  from assms obtain m n where m: "ctx1 = ctx\<lparr>ctx_MetadataCounter := m\<rparr>"
      "counters_ok (ctx_MetadataCounter ctx) \<longrightarrow> counters_ok m"
      "\<forall>k\<in>fst ` set m. k \<in> fst ` set (ctx_MetadataCounter ctx) \<or> lock_key E a k \<or> claim_key E a ins k"
    and n: "ctx2 = ctx1\<lparr>ctx_MetadataCounter := n\<rparr>" "counters_ok m \<longrightarrow> counters_ok n"
      "\<forall>k\<in>fst ` set n. k \<in> fst ` set m \<or> lock_key E a k \<or> claim_key E a ins k"
    by (auto simp: htlc_frame_def)
  have "ctx2 = ctx\<lparr>ctx_MetadataCounter := n\<rparr>" using m(1) n(1) by simp
  moreover have "\<forall>k\<in>fst ` set n. k \<in> fst ` set (ctx_MetadataCounter ctx) \<or> lock_key E a k \<or> claim_key E a ins k"
    using m(3) n(3) by blast
  ultimately show ?thesis unfolding htlc_frame_def using m(2) n(2) by blast
qed

lemma htlc_frame_count:
  assumes "lock_key E a k \<or> claim_key E a ins k"
  shows "htlc_frame E a ins ctx (CountMetadataKey k ctx)"
  unfolding htlc_frame_def CountMetadataKey_def
  using assms
  by (intro exI [of _ "count_key k (ctx_MetadataCounter ctx)"]) (auto simp add: count_key_ok count_key_keys simp del: ball_simps)

section \<open>Scripts\<close>

text \<open>What the validator requires of the output that a script-owned input pays to.\<close>

definition script_spend :: "fab_env \<Rightarrow> TransferAction \<Rightarrow> Script \<Rightarrow> Output \<Rightarrow> bytes \<Rightarrow> bool" where
  "script_spend E a script tok sigma \<longleftrightarrow>
     (\<exists>out. fta_Outputs a = [Some out] \<and> Type out = Type tok \<and> Quantity out = Quantity tok \<and>
        Owner out \<noteq> [] \<and>
        (if fe_now E < sc_Deadline script
         then id_Equal (fe_htlc E) (sc_Recipient script) (Some (Owner out)) \<and>
           (\<exists>claim img. json_Claim_strict (fe_htlc E) sigma = Some claim \<and>
              HashInfo_Image (fe_htlc E) (sc_HashInfo script) (cs_Preimage claim) = Inr img \<and>
              map_of (fta_Metadata a) (ClaimKey img) = Some (cs_Preimage claim))
         else id_Equal (fe_htlc E) (sc_Sender script) (Some (Owner out))))"

lemma htlc_input_ok:
  assumes "htlc_input E a (i, Some tok) ctx = Inr ctx'"
    and "UnmarshalTypedIdentity (Owner tok) = Inr ti" and "Ti_Type ti = ScriptType"
  obtains script key where "json_Script (fe_htlc E) (Ti_Identity ti) = Some script"
    and "length (ctx_InputTokens ctx) = 1" and "i < length (ctx_Signatures ctx)"
    and "script_spend E a script tok (ctx_Signatures ctx ! i)"
    and "ctx' = (if fe_now E < sc_Deadline script then CountMetadataKey key ctx else ctx)"
    and "fe_now E < sc_Deadline script \<longrightarrow> (\<exists>preimage img.
      HashInfo_Image (fe_htlc E) (sc_HashInfo script) preimage = Inr img \<and>
      key = ClaimKey img \<and> map_of (fta_Metadata a) key = Some preimage)"
proof -
  have one: "length (ctx_InputTokens ctx) = 1" "length (fta_Outputs a) = 1"
    using assms by (auto simp: htlc_input_def split: if_splits)
  obtain out where out: "fta_Outputs a = [Some out]"
    using assms one by (cases "fta_Outputs a") (auto simp: htlc_input_def split: option.splits if_splits)
  obtain script op key where
    eqs: "Type tok = Type out" "Quantity tok = Quantity out" and
    vo: "VerifyOwner (fe_htlc E) (Owner tok) (Owner out) (fe_now E) = Inr (script, op)" and
    i: "i < length (ctx_Signatures ctx)" and
    mc: "MetadataClaimKeyCheck (fe_htlc E) (fta_Metadata a) script op (ctx_Signatures ctx ! i) = Inr key" and
    ctx: "ctx' = (if op \<noteq> Reclaim then CountMetadataKey key ctx else ctx)"
    using assms one
    by (auto simp: htlc_input_def out bind_sum_eq_Inr wrap_err_eq_Inr not_le simp del: One_nat_def split: if_splits)
  have js: "json_Script (fe_htlc E) (Ti_Identity ti) = Some script"
    and own: "if fe_now E < sc_Deadline script
      then op = Claim \<and> id_Equal (fe_htlc E) (sc_Recipient script) (Some (Owner out))
      else op = Reclaim \<and> id_Equal (fe_htlc E) (sc_Sender script) (Some (Owner out))"
    and ne: "Owner out \<noteq> []"
    using vo assms(2) by (auto simp: VerifyOwner_ok)
  show ?thesis
  proof (cases "fe_now E < sc_Deadline script")
    case True
    with own mc obtain claim img where
      "json_Claim_strict (fe_htlc E) (ctx_Signatures ctx ! i) = Some claim"
      "HashInfo_Image (fe_htlc E) (sc_HashInfo script) (cs_Preimage claim) = Inr img"
      "key = ClaimKey img" "map_of (fta_Metadata a) key = Some (cs_Preimage claim)"
      by (auto simp: MetadataClaimKeyCheck_ok)
    with that [OF js one(1) i _, of key] own True ne eqs out ctx show ?thesis
      by (auto simp: script_spend_def)
  next
    case False
    with that [OF js one(1) i _, of key] own ne eqs out ctx show ?thesis
      by (auto simp: script_spend_def)
  qed
qed

lemma htlc_input_decodes:
  "htlc_input E a (i, Some tok) ctx = Inr ctx' \<Longrightarrow> \<exists>ti. UnmarshalTypedIdentity (Owner tok) = Inr ti"
  by (auto simp: htlc_input_def bind_sum_eq_Inr wrap_err_eq_Inr)

lemma htlc_input_frame:
  assumes step: "htlc_input E a (i, Some tok) ctx = Inr ctx'" and tok: "tok \<in> set ins"
  shows "htlc_frame E a ins ctx ctx'"
proof -
  obtain ti where ti: "UnmarshalTypedIdentity (Owner tok) = Inr ti"
    using htlc_input_decodes [OF step] by blast
  show ?thesis
  proof (cases "Ti_Type ti = ScriptType")
    case False
    then have "ctx' = ctx" using step ti by (simp add: htlc_input_def)
    then show ?thesis by (simp add: htlc_frame_refl)
  next
    case True
    from step ti True obtain script key where
      js: "json_Script (fe_htlc E) (Ti_Identity ti) = Some script"
      and ctx': "ctx' = (if fe_now E < sc_Deadline script then CountMetadataKey key ctx else ctx)"
      and key: "fe_now E < sc_Deadline script \<longrightarrow> (\<exists>preimage img.
        HashInfo_Image (fe_htlc E) (sc_HashInfo script) preimage = Inr img \<and>
        key = ClaimKey img \<and> map_of (fta_Metadata a) key = Some preimage)"
      by (rule htlc_input_ok)
    have "claim_key E a ins key" if "fe_now E < sc_Deadline script"
      unfolding claim_key_def using js ti True tok key that by blast
    then show ?thesis
      unfolding ctx' by (simp add: htlc_frame_refl htlc_frame_count)
  qed
qed

lemma htlc_output_frame:
  assumes "htlc_output E a out ctx = Inr ctx'" and "out \<in> set (fta_Outputs a)"
  shows "htlc_frame E a ins ctx ctx'"
proof -
  from assms(1) obtain tok where tok: "out = Some tok" by (cases out) (auto simp: htlc_output_def)
  show ?thesis
  proof (cases "ctx' = ctx")
    case False
    with assms(1) obtain ti script key where
      "UnmarshalTypedIdentity (Owner tok) = Inr ti" "Ti_Type ti = ScriptType"
      "json_Script (fe_htlc E) (Ti_Identity ti) = Some script"
      "MetadataLockKeyCheck (fta_Metadata a) script = Inr key" "ctx' = CountMetadataKey key ctx"
      by (auto simp: htlc_output_def tok bind_sum_eq_Inr wrap_err_eq_Inr split: if_splits option.splits)
    moreover from this have "lock_key E a key"
      using assms(2) by (auto simp: lock_key_def MetadataLockKeyCheck_ok tok)
    ultimately show ?thesis by (simp add: htlc_frame_count)
  qed (simp add: htlc_frame_refl)
qed

lemma htlc_frame_fields:
  assumes "htlc_frame E a ins ctx ctx'"
  shows "ctx_InputTokens ctx' = ctx_InputTokens ctx" "ctx_Signatures ctx' = ctx_Signatures ctx"
    "ctx_SignatureProvider ctx' = ctx_SignatureProvider ctx"
  using assms by (auto simp: htlc_frame_def)

lemma htlc_frame_loop:
  assumes "fold_sum f xs ctx = Inr ctx'"
    and "\<And>x s t. x \<in> set xs \<Longrightarrow> f x s = Inr t \<Longrightarrow> htlc_frame E a ins s t"
  shows "htlc_frame E a ins ctx ctx'"
  using assms
proof (induction xs arbitrary: ctx)
  case (Cons x xs)
  from Cons.prems(1) obtain u where u: "f x ctx = Inr u" "fold_sum f xs u = Inr ctx'"
    by (auto simp: bind_sum_eq_Inr)
  have "htlc_frame E a ins ctx u" by (rule Cons.prems(2) [OF _ u(1)]) simp
  moreover have "htlc_frame E a ins u ctx'" by (rule Cons.IH [OF u(2)]) (rule Cons.prems(2), auto)
  ultimately show ?case by (rule htlc_frame_trans)
qed (simp add: htlc_frame_refl)

text \<open>The locked outputs of a transfer carry scripts that are valid at the time of validation.\<close>

definition locks_valid :: "fab_env \<Rightarrow> TransferAction \<Rightarrow> bool" where
  "locks_valid E a \<longleftrightarrow>
     (\<forall>tok ti. Some tok \<in> set (fta_Outputs a) \<longrightarrow> Owner tok \<noteq> [] \<longrightarrow>
        UnmarshalTypedIdentity (Owner tok) = Inr ti \<longrightarrow> Ti_Type ti = ScriptType \<longrightarrow>
        (\<exists>script. json_Script (fe_htlc E) (Ti_Identity ti) = Some script \<and>
           Script_Validate (fe_htlc E) script (fe_now E) = Inr () \<and>
           map_of (fta_Metadata a) (LockKey (hi_Hash (sc_HashInfo script))) =
             Some (LockValue (hi_Hash (sc_HashInfo script)))))"

lemma TransferHTLCValidate_ok:
  assumes run: "TransferHTLCValidate E c ctx = Inr ctx'" and a: "ctx_TransferAction ctx = Some a"
    and ins: "ctx_InputTokens ctx = map Some ts"
  shows "htlc_frame E a ts ctx ctx'"
    and "i < length ts \<Longrightarrow> UnmarshalTypedIdentity (Owner (ts ! i)) = Inr ti \<Longrightarrow> Ti_Type ti = ScriptType \<Longrightarrow>
      length ts = 1 \<and> i < length (ctx_Signatures ctx) \<and>
      (\<exists>script. json_Script (fe_htlc E) (Ti_Identity ti) = Some script \<and>
         script_spend E a script (ts ! i) (ctx_Signatures ctx ! i))"
    and "locks_valid E a"
proof -
  let ?es = "enumerate 0 (map Some ts)"
  from run obtain ctx1 where inp: "fold_sum (htlc_input E a) ?es ctx = Inr ctx1"
    and out: "fold_sum (htlc_output E a) (fta_Outputs a) ctx1 = Inr ctx'"
    by (auto simp: TransferHTLCValidate_def a ins bind_sum_eq_Inr)
  have elem: "\<exists>i tok. x = (i, Some tok) \<and> tok \<in> set ts" if "x \<in> set ?es" for x
    using enumerate_elem [OF that] by (cases x) auto
  have step: "htlc_frame E a ts s t" if "x \<in> set ?es" "htlc_input E a x s = Inr t" for x s t
    using elem [OF that(1)] that(2) htlc_input_frame by blast
  have f1: "htlc_frame E a ts ctx ctx1"
    using inp by (rule htlc_frame_loop) (rule step)
  have "htlc_frame E a ts ctx1 ctx'"
    using out by (rule htlc_frame_loop) (rule htlc_output_frame)
  with f1 show "htlc_frame E a ts ctx ctx'" by (rule htlc_frame_trans)
  show "length ts = 1 \<and> i < length (ctx_Signatures ctx) \<and>
      (\<exists>script. json_Script (fe_htlc E) (Ti_Identity ti) = Some script \<and>
         script_spend E a script (ts ! i) (ctx_Signatures ctx ! i))"
    if i: "i < length ts" and ti: "UnmarshalTypedIdentity (Owner (ts ! i)) = Inr ti" "Ti_Type ti = ScriptType"
  proof -
    have split: "?es = take i ?es @ (i, Some (ts ! i)) # drop (Suc i) ?es"
      using i id_take_nth_drop [of i ?es] by (simp add: nth_enumerate_eq)
    have "fold_sum (htlc_input E a) (take i ?es @ (i, Some (ts ! i)) # drop (Suc i) ?es) ctx = Inr ctx1"
      using inp split by simp
    then obtain u w where u: "fold_sum (htlc_input E a) (take i ?es) ctx = Inr u"
      and this_step: "htlc_input E a (i, Some (ts ! i)) u = Inr w"
      by (auto simp: fold_sum_append bind_sum_eq_Inr)
    have "htlc_frame E a ts ctx u"
      using u by (rule htlc_frame_loop) (rule step, auto dest: in_set_takeD)
    note same = htlc_frame_fields [OF this]
    from this_step ti obtain script where "json_Script (fe_htlc E) (Ti_Identity ti) = Some script"
      "length (ctx_InputTokens u) = 1" "i < length (ctx_Signatures u)"
      "script_spend E a script (ts ! i) (ctx_Signatures u ! i)"
      by (rule htlc_input_ok)
    then show ?thesis using same ins by auto
  qed
  show "locks_valid E a"
    unfolding locks_valid_def
  proof (intro allI impI)
    fix tok ti
    assume tok: "Some tok \<in> set (fta_Outputs a)" "Owner tok \<noteq> []"
      "UnmarshalTypedIdentity (Owner tok) = Inr ti" "Ti_Type ti = ScriptType"
    from fold_sum_each [OF out tok(1)] obtain u w where "htlc_output E a (Some tok) u = Inr w" by blast
    then show "\<exists>script. json_Script (fe_htlc E) (Ti_Identity ti) = Some script \<and>
        Script_Validate (fe_htlc E) script (fe_now E) = Inr () \<and>
        map_of (fta_Metadata a) (LockKey (hi_Hash (sc_HashInfo script))) =
          Some (LockValue (hi_Hash (sc_HashInfo script)))"
      using tok by (auto simp: htlc_output_def Output_IsRedeem_def bind_sum_eq_Inr wrap_err_eq_Inr
          MetadataLockKeyCheck_ok split: option.splits)
  qed
qed

section \<open>Accepted transfers\<close>

lemma NewValidator_precision:
  assumes "ValidatorDriver_NewValidator E pp limits = Inr v"
  shows "v = fab_NewValidator E pp limits [] [] []" and "0 < sint (pp_QuantityPrecision pp)"
    and "uint (pp_QuantityPrecision pp) \<le> 64"
proof -
  let ?p = "pp_QuantityPrecision pp"
  have ok: "PublicParams_Validate pp = Inr ()" and "v = fab_NewValidator E pp limits [] [] []"
    using assms by (auto simp: ValidatorDriver_NewValidator_def bind_sum_eq_Inr)
  then show "v = fab_NewValidator E pp limits [] [] []" by simp
  have le: "?p \<le> 64" and ne: "?p \<noteq> 0"
    using ok by (auto simp: PublicParams_Validate_def not_less split: if_splits)
  show u: "uint ?p \<le> 64" using le by (simp add: word_le_def)
  have "0 < uint ?p" using ne by (simp add: order_less_le uint_0_iff)
  moreover have "signed_take_bit 63 (uint ?p) = uint ?p"
    by (rule signed_take_bit_int_eq_self) (use u in \<open>simp_all add: order_trans [of _ 0]\<close>)
  then have "sint ?p = uint ?p" by (simp add: sint_uint)
  ultimately show "0 < sint ?p" by simp
qed

lemma transfer_pipeline:
  assumes run: "run_validators c (v_TransferValidators (fab_NewValidator E pp limits [] [] []))
      (new_context pp anchor tr ledger (Some (NewBackend None msg sigs)) attrs (Some a) None) = Inr ctx"
    and prec: "0 < sint (pp_QuantityPrecision pp)"
    and used: "ctx_SignatureProvider ctx = Some b" "be_Cursor b = length (be_Sigs b)"
    and counted: "check_counters (fta_Metadata a) (ctx_MetadataCounter ctx) = (Inr () :: 'e v_error + unit)"
  obtains ts outs where "TransferAction_Validate a = Inr ()" and "list_all2 spends (fta_Inputs a) ts"
    and "list_all2 (\<lambda>tok sigma. signed_by (fe_GetOwnerVerifier E c) msg (Some (Owner tok)) sigma)
      ts (take (length ts) sigs)"
    and "if Issuers pp \<noteq> [] \<and> redeems a
      then length sigs = length ts + 1 \<and>
        (\<exists>issuer. fta_Issuer a = Some issuer \<and>
          list_ex (id_Equal (fe_htlc E) (Some issuer)) (Issuers pp) \<and>
          signed_by (fe_GetIssuerVerifier E c) msg (Some issuer) (last sigs))
      else length sigs = length ts"
    and "fta_Outputs a = map Some outs" and "balanced (pp_QuantityPrecision pp) ts outs"
    and "\<And>i ti. i < length ts \<Longrightarrow> UnmarshalTypedIdentity (Owner (ts ! i)) = Inr ti \<Longrightarrow>
      Ti_Type ti = ScriptType \<Longrightarrow> length ts = 1 \<and> (\<exists>script.
        json_Script (fe_htlc E) (Ti_Identity ti) = Some script \<and> script_spend E a script (ts ! i) (sigs ! i))"
    and "locks_valid E a"
    and "\<And>k. distinct (map fst (fta_Metadata a)) \<Longrightarrow> k \<in> fst ` set (fta_Metadata a) \<Longrightarrow>
      HasPrefix k PublicMetadataPrefix \<or> lock_key E a k \<or> claim_key E a ts k"
proof -
  define ctx0 :: fab_context where
    "ctx0 = new_context pp anchor tr ledger (Some (NewBackend None msg sigs)) attrs (Some a) None"
  have ctx0: "ctx_TransferAction ctx0 = Some a" "ctx_SignatureProvider ctx0 = Some (NewBackend None msg sigs)"
    "ctx_Signatures ctx0 = []" "ctx_PP ctx0 = pp" "ctx_MetadataCounter ctx0 = []"
    by (simp_all add: ctx0_def new_context_def)
  have backend: "be_Cursor (NewBackend None msg sigs) = 0" "be_Sigs (NewBackend None msg sigs) = sigs"
    "be_Message (NewBackend None msg sigs) = msg"
    by (simp_all add: NewBackend_def)
  obtain ctx1 ctx2 ctx3 where valid: "TransferAction_Validate a = Inr ()"
    and sg: "TransferSignatureValidate E c ctx0 = Inr ctx1"
    and bal: "TransferBalanceValidate E c ctx1 = Inr ctx2"
    and ht: "TransferHTLCValidate E c ctx2 = Inr ctx3"
    and app: "TransferApplicationDataValidate fta_Metadata c ctx3 = Inr ctx"
    using run unfolding ctx0_def [symmetric]
    by (auto simp: run_validators_def fab_NewValidator_def bind_sum_eq_Inr wrap_err_eq_Inr
        TransferActionValidate_def ctx0(1))
  show ?thesis
  proof (rule TransferSignatureValidate_ok [OF sg ctx0(1,2) backend(1) ctx0(3)], unfold backend)
    fix ts b'
    assume ts: "list_all2 spends (fta_Inputs a) ts" "length ts \<le> length sigs"
      "list_all2 (\<lambda>tok sigma. signed_by (fe_GetOwnerVerifier E c) msg (Some (Owner tok)) sigma)
        ts (take (length ts) sigs)"
      and red: "if Issuers (ctx_PP ctx0) \<noteq> [] \<and> redeems a
        then length ts < length sigs \<and> be_Cursor b' = length ts + 1 \<and>
          (\<exists>issuer. fta_Issuer a = Some issuer \<and>
            list_ex (id_Equal (fe_htlc E) (Some issuer)) (Issuers (ctx_PP ctx0)) \<and>
            signed_by (fe_GetIssuerVerifier E c) msg (Some issuer) (sigs ! length ts))
        else be_Cursor b' = length ts"
      and b': "be_Sigs b' = sigs"
      and "\<exists>more. ctx1 = ctx0\<lparr>ctx_SignatureProvider := Some b',
        ctx_Signatures := take (length ts) sigs @ more, ctx_InputTokens := map Some ts\<rparr>"
    then obtain more where ctx1: "ctx1 = ctx0\<lparr>ctx_SignatureProvider := Some b',
        ctx_Signatures := take (length ts) sigs @ more, ctx_InputTokens := map Some ts\<rparr>" by blast
    have in1: "ctx_TransferAction ctx1 = Some a" "ctx_InputTokens ctx1 = map Some ts" "ctx_PP ctx1 = pp"
      using ctx0 by (simp_all add: ctx1)
    obtain outs where same: "ctx2 = ctx1" and outs: "fta_Outputs a = map Some outs"
      and balanced: "balanced (pp_QuantityPrecision pp) ts outs"
      using TransferBalanceValidate_ok [OF bal in1(1,2)] prec in1(3) by metis
    note htlc = TransferHTLCValidate_ok [OF ht [unfolded same] in1(1,2)]
    obtain m where ctx3: "ctx3 = ctx1\<lparr>ctx_MetadataCounter := m\<rparr>" and m: "counters_ok m"
      "\<forall>k\<in>fst ` set m. lock_key E a k \<or> claim_key E a ts k"
      using htlc(1) ctx0(5) by (auto simp: htlc_frame_def ctx1)
    have ctx: "ctx = count_public_keys (fta_Metadata a) ctx3"
      using app in1(1) by (simp add: TransferApplicationDataValidate_def ctx3)
    have "b = b'" using used(1) by (simp add: ctx count_public_keys_frame ctx3 ctx1)
    then have cur: "be_Cursor b' = length sigs" using used(2) b' by simp
    have last: "last sigs = sigs ! length ts" if "length sigs = Suc (length ts)"
      using that by (cases sigs rule: rev_cases) (auto simp: nth_append)
    note keys = count_public_keys_ok [of ctx3 "fta_Metadata a", folded ctx]
    show thesis
    proof (rule that [OF valid ts(1,3) _ outs balanced _ htlc(3)])
      show "if Issuers pp \<noteq> [] \<and> redeems a
        then length sigs = length ts + 1 \<and> (\<exists>issuer. fta_Issuer a = Some issuer \<and>
          list_ex (id_Equal (fe_htlc E) (Some issuer)) (Issuers pp) \<and>
          signed_by (fe_GetIssuerVerifier E c) msg (Some issuer) (last sigs))
        else length sigs = length ts"
        using red cur ctx0(4) last by auto
      show "length ts = 1 \<and> (\<exists>script. json_Script (fe_htlc E) (Ti_Identity ti) = Some script \<and>
          script_spend E a script (ts ! i) (sigs ! i))"
        if "i < length ts" "UnmarshalTypedIdentity (Owner (ts ! i)) = Inr ti" "Ti_Type ti = ScriptType" for i ti
        using htlc(2) [OF that] that(1) ts(2) by (simp add: ctx1 nth_append)
      show "HasPrefix k PublicMetadataPrefix \<or> lock_key E a k \<or> claim_key E a ts k"
        if k: "distinct (map fst (fta_Metadata a))" "k \<in> fst ` set (fta_Metadata a)" for k
      proof -
        have sub: "fst ` set m \<subseteq> fst ` set (fta_Metadata a)"
          using m(2) htlc_key_in_metadata by blast
        have ok: "counters_ok (ctx_MetadataCounter ctx)"
          and all: "fst ` set (ctx_MetadataCounter ctx) =
            fst ` set m \<union> {k \<in> fst ` set (fta_Metadata a). HasPrefix k PublicMetadataPrefix}"
          using keys m(1) by (simp_all add: ctx3)
        then have "fst ` set (ctx_MetadataCounter ctx) = fst ` set (fta_Metadata a)"
          using check_counters_exact(1) [OF counted ok _ k(1)] sub by auto
        then show ?thesis using k(2) all m(2) by blast
      qed
    qed
  qed
qed

lemma accepted_fab_action:
  assumes v: "ValidatorDriver_NewValidator E pp limits = Inr v"
    and acc: "VerifyTokenRequestFromRaw unmarshal v c getState anchor raw = Inr (res, attrs)"
    and i: "i < length res"
  obtains tr signed d where
    "TokenRequest_FromBytes unmarshal zero_TokenRequest raw = Inr tr"
    and "MarshalToMessageToSign tr (bytes_of_string anchor) = Inr signed"
    and "length res = length (tr_Actions tr)" and "res ! i = da_value d"
    and "verified_with (fab_NewValidator E pp limits [] [] []) (withIdentityNestingLimits v c) anchor tr
      (Some (NewBackend (Some getState) signed []))
      (NewBackend None signed (action_signatures (tr_Signatures tr) (of_nat i))) d"
proof -
  note v' = NewValidator_precision(1) [OF v]
  show ?thesis using accepted_action [OF acc i] that unfolding v' by blast
qed

lemma accepted_fab_transfer:
  assumes v: "ValidatorDriver_NewValidator E pp limits = Inr v"
    and acc: "VerifyTokenRequestFromRaw unmarshal v c getState anchor raw = Inr (res, attrs)"
    and i: "i < length res" "res ! i = Inr x"
  obtains tr signed a ts outs where
    "TokenRequest_FromBytes unmarshal zero_TokenRequest raw = Inr tr"
    and "MarshalToMessageToSign tr (bytes_of_string anchor) = Inr signed" and "x = Some a"
    and "TransferAction_Validate a = Inr ()" and "list_all2 spends (fta_Inputs a) ts"
    and "list_all2 (\<lambda>tok sigma. signed_by (fe_GetOwnerVerifier E (withIdentityNestingLimits v c)) signed
      (Some (Owner tok)) sigma) ts (take (length ts) (action_signatures (tr_Signatures tr) (of_nat i)))"
    and "if Issuers pp \<noteq> [] \<and> redeems a
      then length (action_signatures (tr_Signatures tr) (of_nat i)) = length ts + 1 \<and>
        (\<exists>issuer. fta_Issuer a = Some issuer \<and>
          list_ex (id_Equal (fe_htlc E) (Some issuer)) (Issuers pp) \<and>
          signed_by (fe_GetIssuerVerifier E (withIdentityNestingLimits v c)) signed (Some issuer)
            (last (action_signatures (tr_Signatures tr) (of_nat i))))
      else length (action_signatures (tr_Signatures tr) (of_nat i)) = length ts"
    and "fta_Outputs a = map Some outs" and "balanced (pp_QuantityPrecision pp) ts outs"
    and "\<And>k ti. k < length ts \<Longrightarrow> UnmarshalTypedIdentity (Owner (ts ! k)) = Inr ti \<Longrightarrow>
      Ti_Type ti = ScriptType \<Longrightarrow> length ts = 1 \<and> (\<exists>script.
        json_Script (fe_htlc E) (Ti_Identity ti) = Some script \<and>
        script_spend E a script (ts ! k) (action_signatures (tr_Signatures tr) (of_nat i) ! k))"
    and "locks_valid E a"
    and "\<And>k. distinct (map fst (fta_Metadata a)) \<Longrightarrow> k \<in> fst ` set (fta_Metadata a) \<Longrightarrow>
      HasPrefix k PublicMetadataPrefix \<or> lock_key E a k \<or> claim_key E a ts k"
proof -
  note prec = NewValidator_precision(2) [OF v]
  have fields: "v_PublicParams (fab_NewValidator E pp limits [] [] []) = pp"
    "ta_GetMetadata (v_ops (fab_NewValidator E pp limits [] [] [])) = fta_Metadata"
    by (simp_all add: fab_NewValidator_def)
  obtain tr signed d where
    tr: "TokenRequest_FromBytes unmarshal zero_TokenRequest raw = Inr tr"
      "MarshalToMessageToSign tr (bytes_of_string anchor) = Inr signed" and d: "res ! i = da_value d"
    and ver: "verified_with (fab_NewValidator E pp limits [] [] []) (withIdentityNestingLimits v c) anchor tr
      (Some (NewBackend (Some getState) signed []))
      (NewBackend None signed (action_signatures (tr_Signatures tr) (of_nat i))) d"
    by (rule accepted_fab_action [OF v acc i(1)])
  have "da_value d = Inr x" using d i(2) by simp
  from verified_transfer [OF ver this] obtain a as ctx b where a: "x = Some a"
    and run: "run_validators (withIdentityNestingLimits v c)
      (v_TransferValidators (fab_NewValidator E pp limits [] [] []))
      (new_context pp anchor tr (Some (NewBackend (Some getState) signed []))
        (Some (NewBackend None signed (action_signatures (tr_Signatures tr) (of_nat i)))) as (Some a) None) = Inr ctx"
    and counters: "check_counters (fta_Metadata a) (ctx_MetadataCounter ctx) = (Inr () :: go_error v_error + unit)"
    and used: "ctx_SignatureProvider ctx = Some b" "be_Cursor b = length (be_Sigs b)"
    unfolding fields by metis
  show ?thesis
    by (rule transfer_pipeline [OF run prec used counters]) (rule that [OF tr a])
qed

section \<open>Accepted issues and auditing\<close>

lemma check_issued_quantity_ok:
  assumes "check_issued_quantity p out = Inr u" and "0 < sint p"
  shows "\<exists>t. out = Some t \<and> is_ok (ToQuantity (Quantity t) p) \<and> 0 < amount (Quantity t)"
proof -
  obtain t q where t: "out = Some t" "ToQuantity (Quantity t) p = Inr q"
    and nz: "Quantity_Cmp q (NewZeroQuantity p) \<noteq> 0"
    using assms(1) by (auto simp: check_issued_quantity_def split: option.splits sum.splits if_splits)
  have wf: "wf_quantity q" "wf_quantity (NewZeroQuantity p)"
    using ToQuantity_at [OF t(2)] NewZeroQuantity_at [of p] assms(2) by (auto intro: quantity_at_wf)
  have "Quantity_ToBigInt q \<noteq> 0"
    using nz unfolding Quantity_Cmp_sgn [OF wf] by auto
  then have "0 < amount (Quantity t)"
    using wf_quantity_nonneg [OF wf(1)] ToQuantity_amount [OF t(2)] by simp
  then show ?thesis using t by simp
qed

lemma IssueValidate_ok:
  assumes "IssueValidate E c ctx = Inr ctx'" and a: "ctx_IssueAction ctx = Some a"
    and b: "ctx_SignatureProvider ctx = Some b" and p: "0 < sint (pp_QuantityPrecision (ctx_PP ctx))"
  obtains outs where "fia_Outputs a = map Some outs" and "outs \<noteq> []"
    and "\<forall>t\<in>set outs. is_ok (ToQuantity (Quantity t) (pp_QuantityPrecision (ctx_PP ctx))) \<and> 0 < amount (Quantity t)"
    and "Issuers (ctx_PP ctx) = [] \<or> list_ex (id_Equal (fe_htlc E) (fia_Issuer a)) (Issuers (ctx_PP ctx))"
    and "be_Cursor b < length (be_Sigs b)"
    and "signed_by (fe_GetIssuerVerifier E c) (be_Message b) (fia_Issuer a) (be_Sigs b ! be_Cursor b)"
    and "\<not> id_IsNone (fe_htlc E) (fia_Issuer a)"
    and "ctx' = ctx\<lparr>ctx_SignatureProvider := Some (b\<lparr>be_Cursor := be_Cursor b + 1\<rparr>)\<rparr>"
proof -
  let ?p = "pp_QuantityPrecision (ctx_PP ctx)"
  obtain verifier sigma b' where valid: "IssueAction_Validate (fe_htlc E) a = Inr ()"
    and ne: "fia_Outputs a \<noteq> []"
    and qs: "fold_sum (\<lambda>out _. check_issued_quantity ?p out) (fia_Outputs a) () = Inr ()"
    and iss: "Issuers (ctx_PP ctx) = [] \<or> list_ex (id_Equal (fe_htlc E) (fia_Issuer a)) (Issuers (ctx_PP ctx))"
    and get: "fe_GetIssuerVerifier E c (fia_Issuer a) = Inr verifier"
    and signed: "HasBeenSignedBy (Some b) verifier = Inr (sigma, b')"
    and ctx': "ctx' = ctx\<lparr>ctx_SignatureProvider := Some b'\<rparr>"
    using assms(1) by (auto simp: IssueValidate_def a b Let_def bind_sum_eq_Inr wrap_err_eq_Inr split: if_splits)
  have each: "\<forall>out\<in>set (fia_Outputs a). \<exists>t. out = Some t \<and> is_ok (ToQuantity (Quantity t) ?p) \<and> 0 < amount (Quantity t)"
    using qs check_issued_quantity_ok [OF _ p] by (auto simp: fold_sum_unit)
  then have outs: "fia_Outputs a = map Some (map the (fia_Outputs a))" by (auto intro!: map_idI [symmetric])
  show ?thesis
  proof (rule that [OF outs _ _ iss])
    show "\<not> id_IsNone (fe_htlc E) (fia_Issuer a)"
      using valid by (auto simp: IssueAction_Validate_def)
  qed (use ne each signed get ctx' in \<open>auto simp: HasBeenSignedBy_ok signed_by_def\<close>)
qed

lemma audit_signatures_ok:
  assumes "fold_sum (audit_signature (fab_venv E) c auditors) ss ctx = Inr (ctx' :: fab_context)"
    and "ctx_SignatureProvider ctx = Some b"
  shows "list_all2 (\<lambda>s sigma. list_ex (id_Equal (fe_htlc E) (au_Identity s)) auditors \<and>
      signed_by (fe_GetAuditorVerifier E c) (be_Message b) (au_Identity s) sigma)
    ss (take (length ss) (drop (be_Cursor b) (be_Sigs b)))"
  using assms
proof (induction ss arbitrary: ctx b)
  case (Cons s ss)
  let ?b = "b\<lparr>be_Cursor := be_Cursor b + 1\<rparr>"
  from Cons.prems(1) obtain ctx1 where step: "audit_signature (fab_venv E) c auditors s ctx = Inr ctx1"
    and rest: "fold_sum (audit_signature (fab_venv E) c auditors) ss ctx1 = Inr ctx'"
    by (auto simp: bind_sum_eq_Inr)
  from step Cons.prems(2) obtain verify where s: "list_ex (id_Equal (fe_htlc E) (au_Identity s)) auditors"
      "fe_GetAuditorVerifier E c (au_Identity s) = Inr (Some verify)" "be_Cursor b < length (be_Sigs b)"
      "verify (be_Message b) (be_Sigs b ! be_Cursor b) = Inr ()"
      "ctx_SignatureProvider ctx1 = Some ?b"
    by (auto simp: audit_signature_def fab_venv_def bind_sum_eq_Inr wrap_err_eq_Inr HasBeenSignedBy_ok
        split: if_splits)
  have "drop (be_Cursor b) (be_Sigs b) = be_Sigs b ! be_Cursor b # drop (Suc (be_Cursor b)) (be_Sigs b)"
    using s(3) by (simp add: Cons_nth_drop_Suc)
  with Cons.IH [OF rest, of ?b] s show ?case by (simp add: signed_by_def)
qed simp

end
