(* ===== verification/Fabtoken_Properties.thy ===== *)
theory Fabtoken_Properties
  imports Fabtoken_Validator
begin

text \<open>
  The properties of the fabtoken validator (\<open>src/token/core/fabtoken/v1/validator\<close>), stated for the
  requests that \<open>VerifyTokenRequestFromRaw\<close> accepts with the validator the driver builds: who signed,
  what is conserved, who audits and what the metadata holds.
\<close>

section \<open>An accepted request\<close>

text \<open>
  The witnesses of the properties run the validator on one request: an issue followed by a
  transfer that redeems, with an auditor signature, the issuer's signature for the issue, and the
  signatures of the owner and of the issuer for the transfer.
\<close>

definition fab_owner :: bytes where "fab_owner = WrapWithType X509IdentityType [1]"

definition fab_request :: TokenRequest where
  "fab_request = example_request\<lparr>tr_Signatures :=
     [Some \<lparr>rs_Action = None, rs_Auditor = Some \<lparr>au_Identity = Some [8], au_Signature = [8]\<rparr>\<rparr>,
      Some \<lparr>rs_Action = Some \<lparr>as_ActionID = 0, as_Signature = [9]\<rparr>, rs_Auditor = None\<rparr>,
      Some \<lparr>rs_Action = Some \<lparr>as_ActionID = 1, as_Signature = fab_owner\<rparr>, rs_Auditor = None\<rparr>,
      Some \<lparr>rs_Action = Some \<lparr>as_ActionID = 1, as_Signature = [9]\<rparr>, rs_Auditor = None\<rparr>]\<rparr>"

definition fab_unmarshal :: "bytes \<Rightarrow> pb_TokenRequest option" where
  "fab_unmarshal raw = (if raw = [42] then Some (projr (TokenRequest_ToProtos fab_request)) else None)"

definition fab_pp :: PublicParams where
  "fab_pp = \<lparr>pp_DriverName = FabTokenDriverName, pp_DriverVersion = 1, pp_QuantityPrecision = 64,
     pp_MaxToken = 100, pp_Auditor = [8], pp_IssuerIDs = [Some [9]], pp_ExtraData = []\<rparr>"

definition fab_example_env :: fab_env where
  "fab_example_env = \<lparr>fe_htlc = example_htlc,
     fe_GetAuditorVerifier = (\<lambda>_ i. Inr (Some (example_verifier i))),
     fe_GetOwnerVerifier = (\<lambda>_ i. Inr (Some (example_verifier i))),
     fe_GetIssuerVerifier = (\<lambda>_ i. Inr (Some (example_verifier i))), fe_now = 50,
     fe_unmarshal_issue = (\<lambda>raw. if raw = [7] then
        Some \<lparr>pbia_Version = 1, pbia_Issuer = Some \<lparr>pbi_Raw = Some [9]\<rparr>,
          pbia_Outputs = [Some \<lparr>pbao_Token = Some \<lparr>pbtok_Owner = fab_owner, pbtok_Type = ''A'', pbtok_Quantity = ''7''\<rparr>\<rparr>],
          pbia_Metadata = []\<rparr> else None),
     fe_unmarshal_transfer = (\<lambda>raw. if raw = [8, 9] then
        Some \<lparr>pbta_Version = 1, pbta_Inputs = [Some \<lparr>pbtai_TokenId = Some \<lparr>pbid_TxId = ''t'', pbid_Index = 0\<rparr>,
            pbtai_Input = Some \<lparr>pbtok_Owner = fab_owner, pbtok_Type = ''A'', pbtok_Quantity = ''5''\<rparr>\<rparr>],
          pbta_Outputs = [Some \<lparr>pbao_Token = Some \<lparr>pbtok_Owner = [], pbtok_Type = ''A'', pbtok_Quantity = ''0x5''\<rparr>\<rparr>],
          pbta_Metadata = [(''pub.x'', [3])], pbta_Issuer = Some \<lparr>pbi_Raw = Some [9]\<rparr>\<rparr> else None)\<rparr>"

definition fab_example_issue :: IssueAction where
  "fab_example_issue = \<lparr>fia_Issuer = Some [9],
     fia_Outputs = [Some \<lparr>Owner = fab_owner, Type = ''A'', Quantity = ''7''\<rparr>], fia_Metadata = [],
     fia_limits = Some DefaultResourceLimits\<rparr>"

definition fab_example_transfer :: TransferAction where
  "fab_example_transfer = \<lparr>fta_Inputs = [Some \<lparr>tai_ID = Some \<lparr>TxId = ''t'', Index = 0\<rparr>,
       tai_Input = Some \<lparr>Owner = fab_owner, Type = ''A'', Quantity = ''5''\<rparr>\<rparr>],
     fta_Outputs = [Some \<lparr>Owner = [], Type = ''A'', Quantity = ''0x5''\<rparr>],
     fta_Metadata = [(''pub.x'', [3])], fta_Issuer = Some [9], fta_limits = Some DefaultResourceLimits\<rparr>"

abbreviation fab_v :: fab_validator where
  "fab_v \<equiv> fab_NewValidator fab_example_env fab_pp DefaultResourceLimits [] [] []"

lemma fab_v_new: "ValidatorDriver_NewValidator fab_example_env fab_pp DefaultResourceLimits = Inr fab_v"
  by (simp add: ValidatorDriver_NewValidator_def PublicParams_Validate_def fab_pp_def max_token_value_def)

lemma fab_owner_value: "fab_owner = [0x30, 6, 2, 1, 2, 4, 1, 1]"
  by (simp add: fab_owner_def WrapWithType_def TypedIdentity_Bytes_def EncodeIdentity_def appendTLV_def
      encodeInt32_def X509IdentityType_def derLength_def tag_defs)

lemma fab_owner_nonempty: "fab_owner \<noteq> []"
  by (simp add: fab_owner_value)

lemma fab_owner_decodes:
  "UnmarshalTypedIdentity fab_owner = Inr \<lparr>Ti_Type = X509IdentityType, Ti_Identity = [1]\<rparr>"
  using DecodeIdentity_EncodeIdentity [of X509IdentityType "[1]"] fab_owner_value
  by (simp add: fab_owner_def WrapWithType_def TypedIdentity_Bytes_def UnmarshalTypedIdentity_def)

lemma fab_request_wf: "wf_request fab_request"
  by (simp add: wf_request_def fab_request_def example_request_def ProtocolV1_def action_type_defs
      fab_owner_value)

lemma fab_request_decodes: "TokenRequest_FromBytes fab_unmarshal zero_TokenRequest [42] = Inr fab_request"
  using request_roundtrip_protos [OF fab_request_wf]
  by (auto simp: TokenRequest_FromBytes_def fab_unmarshal_def)

lemma fab_request_message:
  "MarshalToMessageToSign fab_request (bytes_of_string [CHR 0x05]) = Inr example_message"
  unfolding fab_request_def by (simp add: bytes_of_string_def example_message_run)

lemma fab_request_deserialized:
  "deserializeActionsInRequestOrder fab_v (Some fab_request) =
     Inr [\<lparr>da_index = 0, da_actionID = 0, da_typeID = 1, da_issue = Some fab_example_issue, da_transfer = None\<rparr>,
          \<lparr>da_index = 1, da_actionID = 1, da_typeID = 2, da_issue = None, da_transfer = Some fab_example_transfer\<rparr>]"
  by (simp add: deserializeActionsInRequestOrder_def fab_NewValidator_def DeserializeActions_def
      GetIssues_def GetTransfers_def raws_of_type_def fab_request_def example_request_def action_type_defs
      IssueAction_Deserialize_def TransferAction_Deserialize_def fab_example_env_def actions_ProtocolV1_def
      IssueAction_effectiveLimits_def TransferAction_effectiveLimits_def effective_limits_def
      IssueAction_SetLimits_def TransferAction_SetLimits_def zero_IssueAction_def zero_TransferAction_def
      DefaultResourceLimits_def checkMetadataLimits_def message_output_def FromProtosSlice_def
      GenericSliceOfPointers_def TransferActionInput_FromProtos_def fab_example_issue_def
      fab_example_transfer_def Let_def)

lemma fab_quantities:
  "ToQuantity ''5'' 64 = Inr (UInt64Quantity 5)" "ToQuantity ''0x5'' 64 = Inr (UInt64Quantity 5)"
  "ToQuantity ''7'' 64 = Inr (UInt64Quantity 7)"
  by (simp_all add: ToQuantity_def SetString_def nat_scan_def scan_finish_def digit_val_def
      validateBigIntForQuantity_def BitLen_def bit_len.simps)

lemma fab_actions_signed:
  "fold_sum (split_signature (length (tr_Actions fab_request))) (tr_Signatures fab_request) ([], [], \<lambda>_. []) =
     (Inr ([[8]], [[9], fab_owner, [9]], (\<lambda>_. [])(0 := [[9]], 1 := [fab_owner, [9]])) :: go_error v_error + _)"
  by (simp add: fab_request_def example_request_def split_signature_def fun_eq_iff)

lemma fab_limits:
  "CheckRawRequestSize fab_v [42] = Inr ()" "CheckRequestLimits fab_v (Some fab_request) = Inr ()"
  by (simp_all add: CheckRawRequestSize_def CheckRequestLimits_def fab_NewValidator_def Let_def
      DefaultResourceLimits_def fab_request_def example_request_def check_action_size_def
      check_signature_size_def fab_owner_value)

lemma fab_audited:
  "VerifyAuditing fab_v c anchor (Some fab_request) ledger (Some (NewBackend None msg [[8]])) attrs =
     Inr (Some ((NewBackend None msg [[8]])\<lparr>be_Cursor := 1\<rparr>), attrs)"
  by (simp add: VerifyAuditing_def run_validators_def fab_NewValidator_def AuditingSignaturesValidate_def
      new_context_def auditor_signatures_def fab_request_def example_request_def fab_venv_def fab_pp_def
      Auditors_def audit_signature_def fab_example_env_def example_htlc_def HasBeenSignedBy_def
      NewBackend_def example_verifier_def Let_def)

lemma fab_issue_verified:
  "VerifyIssue fab_v c anchor tr (Some fab_example_issue) ledger (Some (NewBackend None msg [[9]])) attrs =
     Inr (Some ((NewBackend None msg [[9]])\<lparr>be_Cursor := 1\<rparr>), attrs)"
  by (simp add: VerifyIssue_def run_validators_def fab_NewValidator_def new_context_def IssueValidate_def
      IssueAction_Validate_def fab_example_issue_def fab_example_env_def example_htlc_def
      IssueAction_effectiveLimits_def effective_limits_def DefaultResourceLimits_def validate_output_def
      checkMetadataLimits_def check_issued_quantity_def fab_pp_def Issuers_def HasBeenSignedBy_def
      NewBackend_def example_verifier_def IssueApplicationDataValidate_def count_public_keys_def
      check_counters_def fab_quantities NewZeroQuantity_def Let_def)

lemma fab_transfer_verified:
  "VerifyTransfer fab_v c anchor tr (Some fab_example_transfer) ledger
     (Some (NewBackend None msg [fab_owner, [9]])) attrs =
     Inr (Some ((NewBackend None msg [fab_owner, [9]])\<lparr>be_Cursor := 2\<rparr>), attrs)"
  by (simp add: VerifyTransfer_def run_validators_def fab_NewValidator_def new_context_def
      TransferActionValidate_def TransferAction_Validate_def fab_example_transfer_def
      TransferAction_effectiveLimits_def effective_limits_def DefaultResourceLimits_def validate_input_def
      Output_Validate_def validate_output_def checkMetadataLimits_def TransferSignatureValidate_def
      input_signature_def fab_example_env_def example_htlc_def HasBeenSignedBy_def NewBackend_def
      example_verifier_def fab_pp_def Issuers_def Output_IsRedeem_def redeem_signature_def
      TransferBalanceValidate_def add_balance_def fab_quantities NewZeroQuantity_def
      TransferHTLCValidate_def htlc_input_def fab_owner_decodes fab_owner_nonempty htlc_output_def ScriptType_def
      identity_type_defs TransferApplicationDataValidate_def count_public_keys_def HasPrefix_def
      PublicMetadataPrefix_def CountMetadataKey_def count_key_def check_counters_def Let_def)

lemma fab_accepted:
  "\<exists>attrs. VerifyTokenRequestFromRaw fab_unmarshal fab_v None getState [CHR 0x05] [42] =
     Inr ([Inl (Some fab_example_issue), Inr (Some fab_example_transfer)], attrs)"
proof -
  have req: "tr_Version fab_request = 1" "tr_Actions fab_request \<noteq> []" "length (tr_Actions fab_request) = 2"
    "v_MinProtocolVersion fab_v = 0"
    by (simp_all add: fab_request_def example_request_def fab_NewValidator_def)
  define byID :: "u32 \<Rightarrow> bytes list" where "byID = (\<lambda>_. [])(0 := [[9]], 1 := [fab_owner, [9]])"
  note signed = fab_actions_signed [unfolded req(3), folded byID_def]
  have providers: "fold (\<lambda>i m. m(of_nat i \<mapsto> NewBackend None msg (byID (of_nat i)))) [0..<2] Map.empty =
    [0 \<mapsto> NewBackend None msg [[9]], 1 \<mapsto> NewBackend None msg [fab_owner, [9]]]" for msg
    by (simp add: numeral_2_eq_2 byID_def)
  have used: "EnsureExhausted (Some ((NewBackend None msg ss)\<lparr>be_Cursor := n\<rparr>)) = Inr ()"
    if "n = length ss" for msg ss n
    using that by (simp add: EnsureExhausted_def NewBackend_def)
  show ?thesis
    unfolding VerifyTokenRequestFromRaw_def Let_def
    by (simp add: fab_limits fab_request_decodes req fab_request_message signed
        providers verifyTokenRequestWithScopedSignatures_def fab_audited used fab_request_deserialized
        verifyDeserializedAction_def fab_issue_verified fab_transfer_verified action_type_defs da_value_def
        Let_def del: upt_rec_numeral)
qed

section \<open>Properties\<close>



text \<open>
  C3: A transfer neither creates nor destroys value. In an accepted request every transfer has at
  least one input and one output, all of its inputs and outputs carry one token type and
  quantities that parse at the precision of the parameters, and the amounts of its inputs add up
  to the amounts of its outputs, the total fitting the precision, so that no sum wrapped.
\<close>

theorem accepted_transfer_balanced:
  assumes "ValidatorDriver_NewValidator E pp limits = Inr v"
    and "VerifyTokenRequestFromRaw unmarshal v c getState anchor raw = Inr (res, attrs)"
    and "i < length res" and "res ! i = Inr x"
  shows "\<exists>a ins outs. x = Some a \<and> list_all2 spends (fta_Inputs a) ins \<and> fta_Outputs a = map Some outs \<and>
    ins \<noteq> [] \<and> outs \<noteq> [] \<and>
    (\<forall>t\<in>set ins \<union> set outs. Type t = Type (hd ins) \<and> is_ok (ToQuantity (Quantity t) (pp_QuantityPrecision pp))) \<and>
    (\<Sum>t\<leftarrow>ins. amount (Quantity t)) = (\<Sum>t\<leftarrow>outs. amount (Quantity t)) \<and>
    (\<Sum>t\<leftarrow>outs. amount (Quantity t)) < 2 ^ nat (sint (pp_QuantityPrecision pp))"
  by (rule accepted_fab_transfer [OF assms]) (auto simp: balanced_def fits_precision_iff)

theorem accepted_transfer_balanced_witness:
  "\<exists>ins outs. list_all2 spends (fta_Inputs fab_example_transfer) ins \<and>
    fta_Outputs fab_example_transfer = map Some outs \<and>
    (\<Sum>t\<leftarrow>ins. amount (Quantity t)) = (\<Sum>t\<leftarrow>outs. amount (Quantity t))"
proof -
  obtain attrs where acc: "VerifyTokenRequestFromRaw fab_unmarshal fab_v None (\<lambda>_. Inr []) [CHR 0x05] [42] =
     Inr ([Inl (Some fab_example_issue), Inr (Some fab_example_transfer)], attrs)"
    using fab_accepted by blast
  from accepted_transfer_balanced [OF fab_v_new acc, of 1 "Some fab_example_transfer"]
  show ?thesis by auto
qed

text \<open>
  C4: Tokens are created by an authorised issuer only. In a request that the fabtoken validator
  accepts, every issue names an issuer, which is one of the issuers of the parameters when they
  list any; the request assigns exactly one signature to the issue, and the issuer's verifier
  accepted it over the message that covers the anchor and all actions. The issue has at least one
  output, and every output has a positive amount that fits the precision.
\<close>

theorem accepted_issue_authorised:
  assumes "ValidatorDriver_NewValidator E pp limits = Inr v"
    and "VerifyTokenRequestFromRaw unmarshal v c getState anchor raw = Inr (res, attrs)"
    and "i < length res" and "res ! i = Inl x"
  shows "\<exists>tr signed a sigma outs. x = Some a \<and>
    TokenRequest_FromBytes unmarshal zero_TokenRequest raw = Inr tr \<and>
    MarshalToMessageToSign tr (bytes_of_string anchor) = Inr signed \<and>
    action_signatures (tr_Signatures tr) (of_nat i) = [sigma] \<and>
    signed_by (fe_GetIssuerVerifier E (withIdentityNestingLimits v c)) signed (fia_Issuer a) sigma \<and>
    \<not> id_IsNone (fe_htlc E) (fia_Issuer a) \<and>
    (Issuers pp = [] \<or> list_ex (id_Equal (fe_htlc E) (fia_Issuer a)) (Issuers pp)) \<and>
    fia_Outputs a = map Some outs \<and> outs \<noteq> [] \<and>
    (\<forall>t\<in>set outs. is_ok (ToQuantity (Quantity t) (pp_QuantityPrecision pp)) \<and> 0 < amount (Quantity t))"
proof (rule accepted_fab_action [OF assms(1-3)])
  fix tr :: TokenRequest and signed and d :: "(TransferAction, IssueAction) deserializedAction"
  let ?c = "withIdentityNestingLimits v c" and ?v = "fab_NewValidator E pp limits [] [] []"
  let ?sigs = "action_signatures (tr_Signatures tr) (of_nat i)"
  assume tr: "TokenRequest_FromBytes unmarshal zero_TokenRequest raw = Inr tr"
      "MarshalToMessageToSign tr (bytes_of_string anchor) = Inr signed" and d: "res ! i = da_value d"
    and ver: "verified_with ?v ?c anchor tr (Some (NewBackend (Some getState) signed []))
      (NewBackend None signed ?sigs) d"
  have fields: "v_PublicParams ?v = pp" by (simp add: fab_NewValidator_def)
  have "da_value d = Inl x" using d assms(4) by simp
  from verified_issue [OF ver this] obtain a as ctx b where a: "x = Some a"
    and run: "run_validators ?c (v_IssueValidators ?v)
      (new_context pp anchor tr (Some (NewBackend (Some getState) signed []))
        (Some (NewBackend None signed ?sigs)) as None (Some a)) = Inr ctx" (is "run_validators _ _ ?ctx0 = _")
    and used: "ctx_SignatureProvider ctx = Some b" "be_Cursor b = length (be_Sigs b)"
    unfolding fields by metis
  have ctx0: "ctx_IssueAction ?ctx0 = Some a" "ctx_PP ?ctx0 = pp"
    "ctx_SignatureProvider ?ctx0 = Some (NewBackend None signed ?sigs)"
    by (simp_all add: new_context_def)
  from run obtain ctx1 where iv: "IssueValidate E ?c ?ctx0 = Inr ctx1"
    and app: "IssueApplicationDataValidate fia_Metadata ?c ctx1 = Inr ctx"
    by (auto simp: run_validators_def fab_NewValidator_def bind_sum_eq_Inr)
  have p: "0 < sint (pp_QuantityPrecision (ctx_PP ?ctx0))"
    using NewValidator_precision(2) [OF assms(1)] by (simp add: ctx0)
  from iv ctx0(1,3) p obtain outs where outs: "fia_Outputs a = map Some outs" "outs \<noteq> []"
    "\<forall>t\<in>set outs. is_ok (ToQuantity (Quantity t) (pp_QuantityPrecision pp)) \<and> 0 < amount (Quantity t)"
    "Issuers pp = [] \<or> list_ex (id_Equal (fe_htlc E) (fia_Issuer a)) (Issuers pp)"
    and sg: "0 < length ?sigs" "signed_by (fe_GetIssuerVerifier E ?c) signed (fia_Issuer a) (?sigs ! 0)"
    "\<not> id_IsNone (fe_htlc E) (fia_Issuer a)"
    and ctx1: "ctx1 = ?ctx0\<lparr>ctx_SignatureProvider := Some ((NewBackend None signed ?sigs)\<lparr>be_Cursor := 1\<rparr>)\<rparr>"
    by (rule IssueValidate_ok) (simp_all add: new_context_def NewBackend_def)
  have "ctx = count_public_keys (fia_Metadata a) ctx1"
    using app ctx0(1) by (simp add: IssueApplicationDataValidate_def ctx1)
  then have "length ?sigs = 1"
    using used by (auto simp: count_public_keys_frame ctx1 NewBackend_def)
  then have "?sigs = [?sigs ! 0]" by (cases ?sigs) auto
  then show ?thesis using a tr outs sg by blast
qed

theorem accepted_issue_authorised_witness:
  "\<exists>tr signed sigma. TokenRequest_FromBytes fab_unmarshal zero_TokenRequest [42] = Inr tr \<and>
    MarshalToMessageToSign tr (bytes_of_string [CHR 0x05]) = Inr signed \<and>
    action_signatures (tr_Signatures tr) 0 = [sigma] \<and>
    signed_by (\<lambda>i. Inr (Some (example_verifier i))) signed (Some [9]) sigma"
proof -
  obtain attrs where acc: "VerifyTokenRequestFromRaw fab_unmarshal fab_v None (\<lambda>_. Inr []) [CHR 0x05] [42] =
     Inr ([Inl (Some fab_example_issue), Inr (Some fab_example_transfer)], attrs)"
    using fab_accepted by blast
  have env: "fia_Issuer fab_example_issue = Some [9]"
    "fe_GetIssuerVerifier fab_example_env c = (\<lambda>i. Inr (Some (example_verifier i)))" for c
    by (simp_all add: fab_example_issue_def fab_example_env_def fun_eq_iff)
  from accepted_issue_authorised [OF fab_v_new acc, of 0 "Some fab_example_issue"]
  show ?thesis using env by auto
qed

text \<open>
  C5: The auditor cannot be bypassed. When the parameters name an auditor, a request that the
  fabtoken validator accepts carries at least one auditor signature, and every auditor signature
  in it names an identity among the auditors, whose verifier accepted it over the message that
  covers the anchor and all actions. When the parameters name no auditor, the request carries no
  auditor signature at all.
\<close>

theorem accepted_request_audited:
  assumes v: "ValidatorDriver_NewValidator E pp limits = Inr v"
    and acc: "VerifyTokenRequestFromRaw unmarshal v c getState anchor raw = Inr (res, attrs)"
  shows "\<exists>tr signed. TokenRequest_FromBytes unmarshal zero_TokenRequest raw = Inr tr \<and>
    MarshalToMessageToSign tr (bytes_of_string anchor) = Inr signed \<and>
    (if pp_Auditor pp = [] then auditor_signatures tr = []
     else auditor_signatures tr \<noteq> [] \<and>
       (\<forall>s\<in>set (auditor_signatures tr).
          id_Equal (fe_htlc E) (au_Identity s) (Some (pp_Auditor pp)) \<and>
          signed_by (fe_GetAuditorVerifier E (withIdentityNestingLimits v c)) signed (au_Identity s)
            (au_Signature s)))"
proof (rule accepted_request [OF acc])
  fix tr :: TokenRequest and signed
  let ?c = "withIdentityNestingLimits v c" and ?ss = "auditor_signatures tr"
  let ?b = "NewBackend None signed (map au_Signature ?ss) :: go_error Backend"
  assume tr: "TokenRequest_FromBytes unmarshal zero_TokenRequest raw = Inr tr"
    "MarshalToMessageToSign tr (bytes_of_string anchor) = Inr signed"
    and "\<exists>a0 a1 b'. VerifyAuditing v ?c anchor (Some tr) (Some (NewBackend (Some getState) signed []))
      (Some ?b) a0 = Inr (Some b', a1) \<and> be_Cursor b' = length (be_Sigs b')"
  then obtain a0 ctx where
    "AuditingSignaturesValidate (fab_venv E) ?c (new_context pp anchor tr
      (Some (NewBackend (Some getState) signed [])) (Some ?b) a0 None None) = Inr (ctx :: fab_context)"
    unfolding NewValidator_precision(1) [OF v]
    by (auto simp: VerifyAuditing_def run_validators_def fab_NewValidator_def bind_sum_eq_Inr)
  then have run: "if Auditors pp = [] then ?ss = []
      else ?ss \<noteq> [] \<and> fold_sum (audit_signature (fab_venv E) ?c (Auditors pp)) ?ss
        (new_context pp anchor tr (Some (NewBackend (Some getState) signed [])) (Some ?b) a0 None None) =
        Inr (ctx :: fab_context)"
    by (auto simp: AuditingSignaturesValidate_def fab_venv_def new_context_def Let_def split: if_splits)
  have "if pp_Auditor pp = [] then ?ss = []
     else ?ss \<noteq> [] \<and> (\<forall>s\<in>set ?ss. id_Equal (fe_htlc E) (au_Identity s) (Some (pp_Auditor pp)) \<and>
          signed_by (fe_GetAuditorVerifier E ?c) signed (au_Identity s) (au_Signature s))"
  proof (cases "pp_Auditor pp = []")
    case True
    then show ?thesis using run by (simp add: Auditors_def)
  next
    case False
    then have aud: "Auditors pp = [Some (pp_Auditor pp)]" and ne: "?ss \<noteq> []"
      using run by (simp_all add: Auditors_def)
    with run have "list_all2 (\<lambda>s sigma. list_ex (id_Equal (fe_htlc E) (au_Identity s)) (Auditors pp) \<and>
        signed_by (fe_GetAuditorVerifier E ?c) (be_Message ?b) (au_Identity s) sigma)
      ?ss (take (length ?ss) (drop (be_Cursor ?b) (be_Sigs ?b)))"
      by (intro audit_signatures_ok [where ctx' = ctx and ctx = "new_context pp anchor tr
        (Some (NewBackend (Some getState) signed [])) (Some ?b) a0 None None"]) (simp_all add: new_context_def)
    then have "\<forall>s\<in>set ?ss. id_Equal (fe_htlc E) (au_Identity s) (Some (pp_Auditor pp)) \<and>
        signed_by (fe_GetAuditorVerifier E ?c) signed (au_Identity s) (au_Signature s)"
      by (auto simp: aud NewBackend_def list_all2_map2 list_all2_same)
    then show ?thesis using False ne by simp
  qed
  then show ?thesis using tr by blast
qed

theorem accepted_request_audited_witness:
  "\<exists>tr signed. TokenRequest_FromBytes fab_unmarshal zero_TokenRequest [42] = Inr tr \<and>
    MarshalToMessageToSign tr (bytes_of_string [CHR 0x05]) = Inr signed \<and> auditor_signatures tr \<noteq> [] \<and>
    (\<forall>s\<in>set (auditor_signatures tr).
       signed_by (\<lambda>i. Inr (Some (example_verifier i))) signed (au_Identity s) (au_Signature s))"
proof -
  obtain attrs where acc: "VerifyTokenRequestFromRaw fab_unmarshal fab_v None (\<lambda>_. Inr []) [CHR 0x05] [42] =
     Inr ([Inl (Some fab_example_issue), Inr (Some fab_example_transfer)], attrs)"
    using fab_accepted by blast
  have env: "pp_Auditor fab_pp \<noteq> []"
    "fe_GetAuditorVerifier fab_example_env c = (\<lambda>i. Inr (Some (example_verifier i)))" for c
    by (simp_all add: fab_pp_def fab_example_env_def fun_eq_iff)
  from accepted_request_audited [OF fab_v_new acc]
  show ?thesis using env by auto
qed

text \<open>
  C7: Nothing unchecked reaches the ledger through the metadata of a transfer. Every metadata entry
  of a transfer in an accepted request is either application data under the public prefix, or the
  lock of a script that owns one of the outputs, holding that script's hash, or the claim of a
  script that owned an input, holding a preimage whose image the key names. Every output owned by
  a script is recorded under its lock key, and its script is complete and not expired.
\<close>

theorem accepted_transfer_metadata:
  assumes "ValidatorDriver_NewValidator E pp limits = Inr v"
    and "VerifyTokenRequestFromRaw unmarshal v c getState anchor raw = Inr (res, attrs)"
    and "i < length res" and "res ! i = Inr (Some a)" and "distinct (map fst (fta_Metadata a))"
  shows "(\<exists>ins. list_all2 spends (fta_Inputs a) ins \<and> (\<forall>k\<in>fst ` set (fta_Metadata a).
      HasPrefix k PublicMetadataPrefix \<or> lock_key E a k \<or> claim_key E a ins k)) \<and> locks_valid E a"
  by (rule accepted_fab_transfer [OF assms(1-4)]) (use assms(5) in blast)

theorem accepted_transfer_metadata_witness:
  "(\<exists>ins. list_all2 spends (fta_Inputs fab_example_transfer) ins \<and>
     (\<forall>k\<in>fst ` set (fta_Metadata fab_example_transfer).
        HasPrefix k PublicMetadataPrefix \<or> lock_key fab_example_env fab_example_transfer k \<or>
        claim_key fab_example_env fab_example_transfer ins k)) \<and> locks_valid fab_example_env fab_example_transfer"
proof -
  obtain attrs where acc: "VerifyTokenRequestFromRaw fab_unmarshal fab_v None (\<lambda>_. Inr []) [CHR 0x05] [42] =
     Inr ([Inl (Some fab_example_issue), Inr (Some fab_example_transfer)], attrs)"
    using fab_accepted by blast
  show ?thesis
    by (rule accepted_transfer_metadata [OF fab_v_new acc, of 1]) (simp_all add: fab_example_transfer_def)
qed

end
