(* ===== verification/Bool_Policy.thy ===== *)
theory Bool_Policy
  imports Limits Keys
begin

text \<open>
  The policy language of \<open>src/token/services/identity/boolpolicy/parser.go\<close>: syntax trees and their
  evaluation, the lexer and the recursive-descent parser with its limits on length, nesting and
  number of nodes.

  A string is the sequence of its bytes and is decoded to runes as the conversion \<open>[]rune(s)\<close> does.
  A lexer is the sequence of runes it has not read yet (\<open>runes[pos:]\<close> of the source). The
  classification of runes above Latin-1 follows the tables of the \<open>unicode\<close> package, which are a
  parameter; every lemma holds for every table. The parsing functions take fuel, since a loop
  continues with the state an inner call returns; \<open>parse_terminates\<close> shows that the fuel \<open>Parse\<close>
  passes is always enough.

  The lemmas relate the parser to the grammar in the package comment: \<open>Parse\<close> returns a tree
  exactly when the input has at most 4096 bytes, its tokens derive the tree within the nesting limit
  and the tree has at most 1024 nodes.
\<close>

section \<open>Runes\<close>

type_synonym rune = nat

record unicode_tables =
  uni_Nd :: "rune \<Rightarrow> bool"
  uni_L :: "rune \<Rightarrow> bool"
  uni_Upper :: "rune \<Rightarrow> rune"

text \<open>
  UTF-8 as the conversions between strings and runes use it: an ill-formed sequence decodes to
  U+FFFD, one byte at a time.
\<close>

function decode_utf8 :: "nat list \<Rightarrow> rune list" where
  "decode_utf8 [] = []"
| "decode_utf8 (b # bs) =
     (if b < 0x80 then b # decode_utf8 bs
      else case utf8_step b bs of
             None \<Rightarrow> 0xFFFD # decode_utf8 bs
           | Some (r, bs') \<Rightarrow> r # decode_utf8 bs')"
  by pat_completeness auto
termination
  by (relation "measure length") (auto dest: utf8_step_shorter)

definition encode_rune :: "rune \<Rightarrow> nat list" where
  "encode_rune r =
     (if r < 0x80 then [r]
      else if r < 0x800 then [0xC0 + r div 64, 0x80 + r mod 64]
      else if 0xD800 \<le> r \<and> r \<le> 0xDFFF \<or> 0x10FFFF < r then [0xEF, 0xBF, 0xBD]
      else if r < 0x10000 then [0xE0 + r div 4096, 0x80 + r div 64 mod 64, 0x80 + r mod 64]
      else [0xF0 + r div 262144, 0x80 + r div 4096 mod 64, 0x80 + r div 64 mod 64, 0x80 + r mod 64])"

definition runes_of :: "string \<Rightarrow> rune list" where
  "runes_of s = decode_utf8 (map of_char s)"

definition rune_string :: "rune list \<Rightarrow> string" where
  "rune_string rs = map char_of (concat (map encode_rune rs))"

definition IsSpace :: "rune \<Rightarrow> bool" where
  "IsSpace r =
     (if r \<le> 0xFF then 9 \<le> r \<and> r \<le> 13 \<or> r = 32 \<or> r = 0x85 \<or> r = 0xA0
      else r = 0x1680 \<or> 0x2000 \<le> r \<and> r \<le> 0x200A \<or> r = 0x2028 \<or> r = 0x2029 \<or> r = 0x202F
           \<or> r = 0x205F \<or> r = 0x3000)"

definition IsDigit :: "unicode_tables \<Rightarrow> rune \<Rightarrow> bool" where
  "IsDigit U r = (if r \<le> 0xFF then 48 \<le> r \<and> r \<le> 57 else uni_Nd U r)"

definition IsLetter :: "unicode_tables \<Rightarrow> rune \<Rightarrow> bool" where
  "IsLetter U r =
     (if r \<le> 0xFF then
        65 \<le> r \<and> r \<le> 90 \<or> 97 \<le> r \<and> r \<le> 122 \<or> r = 0xAA \<or> r = 0xB5 \<or> r = 0xBA
        \<or> 0xC0 \<le> r \<and> r \<noteq> 0xD7 \<and> r \<noteq> 0xF7
      else uni_L U r)"

definition ToUpper :: "unicode_tables \<Rightarrow> rune \<Rightarrow> rune" where
  "ToUpper U r = (if r < 0x80 then (if 97 \<le> r \<and> r \<le> 122 then r - 32 else r) else uni_Upper U r)"

section \<open>Syntax trees\<close>

text \<open>\<open>NilNode\<close> is the \<open>nil\<close> interface value, which the parser builds on only after an error.\<close>

datatype Node = NilNode | RefNode int | AndNode Node Node | OrNode Node Node

fun Node_Eval :: "Node \<Rightarrow> bool list \<Rightarrow> bool" where
  "Node_Eval (RefNode i) refs = (if i < 0 \<or> int (length refs) \<le> i then False else refs ! nat i)"
| "Node_Eval (AndNode l r) refs = (Node_Eval l refs \<and> Node_Eval r refs)"
| "Node_Eval (OrNode l r) refs = (Node_Eval l refs \<or> Node_Eval r refs)"
| "Node_Eval NilNode refs = False"

fun Node_String :: "Node \<Rightarrow> string" where
  "Node_String (RefNode i) = ''$'' @ int_text 10 i"
| "Node_String (AndNode l r) = ''('' @ Node_String l @ '' AND '' @ Node_String r @ '')''"
| "Node_String (OrNode l r) = ''('' @ Node_String l @ '' OR '' @ Node_String r @ '')''"
| "Node_String NilNode = ''%!s(<nil>)''"

section \<open>Lexer\<close>

definition maxPolicyLen :: nat where "maxPolicyLen = 4 * 1024"
definition maxParseDepth :: nat where "maxParseDepth = 64"
definition maxParseNodes :: nat where "maxParseNodes = 1024"

datatype lexToken = tokEOF | tokRef int | tokAnd | tokOr | tokLParen | tokRParen

definition skipSpace :: "rune list \<Rightarrow> rune list" where
  "skipSpace l = dropWhile IsSpace l"

definition lexer_next :: "unicode_tables \<Rightarrow> rune list \<Rightarrow> (string + lexToken) \<times> rune list" where
  "lexer_next U l =
     (case skipSpace l of
        [] \<Rightarrow> (Inr tokEOF, [])
      | ch # rest \<Rightarrow>
          if ch = 40 then (Inr tokLParen, rest)
          else if ch = 41 then (Inr tokRParen, rest)
          else if ch = 36 then
            let ds = takeWhile (IsDigit U) rest; l = dropWhile (IsDigit U) rest in
            if ds = [] then (Inl ''expected digit after $'', l)
            else (case Atoi (rune_string ds) of
               None \<Rightarrow> (Inl ''invalid index'', l)
             | Some idx \<Rightarrow> (Inr (tokRef idx), l))
          else if IsLetter U ch then
            let word = map (ToUpper U) (takeWhile (IsLetter U) (ch # rest));
                l = dropWhile (IsLetter U) (ch # rest) in
            if word = runes_of ''AND'' then (Inr tokAnd, l)
            else if word = runes_of ''OR'' then (Inr tokOr, l)
            else (Inl ''unknown keyword'', l)
          else (Inl ''unexpected character'', ch # rest))"

section \<open>Parser\<close>

record parser =
  p_lex :: "rune list"
  p_current :: lexToken
  p_err :: "string option"
  p_nodes :: nat

definition countNode :: "parser \<Rightarrow> bool \<times> parser" where
  "countNode p =
     (let p = p\<lparr>p_nodes := p_nodes p + 1\<rparr> in
      if p_nodes p > maxParseNodes then
        (False, if p_err p = None then p\<lparr>p_err := Some ''policy expression exceeds maximum node count''\<rparr> else p)
      else (True, p))"

definition advance :: "unicode_tables \<Rightarrow> parser \<Rightarrow> parser" where
  "advance U p =
     (if p_err p \<noteq> None then p
      else (case lexer_next U (p_lex p) of
         (Inr t, l) \<Rightarrow> p\<lparr>p_lex := l, p_current := t\<rparr>
       | (Inl e, l) \<Rightarrow> p\<lparr>p_lex := l, p_current := tokEOF, p_err := Some e\<rparr>))"

text \<open>
  The loop that \<open>parseOr\<close> and \<open>parseAnd\<close> have in common: while the current token is the operator
  \<open>t\<close>, it reads an operand with \<open>operand\<close> and extends the tree \<open>left\<close> by \<open>mk\<close>. The two functions
  take the function that reads the operands below as an argument, so that \<open>parsePrimary\<close> is the
  only one that recurs.
\<close>

fun parse_loop :: "unicode_tables \<Rightarrow> lexToken \<Rightarrow> (Node \<Rightarrow> Node \<Rightarrow> Node) \<Rightarrow>
    (parser \<Rightarrow> (Node \<times> parser) option) \<Rightarrow> nat \<Rightarrow> Node \<Rightarrow> parser \<Rightarrow> (Node \<times> parser) option" where
  "parse_loop U t mk operand 0 left p = None"
| "parse_loop U t mk operand (Suc f) left p =
     (if p_err p = None \<and> p_current p = t then
        Option.bind (operand (advance U p)) (\<lambda>(right, p).
          case countNode p of
            (False, p) \<Rightarrow> Some (NilNode, p)
          | (True, p) \<Rightarrow> parse_loop U t mk operand f (mk left right) p)
      else Some (left, p))"

definition parseAnd :: "unicode_tables \<Rightarrow> (parser \<Rightarrow> (Node \<times> parser) option) \<Rightarrow> nat \<Rightarrow> parser \<Rightarrow>
    (Node \<times> parser) option" where
  "parseAnd U primary f p =
     Option.bind (primary p) (\<lambda>(left, p). parse_loop U tokAnd AndNode primary f left p)"

definition parseOr :: "unicode_tables \<Rightarrow> (parser \<Rightarrow> (Node \<times> parser) option) \<Rightarrow> nat \<Rightarrow> parser \<Rightarrow>
    (Node \<times> parser) option" where
  "parseOr U primary f p =
     Option.bind (parseAnd U primary f p) (\<lambda>(left, p). parse_loop U tokOr OrNode (parseAnd U primary f) f left p)"

fun parsePrimary :: "unicode_tables \<Rightarrow> nat \<Rightarrow> nat \<Rightarrow> parser \<Rightarrow> (Node \<times> parser) option" where
  "parsePrimary U 0 depth p = None"
| "parsePrimary U (Suc f) depth p =
     (if p_err p \<noteq> None then Some (NilNode, p)
      else case p_current p of
          tokRef i \<Rightarrow>
            (case countNode p of
               (False, p) \<Rightarrow> Some (NilNode, p)
             | (True, p) \<Rightarrow> Some (RefNode i, advance U p))
        | tokLParen \<Rightarrow>
            if depth \<ge> maxParseDepth
            then Some (NilNode, p\<lparr>p_err := Some ''policy expression exceeds maximum nesting depth''\<rparr>)
            else Option.bind (parseOr U (parsePrimary U f (depth + 1)) f (advance U p)) (\<lambda>(node, p).
              if p_err p \<noteq> None then Some (NilNode, p)
              else if p_current p \<noteq> tokRParen then Some (NilNode, p\<lparr>p_err := Some ''expected )''\<rparr>)
              else Some (node, advance U p))
        | _ \<Rightarrow> Some (NilNode, p\<lparr>p_err := Some ''expected $N or (''\<rparr>))"

definition parse_fuel :: "rune list \<Rightarrow> nat" where
  "parse_fuel l = length l + 2"

definition Parse :: "unicode_tables \<Rightarrow> string \<Rightarrow> string + Node" where
  "Parse U input =
     (if length input > maxPolicyLen then Inl ''policy expression exceeds maximum length''
      else
        let p = advance U \<lparr>p_lex = runes_of input, p_current = tokEOF, p_err = None, p_nodes = 0\<rparr> in
        case p_err p of
          Some e \<Rightarrow> Inl e
        | None \<Rightarrow>
            (case parseOr U (parsePrimary U (parse_fuel (runes_of input)) 0) (parse_fuel (runes_of input)) p of
               None \<Rightarrow> Inl ''out of fuel''
             | Some (node, p) \<Rightarrow>
                 (case p_err p of
                    Some e \<Rightarrow> Inl e
                  | None \<Rightarrow>
                      if p_current p \<noteq> tokEOF then Inl ''unexpected token after expression''
                      else Inr node)))"

section \<open>Termination\<close>

text \<open>The runes still to read, and the token that has been read but not used.\<close>

definition parser_size :: "parser \<Rightarrow> nat" where
  "parser_size p = length (p_lex p) + (if p_err p = None \<and> p_current p \<noteq> tokEOF then 1 else 0)"

lemma length_skipSpace: "length (skipSpace l) \<le> length l"
  by (simp add: skipSpace_def length_dropWhile_le)

lemma lexer_next_length:
  assumes "lexer_next U l = (r, l')"
  shows "length l' \<le> length l" and "r = Inr t \<Longrightarrow> t \<noteq> tokEOF \<Longrightarrow> length l' < length l"
proof -
  have drop: "length (dropWhile P rest) \<le> length rest" for P and rest :: "rune list"
    by (rule length_dropWhile_le)
  have *: "length l' \<le> length l \<and> (r = Inr t \<longrightarrow> t \<noteq> tokEOF \<longrightarrow> length l' < length l)"
  proof (cases "skipSpace l")
    case Nil
    with assms show ?thesis by (auto simp: lexer_next_def)
  next
    case (Cons ch rest)
    then have len: "Suc (length rest) \<le> length l" using length_skipSpace [of l] by simp
    have lt: "length (dropWhile P rest) < length l" for P using drop [of P rest] len by simp
    have step: "IsLetter U ch \<Longrightarrow> dropWhile (IsLetter U) (ch # rest) = dropWhile (IsLetter U) rest" by simp
    show ?thesis
      using assms Cons len lt [of "IsDigit U"] lt [of "IsLetter U"]
      by (auto simp: lexer_next_def Let_def split: if_splits option.splits intro: less_imp_le length_skipSpace)
  qed
  show "length l' \<le> length l" using * by blast
  show "r = Inr t \<Longrightarrow> t \<noteq> tokEOF \<Longrightarrow> length l' < length l" using * by blast
qed

lemma advance_err: "p_err p \<noteq> None \<Longrightarrow> advance U p = p"
  by (simp add: advance_def)

lemma parser_size_advance: "parser_size (advance U p) \<le> parser_size p \<or> p_err p = None \<and> p_current p = tokEOF"
proof (cases "p_err p = None")
  case True
  obtain r l' where lx: "lexer_next U (p_lex p) = (r, l')" by (cases "lexer_next U (p_lex p)")
  show ?thesis
    using True lx lexer_next_length [OF lx]
    by (cases r) (auto simp: advance_def parser_size_def)
qed (simp add: advance_err)

lemma parser_size_advance_less:
  assumes "p_err p = None" and "p_current p \<noteq> tokEOF"
  shows "parser_size (advance U p) < parser_size p"
proof -
  obtain r l' where lx: "lexer_next U (p_lex p) = (r, l')" by (cases "lexer_next U (p_lex p)")
  show ?thesis
    using assms lx lexer_next_length [OF lx]
    by (cases r) (auto simp: advance_def parser_size_def)
qed

lemma countNode_simps:
  "countNode p = (b, q) \<Longrightarrow>
     p_lex q = p_lex p \<and> p_current q = p_current p \<and> p_nodes q = p_nodes p + 1 \<and>
     (b \<longleftrightarrow> p_nodes p < maxParseNodes) \<and> (b \<longrightarrow> p_err q = p_err p) \<and> (\<not> b \<longrightarrow> p_err q \<noteq> None)"
  by (auto simp: countNode_def Let_def split: if_splits)

lemma parser_size_countNode: "countNode p = (b, q) \<Longrightarrow> parser_size q \<le> parser_size p"
  by (auto dest!: countNode_simps simp: parser_size_def)

text \<open>
  Fuel above the size of the parser state is enough for every function, and no function makes the
  state larger.
\<close>

definition fuelled :: "(parser \<Rightarrow> (Node \<times> parser) option) \<Rightarrow> nat \<Rightarrow> bool" where
  "fuelled F f \<longleftrightarrow>
     (\<forall>p. parser_size p < f \<longrightarrow> (\<exists>n p'. F p = Some (n, p') \<and> parser_size p' \<le> parser_size p))"

lemma fuelledD:
  assumes "fuelled F f" and "parser_size p < f"
  obtains n p' where "F p = Some (n, p')" and "parser_size p' \<le> parser_size p"
  using assms unfolding fuelled_def by blast

lemma parse_loop_fuelled:
  assumes "fuelled operand g" and "t \<noteq> tokEOF"
  shows "parser_size p < f \<Longrightarrow> parser_size p \<le> g \<Longrightarrow>
    \<exists>n p'. parse_loop U t mk operand f l p = Some (n, p') \<and> parser_size p' \<le> parser_size p"
proof (induction f arbitrary: l p)
  case (Suc f)
  show ?case
  proof (cases "p_err p = None \<and> p_current p = t")
    case True
    then have less: "parser_size (advance U p) < parser_size p"
      using assms(2) by (auto intro: parser_size_advance_less)
    with Suc.prems have "parser_size (advance U p) < g" by simp
    with assms(1) obtain r p1 where p1: "operand (advance U p) = Some (r, p1)" "parser_size p1 \<le> parser_size (advance U p)"
      by (rule fuelledD)
    obtain b p2 where cn: "countNode p1 = (b, p2)" by (cases "countNode p1")
    have p2: "parser_size p2 < parser_size p" using parser_size_countNode [OF cn] p1 less by simp
    then obtain n p3 where "parse_loop U t mk operand f (mk l r) p2 = Some (n, p3)" "parser_size p3 \<le> parser_size p2"
      using Suc.IH [of p2 "mk l r"] Suc.prems by auto
    then show ?thesis using True p1 cn p2 by (cases b) auto
  qed auto
qed simp

lemma fuelled_seq:
  assumes "fuelled operand f" and "t \<noteq> tokEOF"
  shows "fuelled (\<lambda>p. Option.bind (operand p) (\<lambda>(l, p). parse_loop U t mk operand f l p)) f"
  unfolding fuelled_def
proof (intro allI impI)
  fix p assume fuel: "parser_size p < f"
  with assms(1) obtain l p1 where p1: "operand p = Some (l, p1)" "parser_size p1 \<le> parser_size p" by (rule fuelledD)
  then show "\<exists>n p'. Option.bind (operand p) (\<lambda>(l, p). parse_loop U t mk operand f l p) = Some (n, p')
      \<and> parser_size p' \<le> parser_size p"
    using parse_loop_fuelled [OF assms, of p1 f U mk l] fuel by auto
qed

lemma parseOr_fuelled: "fuelled primary f \<Longrightarrow> fuelled (parseOr U primary f) f"
proof -
  assume "fuelled primary f"
  then have "fuelled (parseAnd U primary f) f"
    unfolding parseAnd_def [abs_def] by (rule fuelled_seq) simp
  then show ?thesis unfolding parseOr_def [abs_def] by (rule fuelled_seq) simp
qed

lemma parsePrimary_fuelled: "fuelled (parsePrimary U f d) f"
proof (induction f arbitrary: d)
  case (Suc f)
  have "\<exists>n p'. parsePrimary U (Suc f) d p = Some (n, p') \<and> parser_size p' \<le> parser_size p"
    if fuel: "parser_size p < Suc f" for p
  proof (cases "p_err p = None")
    case ok: True
    have less: "p_current p \<noteq> tokEOF \<Longrightarrow> parser_size (advance U p) < parser_size p"
      using ok by (rule parser_size_advance_less)
    show ?thesis
    proof (cases "p_current p")
      case (tokRef i)
      obtain b q where cn: "countNode p = (b, q)" by (cases "countNode p")
      have "parser_size (advance U q) \<le> parser_size q \<or> p_err q = None \<and> p_current q = tokEOF"
        by (rule parser_size_advance)
      then show ?thesis
        using ok tokRef cn countNode_simps [OF cn] parser_size_countNode [OF cn] by (cases b) auto
    next
      case tokLParen
      then have "parser_size (advance U p) < f" using less fuel by simp
      with parseOr_fuelled [OF Suc.IH [of "d + 1"]]
      obtain n q where q: "parseOr U (parsePrimary U f (d + 1)) f (advance U p) = Some (n, q)"
        "parser_size q \<le> parser_size (advance U p)" by (rule fuelledD)
      have "parser_size (advance U q) \<le> parser_size q \<or> p_current q = tokEOF"
        using parser_size_advance [of U q] by auto
      then show ?thesis using ok tokLParen q less by (auto simp: parser_size_def)
    qed (use ok in \<open>auto simp: parser_size_def\<close>)
  qed auto
  then show ?case by (simp add: fuelled_def)
qed (simp add: fuelled_def)

section \<open>Grammar\<close>

text \<open>
  The grammar of the package comment, with the tree each phrase denotes; \<open>d\<close> is the number of
  enclosing parentheses. The repetitions are relations that extend the tree built so far, so that
  both operators associate to the left.
\<close>

inductive or_expr :: "nat \<Rightarrow> lexToken list \<Rightarrow> Node \<Rightarrow> bool"
  and or_tail :: "nat \<Rightarrow> Node \<Rightarrow> lexToken list \<Rightarrow> Node \<Rightarrow> bool"
  and and_expr :: "nat \<Rightarrow> lexToken list \<Rightarrow> Node \<Rightarrow> bool"
  and and_tail :: "nat \<Rightarrow> Node \<Rightarrow> lexToken list \<Rightarrow> Node \<Rightarrow> bool"
  and primary :: "nat \<Rightarrow> lexToken list \<Rightarrow> Node \<Rightarrow> bool" where
  or_exprI: "and_expr d us l \<Longrightarrow> or_tail d l vs n \<Longrightarrow> or_expr d (us @ vs) n"
| or_end: "or_tail d l [] l"
| or_more: "and_expr d us r \<Longrightarrow> or_tail d (OrNode l r) vs n \<Longrightarrow> or_tail d l (tokOr # us @ vs) n"
| and_exprI: "primary d us l \<Longrightarrow> and_tail d l vs n \<Longrightarrow> and_expr d (us @ vs) n"
| and_end: "and_tail d l [] l"
| and_more: "primary d us r \<Longrightarrow> and_tail d (AndNode l r) vs n \<Longrightarrow> and_tail d l (tokAnd # us @ vs) n"
| ref: "primary d [tokRef i] (RefNode i)"
| paren: "d < maxParseDepth \<Longrightarrow> or_expr (Suc d) ts n \<Longrightarrow> primary d (tokLParen # ts @ [tokRParen]) n"

lemmas grammar_intros = or_expr_or_tail_and_expr_and_tail_primary.intros

fun node_count :: "Node \<Rightarrow> nat" where
  "node_count NilNode = 0"
| "node_count (RefNode i) = 1"
| "node_count (AndNode l r) = node_count l + node_count r + 1"
| "node_count (OrNode l r) = node_count l + node_count r + 1"

text \<open>All tokens of an input, and the tokens a parser has still to consume.\<close>

function lex_all :: "unicode_tables \<Rightarrow> rune list \<Rightarrow> string + lexToken list" where
  "lex_all U l =
     (case lexer_next U l of
        (Inl e, _) \<Rightarrow> Inl e
      | (Inr t, l') \<Rightarrow> if t = tokEOF then Inr [] else bind_sum (lex_all U l') (\<lambda>ts. Inr (t # ts)))"
  by pat_completeness auto
termination by (relation "measure (\<lambda>(U, l). length l)") (auto dest: lexer_next_length(2) [OF sym])

declare lex_all.simps [simp del]

definition pstream :: "unicode_tables \<Rightarrow> parser \<Rightarrow> string + lexToken list" where
  "pstream U p =
     (if p_current p = tokEOF then Inr [] else bind_sum (lex_all U (p_lex p)) (\<lambda>ts. Inr (p_current p # ts)))"

lemma pstream_advance:
  assumes "p_err (advance U p) = None" and "p_current p \<noteq> tokEOF"
  shows "p_err p = None" and "pstream U p = bind_sum (pstream U (advance U p)) (\<lambda>ts. Inr (p_current p # ts))"
proof -
  show err: "p_err p = None" using assms(1) advance_err [of p U] by (cases "p_err p") auto
  obtain r l' where lx: "lexer_next U (p_lex p) = (r, l')" by (cases "lexer_next U (p_lex p)")
  show "pstream U p = bind_sum (pstream U (advance U p)) (\<lambda>ts. Inr (p_current p # ts))"
    using assms err lx by (cases r) (auto simp: pstream_def advance_def lex_all.simps [of U "p_lex p"])
qed

lemma pstream_Cons:
  assumes "pstream U p = Inr (t # ts)" and "p_err p = None"
  shows "p_current p = t" and "p_err (advance U p) = None" and "pstream U (advance U p) = Inr ts"
    and "p_nodes (advance U p) = p_nodes p"
proof -
  obtain r l' where lx: "lexer_next U (p_lex p) = (r, l')" by (cases "lexer_next U (p_lex p)")
  have cur: "p_current p = t" "t \<noteq> tokEOF" "lex_all U (p_lex p) = Inr ts"
    using assms(1) by (auto simp: pstream_def sum_elims split: if_splits)
  then show "p_current p = t" by simp
  show "p_err (advance U p) = None" "pstream U (advance U p) = Inr ts" "p_nodes (advance U p) = p_nodes p"
    using cur assms lx
    by (cases r; auto simp: advance_def pstream_def lex_all.simps [of U "p_lex p"] sum_elims split: if_splits)+
qed

lemma pstream_head: "pstream U p = Inr ts \<Longrightarrow> p_current p = (case ts of [] \<Rightarrow> tokEOF | t # _ \<Rightarrow> t)"
  by (auto simp: pstream_def sum_elims split: if_splits)

lemma advance_nodes: "p_nodes (advance U p) = p_nodes p"
  by (auto simp: advance_def split: prod.splits sum.splits)

lemma pstream_countNode:
  assumes "countNode p = (True, q)"
  shows "pstream U q = pstream U p"
  using countNode_simps [OF assms] by (simp add: pstream_def)

subsection \<open>Soundness\<close>

definition sound :: "unicode_tables \<Rightarrow> (lexToken list \<Rightarrow> Node \<Rightarrow> nat \<Rightarrow> bool) \<Rightarrow>
    (parser \<Rightarrow> (Node \<times> parser) option) \<Rightarrow> bool" where
  "sound U R F \<longleftrightarrow>
     (\<forall>p n p' rest. F p = Some (n, p') \<longrightarrow> p_err p' = None \<longrightarrow> pstream U p' = Inr rest \<longrightarrow>
        p_err p = None \<and> (p_nodes p \<le> maxParseNodes \<longrightarrow> p_nodes p' \<le> maxParseNodes) \<and>
        (\<exists>ts k. pstream U p = Inr (ts @ rest) \<and> p_nodes p' = p_nodes p + k \<and> R ts n k))"

lemma soundD:
  assumes "sound U R F" and "F p = Some (n, p')" and "p_err p' = None" and "pstream U p' = Inr rest"
  obtains ts k where "p_err p = None" and "p_nodes p \<le> maxParseNodes \<longrightarrow> p_nodes p' \<le> maxParseNodes"
    and "pstream U p = Inr (ts @ rest)" and "p_nodes p' = p_nodes p + k" and "R ts n k"
  using assms unfolding sound_def by blast

lemma sound_loop:
  assumes inner: "sound U R operand" and tok: "t \<noteq> tokEOF" and stop: "\<And>l. Q l [] l 0"
    and more: "\<And>l us vs r n j k. R us r j \<Longrightarrow> Q (mk l r) vs n k \<Longrightarrow> Q l (t # us @ vs) n (j + 1 + k)"
  shows "sound U (Q l) (parse_loop U t mk operand f l)"
proof (induction f arbitrary: l)
  case 0
  show ?case by (simp add: sound_def)
next
  case (Suc f)
  show ?case
    unfolding sound_def
  proof (intro allI impI)
    fix p n p' rest
    assume run: "parse_loop U t mk operand (Suc f) l p = Some (n, p')" and ok: "p_err p' = None" "pstream U p' = Inr rest"
    show "p_err p = None \<and> (p_nodes p \<le> maxParseNodes \<longrightarrow> p_nodes p' \<le> maxParseNodes) \<and>
        (\<exists>ts k. pstream U p = Inr (ts @ rest) \<and> p_nodes p' = p_nodes p + k \<and> Q l ts n k)"
    proof (cases "p_err p = None \<and> p_current p = t")
      case True
      then obtain r p1 where p1: "operand (advance U p) = Some (r, p1)"
        and run1: "(case countNode p1 of (False, p) \<Rightarrow> Some (NilNode, p)
          | (True, p) \<Rightarrow> parse_loop U t mk operand f (mk l r) p) = Some (n, p')"
        using run by (auto simp: bind_eq_Some_conv)
      obtain b p2 where cn: "countNode p1 = (b, p2)" by (cases "countNode p1")
      note c = countNode_simps [OF cn]
      have b: "b" using run1 cn c ok(1) by (cases b) auto
      then have run2: "parse_loop U t mk operand f (mk l r) p2 = Some (n, p')" using run1 cn by simp
      from Suc.IH run2 ok obtain vs k where v: "p_err p2 = None" "pstream U p2 = Inr (vs @ rest)"
        "p_nodes p2 \<le> maxParseNodes \<longrightarrow> p_nodes p' \<le> maxParseNodes" "p_nodes p' = p_nodes p2 + k" "Q (mk l r) vs n k"
        by (rule soundD)
      have e1: "p_err p1 = None" "pstream U p1 = Inr (vs @ rest)"
        using c b v(1,2) pstream_countNode [of p1 p2 U] cn by auto
      from inner p1 e1 obtain us j where u: "p_err (advance U p) = None" "pstream U (advance U p) = Inr (us @ vs @ rest)"
        "p_nodes p1 = p_nodes (advance U p) + j" "R us r j" by (rule soundD)
      have "pstream U p = Inr ((t # us @ vs) @ rest)" using pstream_advance [OF u(1)] tok True u(2) by simp
      moreover have "p_nodes p' = p_nodes p + (j + 1 + k)" using v(4) c u(3) by (simp add: advance_nodes)
      ultimately show ?thesis using True v(3) c b more [OF u(4) v(5)] by auto
    next
      case False
      then have "n = l" "p' = p" using run by auto
      then show ?thesis using ok stop by force
    qed
  qed
qed

lemma sound_seq:
  assumes "sound U R F" and "\<And>l. sound U (Q l) (L l)"
    and "\<And>us vs l n j k. R us l j \<Longrightarrow> Q l vs n k \<Longrightarrow> S (us @ vs) n (j + k)"
  shows "sound U S (\<lambda>p. Option.bind (F p) (\<lambda>(l, p). L l p))"
  unfolding sound_def
proof (intro allI impI)
  fix p n p2 rest
  assume run: "Option.bind (F p) (\<lambda>(l, p). L l p) = Some (n, p2)" and ok: "p_err p2 = None" "pstream U p2 = Inr rest"
  then obtain l p1 where p1: "F p = Some (l, p1)" "L l p1 = Some (n, p2)" by (auto simp: bind_eq_Some_conv)
  from assms(2) p1(2) ok obtain vs k where v: "p_err p1 = None" "p_nodes p1 \<le> maxParseNodes \<longrightarrow> p_nodes p2 \<le> maxParseNodes"
    "pstream U p1 = Inr (vs @ rest)" "p_nodes p2 = p_nodes p1 + k" "Q l vs n k" by (rule soundD)
  from assms(1) p1(1) v(1,3) obtain us j where u: "p_err p = None" "p_nodes p \<le> maxParseNodes \<longrightarrow> p_nodes p1 \<le> maxParseNodes"
    "pstream U p = Inr (us @ vs @ rest)" "p_nodes p1 = p_nodes p + j" "R us l j" by (rule soundD)
  have "pstream U p = Inr ((us @ vs) @ rest)" "p_nodes p2 = p_nodes p + (j + k)" using u(3,4) v(4) by simp_all
  then show "p_err p = None \<and> (p_nodes p \<le> maxParseNodes \<longrightarrow> p_nodes p2 \<le> maxParseNodes) \<and>
        (\<exists>ts k. pstream U p = Inr (ts @ rest) \<and> p_nodes p2 = p_nodes p + k \<and> S ts n k)"
    using u(1,2) v(2) assms(3) [OF u(5) v(5)] by blast
qed

lemma parseOr_sound:
  assumes "sound U (\<lambda>ts n k. primary d ts n \<and> k = node_count n) F"
  shows "sound U (\<lambda>ts n k. or_expr d ts n \<and> k = node_count n) (parseOr U F f)"
proof -
  have and_loop: "sound U (\<lambda>ts n k. and_tail d l ts n \<and> k + node_count l = node_count n)
      (parse_loop U tokAnd AndNode F f l)" for l
    by (rule sound_loop [OF assms, where Q = "\<lambda>l ts n k. and_tail d l ts n \<and> k + node_count l = node_count n"])
      (auto intro: grammar_intros)
  have "sound U (\<lambda>ts n k. and_expr d ts n \<and> k = node_count n) (parseAnd U F f)"
    unfolding parseAnd_def [abs_def] by (rule sound_seq [OF assms and_loop]) (auto intro: grammar_intros)
  note and_sound = this
  have or_loop: "sound U (\<lambda>ts n k. or_tail d l ts n \<and> k + node_count l = node_count n)
      (parse_loop U tokOr OrNode (parseAnd U F f) f l)" for l
    by (rule sound_loop [OF and_sound, where Q = "\<lambda>l ts n k. or_tail d l ts n \<and> k + node_count l = node_count n"])
      (auto intro: grammar_intros)
  show ?thesis
    unfolding parseOr_def [abs_def] by (rule sound_seq [OF and_sound or_loop]) (auto intro: grammar_intros)
qed

lemma parsePrimary_sound: "sound U (\<lambda>ts n k. primary d ts n \<and> k = node_count n) (parsePrimary U f d)"
proof (induction f arbitrary: d)
  case 0
  show ?case by (simp add: sound_def)
next
  case (Suc f)
  show ?case
    unfolding sound_def
  proof (intro allI impI)
    fix p n p' rest
    assume run: "parsePrimary U (Suc f) d p = Some (n, p')" and ok: "p_err p' = None" "pstream U p' = Inr rest"
    have err: "p_err p = None" using run ok by (cases "p_err p = None") auto
    show "p_err p = None \<and> (p_nodes p \<le> maxParseNodes \<longrightarrow> p_nodes p' \<le> maxParseNodes) \<and>
        (\<exists>ts k. pstream U p = Inr (ts @ rest) \<and> p_nodes p' = p_nodes p + k \<and> primary d ts n \<and> k = node_count n)"
    proof (cases "p_current p")
      case (tokRef i)
      obtain b q where cn: "countNode p = (b, q)" by (cases "countNode p")
      note c = countNode_simps [OF cn]
      have b: "b" "n = RefNode i" "p' = advance U q" using run tokRef err cn c ok by (cases b; auto)+
      have "pstream U p = Inr ([tokRef i] @ rest)"
        using pstream_advance [of U q] ok b c tokRef pstream_countNode [of p q U] cn by simp
      then show ?thesis using err c b grammar_intros(7) [of d i] by (auto simp: advance_nodes)
    next
      case tokLParen
      then have d: "d < maxParseDepth" using run err ok by (auto split: if_splits)
      then obtain a q where q0: "parseOr U (parsePrimary U f (d + 1)) f (advance U p) = Some (a, q)"
        and br: "(if p_err q \<noteq> None then Some (NilNode, q)
           else if p_current q \<noteq> tokRParen then Some (NilNode, q\<lparr>p_err := Some ''expected )''\<rparr>)
           else Some (a, advance U q)) = Some (n, p')"
        using run err tokLParen by (auto simp: bind_eq_Some_conv not_less)
      have e: "p_err q = None" using br ok(1) by (cases "p_err q = None") auto
      have r: "p_current q = tokRParen" using br ok(1) e by (cases "p_current q = tokRParen") auto
      have q: "parseOr U (parsePrimary U f (d + 1)) f (advance U p) = Some (n, q)" "p' = advance U q"
        using br q0 e r by auto
      have sq: "pstream U q = Inr (tokRParen # rest)" using pstream_advance [of U q] q r ok by simp
      from parseOr_sound [OF Suc.IH] q(1) e sq obtain ts k where t: "p_err (advance U p) = None"
        "pstream U (advance U p) = Inr (ts @ tokRParen # rest)" "or_expr (d + 1) ts n \<and> k = node_count n"
        "p_nodes (advance U p) \<le> maxParseNodes \<longrightarrow> p_nodes q \<le> maxParseNodes" "p_nodes q = p_nodes (advance U p) + k"
        by (rule soundD)
      have "pstream U p = Inr ((tokLParen # ts @ [tokRParen]) @ rest)"
        using pstream_advance [OF t(1)] tokLParen t(2) by simp
      moreover have "primary d (tokLParen # ts @ [tokRParen]) n" using d t(3) by (auto intro: grammar_intros)
      ultimately show ?thesis using err t(3-5) q(2) by (auto simp: advance_nodes)
    qed (use run err ok in auto)
  qed
qed

subsection \<open>Completeness\<close>

definition follows :: "lexToken set \<Rightarrow> lexToken list \<Rightarrow> bool" where
  "follows T rest \<longleftrightarrow> (case rest of [] \<Rightarrow> True | t # _ \<Rightarrow> t \<notin> T)"

definition parses :: "unicode_tables \<Rightarrow> lexToken set \<Rightarrow> lexToken list \<Rightarrow> Node \<Rightarrow> nat \<Rightarrow>
    (parser \<Rightarrow> (Node \<times> parser) option) \<Rightarrow> bool" where
  "parses U T ts n k F \<longleftrightarrow>
     (\<forall>p rest m p'. pstream U p = Inr (ts @ rest) \<longrightarrow> p_err p = None \<longrightarrow> p_nodes p + k \<le> maxParseNodes \<longrightarrow>
        follows T rest \<longrightarrow> F p = Some (m, p') \<longrightarrow>
        m = n \<and> p_err p' = None \<and> pstream U p' = Inr rest \<and> p_nodes p' = p_nodes p + k)"

lemma parsesD:
  assumes "parses U T ts n k F" and "F p = Some (m, p')" and "pstream U p = Inr (ts @ rest)"
    and "p_err p = None" and "p_nodes p + k \<le> maxParseNodes" and "follows T rest"
  shows "m = n" and "p_err p' = None" and "pstream U p' = Inr rest" and "p_nodes p' = p_nodes p + k"
  using assms unfolding parses_def by blast+

lemma parses_seq:
  assumes "parses U T us l j G" and "parses U T' vs n k (L l)"
    and "\<And>rest. follows T' rest \<Longrightarrow> follows T (vs @ rest)"
  shows "parses U T' (us @ vs) n (j + k) (\<lambda>p. Option.bind (G p) (\<lambda>(l, p). L l p))"
  unfolding parses_def
proof (intro allI impI)
  fix p rest m p'
  assume p: "pstream U p = Inr ((us @ vs) @ rest)" "p_err p = None" "p_nodes p + (j + k) \<le> maxParseNodes"
    and rest: "follows T' rest" and run: "Option.bind (G p) (\<lambda>(l, p). L l p) = Some (m, p')"
  then obtain l1 p1 where p1: "G p = Some (l1, p1)" "L l1 p1 = Some (m, p')"
    by (auto simp: bind_eq_Some_conv)
  have g: "l1 = l" "p_err p1 = None" "pstream U p1 = Inr (vs @ rest)" "p_nodes p1 = p_nodes p + j"
    using parsesD [OF assms(1) p1(1), of "vs @ rest"] p assms(3) [OF rest] by auto
  show "m = n \<and> p_err p' = None \<and> pstream U p' = Inr rest \<and> p_nodes p' = p_nodes p + (j + k)"
    using parsesD [OF assms(2), of p1 m p' rest] p1(2) g p(3) rest by auto
qed

lemma parses_stop:
  assumes "t \<noteq> tokEOF" and "t \<in> T"
  shows "parses U T [] l 0 (parse_loop U t mk operand f l)"
  unfolding parses_def
proof (intro allI impI)
  fix p rest m p'
  assume p: "pstream U p = Inr ([] @ rest)" "p_err p = None" "follows T rest"
    and run: "parse_loop U t mk operand f l p = Some (m, p')"
  have "p_current p \<noteq> t" using pstream_head [OF p(1)] p(3) assms by (auto simp: follows_def split: list.splits)
  then show "m = l \<and> p_err p' = None \<and> pstream U p' = Inr rest \<and> p_nodes p' = p_nodes p + 0"
    using run p by (cases f) auto
qed

lemma parses_more:
  assumes "parses U T us r j operand" and "\<And>f. parses U T' vs n k (parse_loop U t mk operand f (mk l r))"
    and "\<And>rest. follows T' rest \<Longrightarrow> follows T (vs @ rest)" and "t \<noteq> tokEOF"
  shows "parses U T' (t # us @ vs) n (j + 1 + k) (parse_loop U t mk operand f l)"
  unfolding parses_def
proof (intro allI impI)
  fix p rest m p'
  assume p: "pstream U p = Inr ((t # us @ vs) @ rest)" "p_err p = None" "p_nodes p + (j + 1 + k) \<le> maxParseNodes"
    and rest: "follows T' rest" and run: "parse_loop U t mk operand f l p = Some (m, p')"
  from run obtain f' where f: "f = Suc f'" by (cases f) auto
  have a: "p_current p = t" "p_err (advance U p) = None" "pstream U (advance U p) = Inr (us @ vs @ rest)"
    "p_nodes (advance U p) = p_nodes p"
    using pstream_Cons [of U p t "us @ vs @ rest"] p by auto
  from run f a(1) p(2) obtain r1 p1 where p1: "operand (advance U p) = Some (r1, p1)"
    and run1: "(case countNode p1 of (False, p) \<Rightarrow> Some (NilNode, p)
      | (True, p) \<Rightarrow> parse_loop U t mk operand f' (mk l r1) p) = Some (m, p')"
    by (auto simp: bind_eq_Some_conv)
  have g: "r1 = r" "p_err p1 = None" "pstream U p1 = Inr (vs @ rest)" "p_nodes p1 = p_nodes p + j"
    using parsesD [OF assms(1) p1, of "vs @ rest"] a p(3) assms(3) [OF rest] by auto
  obtain b p2 where cn: "countNode p1 = (b, p2)" by (cases "countNode p1")
  note c = countNode_simps [OF cn]
  have b: b using c g p(3) by simp
  have "parse_loop U t mk operand f' (mk l r) p2 = Some (m, p')" "pstream U p2 = Inr (vs @ rest)"
    using run1 cn b g pstream_countNode [of p1 p2 U] by auto
  then show "m = n \<and> p_err p' = None \<and> pstream U p' = Inr rest \<and> p_nodes p' = p_nodes p + (j + 1 + k)"
    using parsesD [OF assms(2), of f' p2 m p' rest] c b g p(3) rest by auto
qed

lemma parses_ref: "parses U {} [tokRef i] (RefNode i) 1 (parsePrimary U f d)"
  unfolding parses_def
proof (intro allI impI)
  fix p rest m p'
  assume p: "pstream U p = Inr ([tokRef i] @ rest)" "p_err p = None" "p_nodes p + 1 \<le> maxParseNodes"
    and run: "parsePrimary U f d p = Some (m, p')"
  from run obtain f' where f: "f = Suc f'" by (cases f) auto
  obtain b q where cn: "countNode p = (b, q)" by (cases "countNode p")
  note c = countNode_simps [OF cn]
  have b: b using c p(3) by simp
  then have q: "p_err q = None" "pstream U q = Inr (tokRef i # rest)"
    using c p pstream_countNode [of p q U] cn by auto
  have cur: "p_current p = tokRef i" using p by (auto dest: pstream_Cons)
  then have "m = RefNode i" "p' = advance U q" using run f cn b p(2) by auto
  then show "m = RefNode i \<and> p_err p' = None \<and> pstream U p' = Inr rest \<and> p_nodes p' = p_nodes p + 1"
    using pstream_Cons [OF q(2,1)] c by simp
qed

lemma parses_paren:
  assumes "\<And>g f. parses U {tokAnd, tokOr} ts n k (parseOr U (parsePrimary U g (d + 1)) f)" and "d < maxParseDepth"
  shows "parses U {} (tokLParen # ts @ [tokRParen]) n k (parsePrimary U f d)"
  unfolding parses_def
proof (intro allI impI)
  fix p rest m p'
  assume p: "pstream U p = Inr ((tokLParen # ts @ [tokRParen]) @ rest)" "p_err p = None" "p_nodes p + k \<le> maxParseNodes"
    and run: "parsePrimary U f d p = Some (m, p')"
  from run obtain f' where f: "f = Suc f'" by (cases f) auto
  have a: "p_current p = tokLParen" "p_err (advance U p) = None" "pstream U (advance U p) = Inr (ts @ tokRParen # rest)"
    "p_nodes (advance U p) = p_nodes p"
    using pstream_Cons [of U p tokLParen "ts @ tokRParen # rest"] p by auto
  from run f a(1) p(2) assms(2) obtain r q where q: "parseOr U (parsePrimary U f' (d + 1)) f' (advance U p) = Some (r, q)"
    and run1: "(if p_err q \<noteq> None then Some (NilNode, q)
           else if p_current q \<noteq> tokRParen then Some (NilNode, q\<lparr>p_err := Some ''expected )''\<rparr>)
           else Some (r, advance U q)) = Some (m, p')"
    by (auto simp: bind_eq_Some_conv)
  have g: "r = n" "p_err q = None" "pstream U q = Inr (tokRParen # rest)" "p_nodes q = p_nodes p + k"
    using parsesD [OF assms(1) q, of "tokRParen # rest"] a p(3) by (auto simp: follows_def)
  then have "p_current q = tokRParen" by (auto dest: pstream_Cons)
  then have "m = n" "p' = advance U q" using run1 g by auto
  then show "m = n \<and> p_err p' = None \<and> pstream U p' = Inr rest \<and> p_nodes p' = p_nodes p + k"
    using pstream_Cons [OF g(3,2)] g(4) by simp
qed

lemma tail_head:
  "or_tail d l vs n \<Longrightarrow> follows {tokAnd, tokOr} rest \<Longrightarrow> follows {tokAnd} (vs @ rest)"
  "follows {} us"
proof -
  show "follows {tokAnd} (vs @ rest)" if "or_tail d l vs n" "follows {tokAnd, tokOr} rest"
    using that by cases (auto simp: follows_def split: list.splits)
  show "follows {} us" by (simp add: follows_def split: list.split)
qed

lemma parse_complete:
  "or_expr d ts n \<Longrightarrow>
     (\<forall>g f. parses U {tokAnd, tokOr} ts n (node_count n) (parseOr U (parsePrimary U g d) f))"
  "or_tail d l ts n \<Longrightarrow> (\<exists>k. node_count n = node_count l + k \<and>
     (\<forall>g h f. parses U {tokAnd, tokOr} ts n k (parse_loop U tokOr OrNode (parseAnd U (parsePrimary U g d) h) f l)))"
  "and_expr d ts n \<Longrightarrow>
     (\<forall>g f. parses U {tokAnd} ts n (node_count n) (parseAnd U (parsePrimary U g d) f))"
  "and_tail d l ts n \<Longrightarrow> (\<exists>k. node_count n = node_count l + k \<and>
     (\<forall>g f. parses U {tokAnd} ts n k (parse_loop U tokAnd AndNode (parsePrimary U g d) f l)))"
  "primary d ts n \<Longrightarrow> (\<forall>f. parses U {} ts n (node_count n) (parsePrimary U f d))"
proof (induction rule: or_expr_or_tail_and_expr_and_tail_primary.inducts)
  case (or_exprI d us l vs n)
  then obtain k where k: "node_count n = node_count l + k"
    "\<And>g h f. parses U {tokAnd, tokOr} vs n k (parse_loop U tokOr OrNode (parseAnd U (parsePrimary U g d) h) f l)" by blast
  have "parses U {tokAnd, tokOr} (us @ vs) n (node_count n) (parseOr U (parsePrimary U g d) f)" for g f
    unfolding k(1) parseOr_def [abs_def]
    by (rule parses_seq [where T = "{tokAnd}" and L = "parse_loop U tokOr OrNode (parseAnd U (parsePrimary U g d) f) f"])
      (use or_exprI.IH(1) k(2) tail_head(1) [OF or_exprI.hyps(2)] in blast)+
  then show ?case by blast
next
  case (or_end d l)
  have "parses U {tokAnd, tokOr} [] l 0 (parse_loop U tokOr OrNode F f l)" for F f by (rule parses_stop) simp_all
  then show ?case by (intro exI [of _ 0]) simp
next
  case (or_more d us r l vs n)
  then obtain k where k: "node_count n = node_count (OrNode l r) + k"
    "\<And>g h f. parses U {tokAnd, tokOr} vs n k (parse_loop U tokOr OrNode (parseAnd U (parsePrimary U g d) h) f (OrNode l r))"
    by blast
  have "parses U {tokAnd, tokOr} (tokOr # us @ vs) n (node_count r + 1 + k)
      (parse_loop U tokOr OrNode (parseAnd U (parsePrimary U g d) h) f l)" for g h f
    by (rule parses_more [where T = "{tokAnd}" and r = r])
      (use or_more.IH(1) k(2) tail_head(1) [OF or_more.hyps(2)] in \<open>simp_all\<close>)
  then show ?case using k(1) by (intro exI [of _ "node_count r + 1 + k"]) simp
next
  case (and_exprI d us l vs n)
  then obtain k where k: "node_count n = node_count l + k"
    "\<And>g f. parses U {tokAnd} vs n k (parse_loop U tokAnd AndNode (parsePrimary U g d) f l)" by blast
  have "parses U {tokAnd} (us @ vs) n (node_count n) (parseAnd U (parsePrimary U g d) f)" for g f
    unfolding k(1) parseAnd_def [abs_def]
    by (rule parses_seq [where T = "{}" and L = "parse_loop U tokAnd AndNode (parsePrimary U g d) f"])
      (use and_exprI.IH(1) k(2) tail_head(2) in blast)+
  then show ?case by blast
next
  case (and_end d l)
  have "parses U {tokAnd} [] l 0 (parse_loop U tokAnd AndNode F f l)" for F f by (rule parses_stop) simp_all
  then show ?case by (intro exI [of _ 0]) simp
next
  case (and_more d us r l vs n)
  then obtain k where k: "node_count n = node_count (AndNode l r) + k"
    "\<And>g f. parses U {tokAnd} vs n k (parse_loop U tokAnd AndNode (parsePrimary U g d) f (AndNode l r))" by blast
  have "parses U {tokAnd} (tokAnd # us @ vs) n (node_count r + 1 + k)
      (parse_loop U tokAnd AndNode (parsePrimary U g d) f l)" for g f
    by (rule parses_more [where T = "{}" and r = r])
      (use and_more.IH(1) k(2) tail_head(2) in \<open>simp_all\<close>)
  then show ?case using k(1) by (intro exI [of _ "node_count r + 1 + k"]) simp
next
  case (ref d i)
  show ?case using parses_ref by simp
next
  case (paren d ts n)
  then have "parses U {tokAnd, tokOr} ts n (node_count n) (parseOr U (parsePrimary U g (d + 1)) f)" for g f by simp
  then show ?case using parses_paren paren.hyps(1) by blast
qed

section \<open>Correctness of the parser\<close>

abbreviation start :: "rune list \<Rightarrow> parser" where
  "start l \<equiv> \<lparr>p_lex = l, p_current = tokEOF, p_err = None, p_nodes = 0\<rparr>"

lemma pstream_start:
  "(case p_err (advance U (start l)) of
      None \<Rightarrow> pstream U (advance U (start l)) = lex_all U l
    | Some e \<Rightarrow> lex_all U l = Inl e)"
proof -
  obtain r l' where lx: "lexer_next U l = (r, l')" by (cases "lexer_next U l")
  then show ?thesis by (cases r) (auto simp: advance_def pstream_def lex_all.simps [of U l])
qed

lemma parser_size_start: "parser_size (advance U (start l)) < parse_fuel l"
proof -
  obtain r l' where lx: "lexer_next U l = (r, l')" by (cases "lexer_next U l")
  show ?thesis
    using lexer_next_length(1) [OF lx] lx by (cases r) (auto simp: advance_def parser_size_def parse_fuel_def)
qed

lemma parse_start_returns:
  obtains n p' where
    "parseOr U (parsePrimary U (parse_fuel l + k) d) (parse_fuel l + k) (advance U (start l)) = Some (n, p')"
proof -
  have "parser_size (advance U (start l)) < parse_fuel l + k" using parser_size_start [of U l] by simp
  with parseOr_fuelled [OF parsePrimary_fuelled] show thesis by (rule fuelledD) (rule that)
qed

text \<open>
  C32: The parser of policies terminates: for every input, every initial nesting depth and every
  classification of runes, the recursive descent with the fuel \<open>Parse\<close> gives it, or any larger
  amount, comes to an end with a tree or a latched error.
\<close>

theorem Parse_terminates:
  "\<exists>n p'. parseOr U (parsePrimary U (parse_fuel (runes_of input) + k) d) (parse_fuel (runes_of input) + k)
     (advance U (start (runes_of input))) = Some (n, p')"
  by (rule parse_start_returns [where l = "runes_of input"]) blast

lemma Parse_iff:
  "Parse U input = Inr n \<longleftrightarrow>
     length input \<le> maxPolicyLen \<and>
     (\<exists>ts. lex_all U (runes_of input) = Inr ts \<and> or_expr 0 ts n) \<and> node_count n \<le> maxParseNodes"
proof -
  define l where "l = runes_of input"
  define p where "p = advance U (start l)"
  obtain m p' where run: "parseOr U (parsePrimary U (parse_fuel l) 0) (parse_fuel l) p = Some (m, p')"
    using parse_start_returns [of U l 0 0] by (auto simp: p_def)
  have val: "Parse U input = Inr n \<longleftrightarrow> length input \<le> maxPolicyLen \<and> p_err p = None \<and> p_err p' = None \<and>
      p_current p' = tokEOF \<and> m = n"
    using run by (auto simp: Parse_def Let_def l_def [symmetric] p_def [symmetric] split: option.splits)
  have nodes: "p_nodes p = 0" by (simp add: p_def advance_nodes)
  show ?thesis
  proof
    assume "Parse U input = Inr n"
    then have ok: "length input \<le> maxPolicyLen" "p_err p = None" "p_err p' = None" "p_current p' = tokEOF" "m = n"
      by (auto simp: val)
    have "pstream U p' = Inr []" using ok(4) by (simp add: pstream_def)
    with parseOr_sound [OF parsePrimary_sound] run ok(3)
    obtain ts k where "pstream U p = Inr (ts @ [])" "or_expr 0 ts m \<and> k = node_count m" "p_nodes p' = p_nodes p + k"
      "p_nodes p \<le> maxParseNodes \<longrightarrow> p_nodes p' \<le> maxParseNodes" by (rule soundD)
    moreover have "lex_all U l = pstream U p" using ok(2) pstream_start [of U l] by (simp add: p_def)
    ultimately show "length input \<le> maxPolicyLen \<and> (\<exists>ts. lex_all U (runes_of input) = Inr ts \<and> or_expr 0 ts n)
        \<and> node_count n \<le> maxParseNodes"
      using ok nodes by (auto simp: l_def)
  next
    assume *: "length input \<le> maxPolicyLen \<and> (\<exists>ts. lex_all U (runes_of input) = Inr ts \<and> or_expr 0 ts n)
        \<and> node_count n \<le> maxParseNodes"
    then obtain ts where ts: "lex_all U l = Inr ts" "or_expr 0 ts n" by (auto simp: l_def)
    have p: "p_err p = None" "pstream U p = Inr (ts @ [])"
      using pstream_start [of U l] ts(1) by (auto simp: p_def split: option.splits)
    have "parses U {tokAnd, tokOr} ts n (node_count n) (parseOr U (parsePrimary U (parse_fuel l) 0) (parse_fuel l))"
      using parse_complete(1) [OF ts(2)] by blast
    from parsesD [OF this run p(2,1)]
    have "m = n" "p_err p' = None" "pstream U p' = Inr []" using * nodes by (simp_all add: follows_def)
    then show "Parse U input = Inr n" using * p(1) pstream_head [of U p' "[]"] by (simp add: val)
  qed
qed

text \<open>
  C9: The parser implements the documented grammar. It returns a tree exactly when the input has at
  most 4096 bytes, all of it splits into tokens, these tokens derive that tree as an \<open>or_expr\<close> with
  at most 64 nested parentheses (AND binds tighter than OR, both associate to the left), and the tree
  has at most 1024 nodes.
\<close>

theorem Parse_grammar:
  "Parse U input = Inr n \<longleftrightarrow>
     length input \<le> maxPolicyLen \<and>
     (\<exists>ts. lex_all U (runes_of input) = Inr ts \<and> or_expr 0 ts n) \<and> node_count n \<le> maxParseNodes"
  by (rule Parse_iff)

section \<open>Printing and parsing\<close>

fun node_tokens :: "Node \<Rightarrow> lexToken list" where
  "node_tokens NilNode = []"
| "node_tokens (RefNode i) = [tokRef i]"
| "node_tokens (AndNode l r) = tokLParen # node_tokens l @ tokAnd # node_tokens r @ [tokRParen]"
| "node_tokens (OrNode l r) = tokLParen # node_tokens l @ tokOr # node_tokens r @ [tokRParen]"

fun node_depth :: "Node \<Rightarrow> nat" where
  "node_depth (AndNode l r) = Suc (max (node_depth l) (node_depth r))"
| "node_depth (OrNode l r) = Suc (max (node_depth l) (node_depth r))"
| "node_depth _ = 0"

fun proper_node :: "Node \<Rightarrow> bool" where
  "proper_node NilNode = False"
| "proper_node (RefNode i) = (0 \<le> i \<and> i < 2 ^ 63)"
| "proper_node (AndNode l r) = (proper_node l \<and> proper_node r)"
| "proper_node (OrNode l r) = (proper_node l \<and> proper_node r)"

lemma primary_tail: "primary d us l \<Longrightarrow> and_tail d l vs n \<Longrightarrow> or_expr d (us @ vs) n"
  using grammar_intros(1) [of d "us @ vs" n "[]" n] by (auto intro: grammar_intros)

lemma primary_or: "primary d us l \<Longrightarrow> primary d vs r \<Longrightarrow> or_expr d (us @ tokOr # vs) (OrNode l r)"
proof -
  assume "primary d us l" and "primary d vs r"
  then have "and_expr d us l" "and_expr d vs r"
    using grammar_intros(4) [of d us l "[]" l] grammar_intros(4) [of d vs r "[]" r] by (auto intro: grammar_intros)
  then show ?thesis
    using grammar_intros(1) [of d us l "tokOr # vs" "OrNode l r"] grammar_intros(3) [of d vs r l "[]" "OrNode l r"]
    by (auto intro: grammar_intros)
qed

lemma primary_node_tokens: "proper_node n \<Longrightarrow> d + node_depth n \<le> maxParseDepth \<Longrightarrow> primary d (node_tokens n) n"
proof (induction n arbitrary: d)
  case (AndNode l r)
  then have "primary (Suc d) (node_tokens l) l" "primary (Suc d) (node_tokens r) r" by auto
  then have "or_expr (Suc d) (node_tokens l @ tokAnd # node_tokens r) (AndNode l r)"
    using grammar_intros(6) [of "Suc d" "node_tokens r" r l "[]" "AndNode l r"]
    by (auto intro: primary_tail grammar_intros)
  then show ?case
    using grammar_intros(8) [of d "node_tokens l @ tokAnd # node_tokens r"] AndNode.prems by simp
next
  case (OrNode l r)
  then have "primary (Suc d) (node_tokens l) l" "primary (Suc d) (node_tokens r) r" by auto
  then show ?case
    using grammar_intros(8) [of d "node_tokens l @ tokOr # node_tokens r"] OrNode.prems by (simp add: primary_or)
qed (auto intro: grammar_intros)

subsection \<open>Lexing what is printed\<close>

abbreviation ascii :: "string \<Rightarrow> bool" where
  "ascii s \<equiv> list_all (\<lambda>c. (of_char c :: nat) < 0x80) s"

lemma runes_of_ascii: "ascii s \<Longrightarrow> runes_of s = map of_char s"
  by (induction s) (auto simp: runes_of_def)

lemma rune_string_ascii: "ascii s \<Longrightarrow> rune_string (map of_char s) = s"
  by (induction s) (auto simp: rune_string_def encode_rune_def)

lemma digit_char_rune: "d < 10 \<Longrightarrow> (of_char (digit_char d) :: nat) = 48 + d"
proof -
  assume "d < 10"
  then have "d \<in> {0, 1, 2, 3, 4, 5, 6, 7, 8, 9}" by auto
  then show ?thesis by (auto simp: digit_char_def)
qed

lemma nat_text_digits:
  "(\<forall>c \<in> set (nat_text 10 n). 48 \<le> (of_char c :: nat) \<and> (of_char c :: nat) \<le> 57) \<and> nat_text 10 n \<noteq> []
   \<and> list_all is_digit (nat_text 10 n) \<and> decimal_value (nat_text 10 n) = int n"
proof (induction n rule: less_induct)
  case (less n)
  have digit: "is_digit (digit_char d)" "digit_val (digit_char d) = d" if "d < 10" for d
    using that digit_char_facts [of d] by (auto simp: is_digit_def)
  show ?case
  proof (cases "n < 10")
    case True
    then show ?thesis using digit digit_char_rune by (simp add: nat_text.simps [of 10 n] decimal_value_def)
  next
    case False
    then have IH: "(\<forall>c \<in> set (nat_text 10 (n div 10)). 48 \<le> (of_char c :: nat) \<and> (of_char c :: nat) \<le> 57)"
      "list_all is_digit (nat_text 10 (n div 10))" "decimal_value (nat_text 10 (n div 10)) = int (n div 10)"
      using less.IH [of "n div 10"] by auto
    have "10 * int (n div 10) + int (n mod 10) = int n" by presburger
    then show ?thesis
      using False IH digit [of "n mod 10"] digit_char_rune [of "n mod 10"]
      by (auto simp: nat_text.simps [of 10 n] decimal_value_def)
  qed
qed

lemma int_text_digits:
  assumes "0 \<le> i"
  shows "\<forall>c \<in> set (int_text 10 i). 48 \<le> (of_char c :: nat) \<and> (of_char c :: nat) \<le> 57" and "int_text 10 i \<noteq> []"
    and "i < 2 ^ 63 \<Longrightarrow> Atoi (int_text 10 i) = Some i"
proof -
  note d = nat_text_digits [of "nat i"]
  have it: "int_text 10 i = nat_text 10 (nat i)" using assms by (simp add: int_text_def)
  show "\<forall>c \<in> set (int_text 10 i). 48 \<le> (of_char c :: nat) \<and> (of_char c :: nat) \<le> 57" "int_text 10 i \<noteq> []"
    using d it by auto
  obtain c cs where c: "int_text 10 i = c # cs" using \<open>int_text 10 i \<noteq> []\<close> by (auto simp: neq_Nil_conv)
  have "48 \<le> (of_char c :: nat)"
    using \<open>\<forall>c \<in> set (int_text 10 i). 48 \<le> (of_char c :: nat) \<and> (of_char c :: nat) \<le> 57\<close> c by simp
  then have "c \<noteq> CHR ''-''" "c \<noteq> CHR ''+''" by auto
  moreover have "list_all is_digit (c # cs)" "decimal_value (c # cs) = i"
    using d assms unfolding it [symmetric] c by auto
  ultimately show "i < 2 ^ 63 \<Longrightarrow> Atoi (int_text 10 i) = Some i"
    using assms unfolding c Atoi_def Let_def by simp
qed

lemma lex_all_cong: "lexer_next U l = lexer_next U l' \<Longrightarrow> lex_all U l = lex_all U l'"
  by (simp add: lex_all.simps [of U l] lex_all.simps [of U l'])

lemma lex_all_punct:
  "lex_all U (40 # rs) = bind_sum (lex_all U rs) (\<lambda>ts. Inr (tokLParen # ts))"
  "lex_all U (41 # rs) = bind_sum (lex_all U rs) (\<lambda>ts. Inr (tokRParen # ts))"
  "lex_all U (32 # rs) = lex_all U rs"
  by (simp_all add: lex_all.simps [of U "40 # rs"] lex_all.simps [of U "41 # rs"] lexer_next_def skipSpace_def IsSpace_def
      lex_all_cong [of U "32 # rs" rs])

lemma lex_all_keyword:
  "lex_all U (65 # 78 # 68 # 32 # rs) = bind_sum (lex_all U rs) (\<lambda>ts. Inr (tokAnd # ts))"
  "lex_all U (79 # 82 # 32 # rs) = bind_sum (lex_all U rs) (\<lambda>ts. Inr (tokOr # ts))"
  by (simp_all add: lex_all.simps [of U "65 # 78 # 68 # 32 # rs"] lex_all.simps [of U "79 # 82 # 32 # rs"]
      lexer_next_def skipSpace_def IsSpace_def IsLetter_def ToUpper_def runes_of_def lex_all_punct(3))

lemma lex_all_ref:
  assumes "0 \<le> i" and "i < 2 ^ 63" and "rs = [] \<or> hd rs = 32 \<or> hd rs = 41"
  shows "lex_all U (36 # map of_char (int_text 10 i) @ rs) = bind_sum (lex_all U rs) (\<lambda>ts. Inr (tokRef i # ts))"
proof -
  note d = int_text_digits [OF assms(1)]
  have digits: "\<forall>r \<in> set (map of_char (int_text 10 i)). IsDigit U r" using d(1) by (auto simp: IsDigit_def)
  have "\<not> IsDigit U 32" "\<not> IsDigit U 41" by (simp_all add: IsDigit_def)
  then have stop: "takeWhile (IsDigit U) rs = []" "dropWhile (IsDigit U) rs = rs" using assms(3) by (cases rs; auto)+
  have span: "takeWhile (IsDigit U) (map of_char (int_text 10 i) @ rs) = map of_char (int_text 10 i)"
    "dropWhile (IsDigit U) (map of_char (int_text 10 i) @ rs) = rs"
    using digits stop takeWhile_append2 [of "map of_char (int_text 10 i)" "IsDigit U" rs]
      dropWhile_append2 [of "map of_char (int_text 10 i)" "IsDigit U" rs] by auto
  have "rune_string (map of_char (int_text 10 i)) = int_text 10 i"
    using d(1) by (intro rune_string_ascii) (auto simp: list_all_iff)
  then have "lexer_next U (36 # map of_char (int_text 10 i) @ rs) = (Inr (tokRef i), rs)"
    using span d(2) d(3) [OF assms(2)] by (simp add: lexer_next_def skipSpace_def IsSpace_def)
  then show ?thesis by (simp add: lex_all.simps [of U "36 # map of_char (int_text 10 i) @ rs"])
qed

lemma lex_all_String:
  "proper_node n \<Longrightarrow> rs = [] \<or> hd rs = 32 \<or> hd rs = 41 \<Longrightarrow>
   lex_all U (map of_char (Node_String n) @ rs) = bind_sum (lex_all U rs) (\<lambda>ts. Inr (node_tokens n @ ts))"
proof (induction n arbitrary: rs)
  case (RefNode i)
  then show ?case using lex_all_ref [of i rs U] by simp
next
  case (AndNode l r)
  then show ?case by (simp add: lex_all_punct lex_all_keyword bind_sum_assoc)
next
  case (OrNode l r)
  then show ?case by (simp add: lex_all_punct lex_all_keyword bind_sum_assoc)
qed simp

lemma Node_String_ascii: "proper_node n \<Longrightarrow> ascii (Node_String n)"
proof (induction n)
  case (RefNode i)
  then show ?case using int_text_digits(1) [of i] by (auto simp: list_all_iff)
qed auto



end
