(* ===== verification/Composite_Identity.thy ===== *)
theory Composite_Identity
  imports Htlc Asn1 Bool_Policy
begin

text \<open>
  Identities made of other identities: multi-signature identities
  (\<open>src/token/services/identity/multisig\<close>) and policy identities
  (\<open>src/token/services/identity/boolpolicy\<close>), with their encodings, their signatures and verifiers,
  and the deserializers that turn an identity into a verifier or a matcher of audit information.

  The parent deserializer of the components, the provider of stored audit information, the JSON codec
  of audit information and \<open>UniqueID\<close> and \<open>IsNone\<close> of the platform's identities are parameters. A call
  through a \<open>nil\<close> interface panics and is \<open>NilPointer\<close>, which every caller passes on.

  The lemmas show that a multi-signature is accepted exactly when every component accepts its
  signature, and a policy signature exactly when the policy evaluates to true over the components
  that accept, whatever the cache of results contributes; that a wrapped identity unwraps; and
  that validation accepts exactly short lists of distinct components.
\<close>

section \<open>Parameters\<close>

type_synonym matcher = "nesting_ctx \<Rightarrow> bytes \<Rightarrow> go_error + unit"
type_synonym audit_provider = "nesting_ctx \<Rightarrow> identity \<Rightarrow> go_error + bytes"

record comp_env =
  ce_htlc :: htlc_env
  ce_unicode :: unicode_tables
  ce_asn1_other :: "byte \<Rightarrow> bytes \<Rightarrow> string option"
  ce_UniqueID :: "identity \<Rightarrow> string"
  ce_json_AuditInfo :: "bytes \<Rightarrow> bytes list option"
  ce_json_AuditInfo_Marshal :: "bytes list \<Rightarrow> bytes option"

definition raw_identity :: "identity \<Rightarrow> bytes" where
  "raw_identity i = (case i of None \<Rightarrow> [] | Some b \<Rightarrow> b)"

section \<open>Components\<close>

text \<open>The two packages have the same function; the seen identifiers are kept in a list.\<close>

definition validate_component ::
    "comp_env \<Rightarrow> identity \<Rightarrow> string list \<Rightarrow> go_error + string list" where
  "validate_component E i seen =
     (if id_IsNone (ce_htlc E) i then Inl (Errorf ''component identity must not be empty'')
      else if ce_UniqueID E i \<in> set seen
      then Inl (Errorf ''component identity is a duplicate of an earlier identity'')
      else Inr (ce_UniqueID E i # seen))"

definition validateComponentIdentities :: "comp_env \<Rightarrow> identity list \<Rightarrow> int \<Rightarrow> go_error + unit" where
  "validateComponentIdentities E ids limit =
     (if int (length ids) > limit then Inl (TooManyIdentityComponents (length ids) limit)
      else bind_sum (fold_sum (validate_component E) ids []) (\<lambda>_. Inr ()))"

section \<open>Multi-signature identities\<close>

definition Multisig :: identity_type where "Multisig = MultiSigIdentityType"

record MultiIdentity =
  mi_Identities :: "identity list"

definition MultiIdentity_Serialize :: "MultiIdentity \<Rightarrow> bytes" where
  "MultiIdentity_Serialize m = slices_Marshal (map raw_identity (mi_Identities m))"

definition MultiIdentity_Deserialize :: "bytes \<Rightarrow> m_error + MultiIdentity" where
  "MultiIdentity_Deserialize raw =
     bind_sum (UnmarshalCanonicalDER slices_Unmarshal slices_Marshal True raw) (\<lambda>vs.
       Inr \<lparr>mi_Identities = map Some vs\<rparr>)"

definition WrapIdentities :: "comp_env \<Rightarrow> identity list \<Rightarrow> go_error + bytes" where
  "WrapIdentities E ids =
     (if length ids = 0 then Inl (Errorf ''no identities provided'')
      else bind_sum (validateComponentIdentities E ids (MaxIdentityComponents DefaultResourceLimits)) (\<lambda>_.
        Inr (TypedIdentity_Bytes
          \<lparr>Ti_Type = Multisig, Ti_Identity = MultiIdentity_Serialize \<lparr>mi_Identities = ids\<rparr>\<rparr>)))"

definition multisig_Unwrap :: "bytes \<Rightarrow> go_error + identity list \<times> bool" where
  "multisig_Unwrap raw =
     bind_sum (wrap_err Decode (UnmarshalTypedIdentity raw)) (\<lambda>ti.
       if Ti_Type ti \<noteq> Multisig then Inr ([], False)
       else bind_sum (wrap_err (\<lambda>_. Errorf ''failed unmarshalling multi identity'')
           (MultiIdentity_Deserialize (Ti_Identity ti))) (\<lambda>mi. Inr (mi_Identities mi, True)))"

text \<open>Calling \<open>Match\<close> on a matcher that may be \<open>nil\<close>; the caller wraps an error, a panic it does not see.\<close>

definition call_matcher :: "matcher option \<Rightarrow> nesting_ctx \<Rightarrow> bytes \<Rightarrow> go_error + unit" where
  "call_matcher m ctx raw = (case m of None \<Rightarrow> Inl NilPointer | Some f \<Rightarrow> f ctx raw)"

definition member_match :: "nesting_ctx \<Rightarrow> matcher option \<times> identity \<Rightarrow> go_error + unit" where
  "member_match ctx m = (case m of (f, i) \<Rightarrow> call_matcher f ctx (raw_identity i))"

definition multisig_Match :: "matcher option list \<Rightarrow> matcher" where
  "multisig_Match matchers ctx raw =
     bind_sum (wrap_err TooDeep (EnterCompositeIdentity ctx)) (\<lambda>ctx.
     bind_sum (wrap_err (\<lambda>_. Errorf ''asn1'') (MultiIdentity_Deserialize raw)) (\<lambda>mid.
       if length matchers \<noteq> length (mi_Identities mid) then Inl (Errorf ''unexpected number of identities'')
       else fold_sum (\<lambda>m _. member_match ctx m) (zip matchers (mi_Identities mid)) ()))"

text \<open>Audit information: the list of the components' audit information.\<close>

definition multisig_WrapAuditInfo :: "comp_env \<Rightarrow> bytes list \<Rightarrow> go_error + bytes" where
  "multisig_WrapAuditInfo E recipients =
     (if length recipients = 0 then Inl (Errorf ''no recipients provided'')
      else case ce_json_AuditInfo_Marshal E recipients of
        None \<Rightarrow> Inl (Errorf ''json'') | Some raw \<Rightarrow> Inr raw)"

definition multisig_UnwrapAuditInfo :: "comp_env \<Rightarrow> bytes \<Rightarrow> go_error + bool \<times> bytes list" where
  "multisig_UnwrapAuditInfo E info =
     (case ce_json_AuditInfo E info of None \<Rightarrow> Inl (Errorf ''json'') | Some rs \<Rightarrow> Inr (True, rs))"

section \<open>Multi-signatures\<close>

record MultiSignature =
  ms_Signatures :: "bytes list"

definition MultiSignature_Bytes :: "MultiSignature \<Rightarrow> bytes" where
  "MultiSignature_Bytes m = slices_Marshal (ms_Signatures m)"

definition MultiSignature_FromBytes :: "bytes \<Rightarrow> m_error + MultiSignature" where
  "MultiSignature_FromBytes raw =
     bind_sum (UnmarshalCanonicalDER slices_Unmarshal slices_Marshal True raw) (\<lambda>vs.
       Inr \<lparr>ms_Signatures = vs\<rparr>)"

definition multisig_JoinSignatures ::
    "comp_env \<Rightarrow> identity list \<Rightarrow> (string \<rightharpoonup> bytes) \<Rightarrow> go_error + bytes" where
  "multisig_JoinSignatures E identities sigmas =
     bind_sum (map_sum_list (\<lambda>i.
         case sigmas (ce_UniqueID E i) of
           None \<Rightarrow> Inl (Errorf ''signature for identity is missing'')
         | Some sigma \<Rightarrow> Inr sigma) identities) (\<lambda>signatures.
       Inr (MultiSignature_Bytes \<lparr>ms_Signatures = signatures\<rparr>))"

definition member_verify :: "bytes \<Rightarrow> go_error verifier option \<times> bytes \<Rightarrow> go_error + unit" where
  "member_verify msg m =
     (case m of (ver, sigma) \<Rightarrow>
        case call_verifier ver msg sigma of
          Inl NilPointer \<Rightarrow> Inl NilPointer
        | Inl _ \<Rightarrow> Inl (Errorf ''invalid multisig: signature does not verify'')
        | Inr _ \<Rightarrow> Inr ())"

definition multisig_Verify :: "go_error verifier option list \<Rightarrow> bytes \<Rightarrow> bytes \<Rightarrow> go_error + unit" where
  "multisig_Verify verifiers msg raw =
     (if length verifiers = 0 then Inl (Errorf ''multisig verifier has no members'')
      else bind_sum (wrap_err (\<lambda>_. Errorf ''failed to unmarshal multisig'') (MultiSignature_FromBytes raw)) (\<lambda>sig.
        if length verifiers \<noteq> length (ms_Signatures sig)
        then Inl (Errorf ''invalid multisig: unexpected number of signatures'')
        else fold_sum (\<lambda>m _. member_verify msg m) (zip verifiers (ms_Signatures sig)) ()))"

section \<open>Policy identities\<close>

definition Policy :: identity_type where "Policy = PolicyIdentityType"

record PolicyIdentity =
  pi_Policy :: string
  pi_Identities :: "identity list"

definition PolicyIdentity_Serialize :: "PolicyIdentity \<Rightarrow> bytes" where
  "PolicyIdentity_Serialize p = named_slices_Marshal (pi_Policy p, map raw_identity (pi_Identities p))"

definition PolicyIdentity_Deserialize :: "comp_env \<Rightarrow> bytes \<Rightarrow> m_error + PolicyIdentity" where
  "PolicyIdentity_Deserialize E raw =
     bind_sum (UnmarshalCanonicalDER (named_slices_Unmarshal (ce_asn1_other E)) named_slices_Marshal True raw)
       (\<lambda>(policy, vs). Inr \<lparr>pi_Policy = policy, pi_Identities = map Some vs\<rparr>)"

definition policy_validateComponentIdentities :: "comp_env \<Rightarrow> identity list \<Rightarrow> int \<Rightarrow> go_error + unit" where
  "policy_validateComponentIdentities E ids limit =
     (if int (length ids) > limit then Inl (TooManyIdentityComponents (length ids) limit)
      else bind_sum (fold_sum (validate_component E) ids []) (\<lambda>_. Inr ()))"

definition WrapPolicyIdentity :: "comp_env \<Rightarrow> string \<Rightarrow> identity list \<Rightarrow> go_error + bytes" where
  "WrapPolicyIdentity E policy ids =
     (if length ids = 0 then Inl (Errorf ''policy identity requires at least one component identity'')
      else if policy = [] then Inl (Errorf ''policy expression must not be empty'')
      else bind_sum (policy_validateComponentIdentities E ids (MaxIdentityComponents DefaultResourceLimits)) (\<lambda>_.
        Inr (TypedIdentity_Bytes \<lparr>Ti_Type = Policy,
          Ti_Identity = PolicyIdentity_Serialize \<lparr>pi_Policy = policy, pi_Identities = ids\<rparr>\<rparr>)))"

definition policy_Unwrap :: "comp_env \<Rightarrow> bytes \<Rightarrow> go_error + PolicyIdentity option \<times> bool" where
  "policy_Unwrap E raw =
     bind_sum (wrap_err Decode (UnmarshalTypedIdentity raw)) (\<lambda>ti.
       if Ti_Type ti \<noteq> Policy then Inr (None, False)
       else bind_sum (wrap_err (\<lambda>_. Errorf ''failed deserialising policy identity body'')
           (PolicyIdentity_Deserialize E (Ti_Identity ti))) (\<lambda>p. Inr (Some p, True)))"

definition policy_Match :: "comp_env \<Rightarrow> matcher option list \<Rightarrow> matcher" where
  "policy_Match E matchers ctx raw =
     bind_sum (wrap_err TooDeep (EnterCompositeIdentity ctx)) (\<lambda>ctx.
     bind_sum (wrap_err (\<lambda>_. Errorf ''asn1'') (PolicyIdentity_Deserialize E raw)) (\<lambda>p.
       if length matchers \<noteq> length (pi_Identities p) then Inl (Errorf ''policy identity mismatch'')
       else fold_sum (\<lambda>m _. member_match ctx m) (zip matchers (pi_Identities p)) ()))"

definition policy_WrapAuditInfo :: "comp_env \<Rightarrow> bytes list \<Rightarrow> go_error + bytes" where
  "policy_WrapAuditInfo E recipients =
     (if length recipients = 0 then Inl (Errorf ''no recipients provided'')
      else case ce_json_AuditInfo_Marshal E recipients of
        None \<Rightarrow> Inl (Errorf ''json'') | Some raw \<Rightarrow> Inr raw)"

definition policy_UnwrapAuditInfo :: "comp_env \<Rightarrow> bytes \<Rightarrow> go_error + bool \<times> bytes list" where
  "policy_UnwrapAuditInfo E info =
     (case ce_json_AuditInfo E info of None \<Rightarrow> Inl (Errorf ''json'') | Some rs \<Rightarrow> Inr (True, rs))"

section \<open>Policy signatures\<close>

record PolicySignature =
  ps_Signatures :: "bytes list"

definition PolicySignature_Bytes :: "PolicySignature \<Rightarrow> bytes" where
  "PolicySignature_Bytes s = slices_Marshal (ps_Signatures s)"

definition PolicySignature_FromBytes :: "bytes \<Rightarrow> m_error + PolicySignature" where
  "PolicySignature_FromBytes raw =
     bind_sum (UnmarshalCanonicalDER slices_Unmarshal slices_Marshal True raw) (\<lambda>vs.
       Inr \<lparr>ps_Signatures = vs\<rparr>)"

definition policy_JoinSignatures :: "comp_env \<Rightarrow> identity list \<Rightarrow> (string \<rightharpoonup> bytes) \<Rightarrow> bytes" where
  "policy_JoinSignatures E identities sigmas =
     PolicySignature_Bytes \<lparr>ps_Signatures =
       map (\<lambda>i. case sigmas (ce_UniqueID E i) of Some sig \<Rightarrow> sig | None \<Rightarrow> []) identities\<rparr>"

record PolicyVerifier =
  pv_Policy :: Node
  pv_Verifiers :: "go_error verifier option list"

datatype refResult = refUnknown | refPass | refFail

definition evalRef ::
    "PolicyVerifier \<Rightarrow> int \<Rightarrow> bytes \<Rightarrow> bytes list \<Rightarrow> refResult list \<Rightarrow> go_error + bool \<times> refResult list" where
  "evalRef v i msg sigs memo =
     (if i < 0 \<or> int (length sigs) \<le> i \<or> int (length memo) \<le> i \<or> int (length (pv_Verifiers v)) \<le> i
      then Inr (False, memo)
      else if sigs ! nat i = [] \<or> pv_Verifiers v ! nat i = None then Inr (False, memo)
      else if memo ! nat i \<noteq> refUnknown then Inr (memo ! nat i = refPass, memo)
      else case call_verifier (pv_Verifiers v ! nat i) msg (sigs ! nat i) of
        Inl NilPointer \<Rightarrow> Inl NilPointer
      | Inl _ \<Rightarrow> Inr (False, memo[nat i := refFail])
      | Inr _ \<Rightarrow> Inr (True, memo[nat i := refPass]))"

fun evalNode ::
    "PolicyVerifier \<Rightarrow> Node \<Rightarrow> bytes \<Rightarrow> bytes list \<Rightarrow> refResult list \<Rightarrow> go_error + bool \<times> refResult list" where
  "evalNode v (RefNode i) msg sigs memo = evalRef v i msg sigs memo"
| "evalNode v (AndNode l r) msg sigs memo =
     bind_sum (evalNode v l msg sigs memo) (\<lambda>(b, memo).
       if b then evalNode v r msg sigs memo else Inr (False, memo))"
| "evalNode v (OrNode l r) msg sigs memo =
     bind_sum (evalNode v l msg sigs memo) (\<lambda>(b, memo).
       if b then Inr (True, memo) else evalNode v r msg sigs memo)"
| "evalNode v NilNode msg sigs memo = Inr (False, memo)"

definition PolicyVerifier_Verify :: "PolicyVerifier \<Rightarrow> bytes \<Rightarrow> bytes \<Rightarrow> go_error + unit" where
  "PolicyVerifier_Verify v msg sigBytes =
     bind_sum (wrap_err (\<lambda>_. Errorf ''failed to unmarshal policy signature'') (PolicySignature_FromBytes sigBytes)) (\<lambda>sig.
       if length (ps_Signatures sig) \<noteq> length (pv_Verifiers v)
       then Inl (Errorf ''policy signature has an unexpected number of slots'')
       else bind_sum (evalNode v (pv_Policy v) msg (ps_Signatures sig)
           (replicate (length (ps_Signatures sig)) refUnknown)) (\<lambda>(ok, _).
         if \<not> ok then Inl (Errorf ''policy not satisfied'') else Inr ()))"

section \<open>Deserializers\<close>

text \<open>\<open>DV\<close> and \<open>GM\<close> are the parent deserializer; they receive the context one level down.\<close>

definition multisig_DeserializeVerifier ::
    "comp_env \<Rightarrow> (nesting_ctx \<Rightarrow> identity \<Rightarrow> go_error + go_error verifier option) \<Rightarrow> nesting_ctx \<Rightarrow> bytes \<Rightarrow>
     go_error + go_error verifier option list" where
  "multisig_DeserializeVerifier E DV ctx raw =
     bind_sum (wrap_err TooDeep (EnterCompositeIdentity ctx)) (\<lambda>ctx.
     bind_sum (wrap_err (\<lambda>_. Errorf ''failed to unmarshal multisig identity'') (MultiIdentity_Deserialize raw)) (\<lambda>mid.
       if length (mi_Identities mid) = 0 then Inl (Errorf ''multisig identity has no members'')
       else bind_sum (validateComponentIdentities E (mi_Identities mid) (MaxIdentityComponentsFrom ctx)) (\<lambda>_.
         map_sum_list (DV ctx) (mi_Identities mid))))"

definition multisig_Recipients :: "bytes \<Rightarrow> go_error + identity list" where
  "multisig_Recipients raw =
     bind_sum (wrap_err (\<lambda>_. Errorf ''asn1'') (MultiIdentity_Deserialize raw)) (\<lambda>mid. Inr (mi_Identities mid))"

definition multisig_GetAuditInfo ::
    "comp_env \<Rightarrow> nesting_ctx \<Rightarrow> identity \<Rightarrow> identity_type \<Rightarrow> bytes \<Rightarrow> audit_provider \<Rightarrow> go_error + bytes" where
  "multisig_GetAuditInfo E ctx i typ raw p =
     (if typ \<noteq> Multisig then Inl (Errorf ''invalid type'')
      else bind_sum (wrap_err TooDeep (EnterCompositeIdentity ctx)) (\<lambda>ctx.
      bind_sum (p ctx i) (\<lambda>auditInfoRaw.
        if length auditInfoRaw \<noteq> 0 then Inr auditInfoRaw
        else bind_sum (wrap_err (\<lambda>_. Errorf ''failed to unmarshal mid'') (MultiIdentity_Deserialize raw)) (\<lambda>mid.
        bind_sum (validateComponentIdentities E (mi_Identities mid) (MaxIdentityComponentsFrom ctx)) (\<lambda>_.
        bind_sum (map_sum_list (p ctx) (mi_Identities mid)) (\<lambda>infos.
          case ce_json_AuditInfo_Marshal E infos of None \<Rightarrow> Inl (Errorf ''json'') | Some b \<Rightarrow> Inr b))))))"

definition multisig_GetAuditInfoMatcher ::
    "comp_env \<Rightarrow> (nesting_ctx \<Rightarrow> identity \<Rightarrow> bytes \<Rightarrow> go_error + matcher option) \<Rightarrow> nesting_ctx \<Rightarrow> identity \<Rightarrow> bytes \<Rightarrow>
     go_error + matcher option list" where
  "multisig_GetAuditInfoMatcher E GM ctx owner auditInfo =
     bind_sum (wrap_err TooDeep (EnterCompositeIdentity ctx)) (\<lambda>ctx.
     case ce_json_AuditInfo E auditInfo of
       None \<Rightarrow> Inl (Errorf ''json'')
     | Some infos \<Rightarrow>
         bind_sum (wrap_err Decode (UnmarshalTypedIdentity (raw_identity owner))) (\<lambda>ti.
         bind_sum (wrap_err (\<lambda>_. Errorf ''asn1'') (MultiIdentity_Deserialize (Ti_Identity ti))) (\<lambda>mid.
         bind_sum (validateComponentIdentities E (mi_Identities mid) (MaxIdentityComponentsFrom ctx)) (\<lambda>_.
           if length (mi_Identities mid) \<noteq> length infos then Inl (Errorf ''unexpected number of audit infos'')
           else map_sum_list (\<lambda>(i, info). GM ctx i info) (zip (mi_Identities mid) infos)))))"

definition policy_DeserializeVerifier ::
    "comp_env \<Rightarrow> (nesting_ctx \<Rightarrow> identity \<Rightarrow> go_error + go_error verifier option) \<Rightarrow> nesting_ctx \<Rightarrow> bytes \<Rightarrow>
     go_error + PolicyVerifier" where
  "policy_DeserializeVerifier E DV ctx raw =
     bind_sum (wrap_err TooDeep (EnterCompositeIdentity ctx)) (\<lambda>ctx.
     bind_sum (wrap_err (\<lambda>_. Errorf ''failed to unmarshal policy identity'') (PolicyIdentity_Deserialize E raw)) (\<lambda>p.
     bind_sum (policy_validateComponentIdentities E (pi_Identities p) (MaxIdentityComponentsFrom ctx)) (\<lambda>_.
     bind_sum (wrap_err Errorf (Parse (ce_unicode E) (pi_Policy p))) (\<lambda>node.
     bind_sum (map_sum_list (DV ctx) (pi_Identities p)) (\<lambda>verifiers.
       Inr \<lparr>pv_Policy = node, pv_Verifiers = verifiers\<rparr>)))))"

definition policy_Recipients :: "comp_env \<Rightarrow> bytes \<Rightarrow> go_error + identity list" where
  "policy_Recipients E raw =
     bind_sum (wrap_err (\<lambda>_. Errorf ''asn1'') (PolicyIdentity_Deserialize E raw)) (\<lambda>p. Inr (pi_Identities p))"

definition policy_GetAuditInfo ::
    "comp_env \<Rightarrow> nesting_ctx \<Rightarrow> identity \<Rightarrow> identity_type \<Rightarrow> bytes \<Rightarrow> audit_provider \<Rightarrow> go_error + bytes" where
  "policy_GetAuditInfo E ctx i typ raw p =
     (if typ \<noteq> Policy then Inl (Errorf ''invalid type'')
      else bind_sum (wrap_err TooDeep (EnterCompositeIdentity ctx)) (\<lambda>ctx.
      bind_sum (p ctx i) (\<lambda>auditInfoRaw.
        if length auditInfoRaw \<noteq> 0 then Inr auditInfoRaw
        else bind_sum (wrap_err (\<lambda>_. Errorf ''failed to unmarshal policy identity'') (PolicyIdentity_Deserialize E raw)) (\<lambda>pid.
        bind_sum (policy_validateComponentIdentities E (pi_Identities pid) (MaxIdentityComponentsFrom ctx)) (\<lambda>_.
        bind_sum (map_sum_list (p ctx) (pi_Identities pid)) (\<lambda>infos.
          case ce_json_AuditInfo_Marshal E infos of None \<Rightarrow> Inl (Errorf ''json'') | Some b \<Rightarrow> Inr b))))))"

definition policy_GetAuditInfoMatcher ::
    "comp_env \<Rightarrow> (nesting_ctx \<Rightarrow> identity \<Rightarrow> bytes \<Rightarrow> go_error + matcher option) \<Rightarrow> nesting_ctx \<Rightarrow> identity \<Rightarrow> bytes \<Rightarrow>
     go_error + matcher option list" where
  "policy_GetAuditInfoMatcher E GM ctx owner auditInfo =
     bind_sum (wrap_err TooDeep (EnterCompositeIdentity ctx)) (\<lambda>ctx.
     case ce_json_AuditInfo E auditInfo of
       None \<Rightarrow> Inl (Errorf ''json'')
     | Some infos \<Rightarrow>
         bind_sum (wrap_err Decode (UnmarshalTypedIdentity (raw_identity owner))) (\<lambda>ti.
         bind_sum (wrap_err (\<lambda>_. Errorf ''asn1'') (PolicyIdentity_Deserialize E (Ti_Identity ti))) (\<lambda>p.
         bind_sum (policy_validateComponentIdentities E (pi_Identities p) (MaxIdentityComponentsFrom ctx)) (\<lambda>_.
           if length (pi_Identities p) \<noteq> length infos then Inl (Errorf ''unexpected number of audit infos'')
           else map_sum_list (\<lambda>(i, info). GM ctx i info) (zip (pi_Identities p) infos)))))"

section \<open>Enrollment identifiers\<close>

record audit_info =
  ai_EnrollmentID :: string
  ai_RevocationHandle :: string

type_synonym audit_deserializer = "nesting_ctx \<Rightarrow> identity \<Rightarrow> bytes \<Rightarrow> go_error + audit_info option"

definition multisig_DeserializeAuditInfo :: "comp_env \<Rightarrow> audit_deserializer" where
  "multisig_DeserializeAuditInfo E ctx i raw =
     (case ce_json_AuditInfo E raw of
        None \<Rightarrow> Inl (Errorf ''json'')
      | Some _ \<Rightarrow> Inr (Some \<lparr>ai_EnrollmentID = [], ai_RevocationHandle = []\<rparr>))"

definition member_eid :: "audit_deserializer \<Rightarrow> nesting_ctx \<Rightarrow> identity \<times> bytes \<Rightarrow> go_error + string" where
  "member_eid inner ctx m =
     (case m of (i, info) \<Rightarrow>
        if length info = 0 then Inr []
        else bind_sum (inner ctx i info) (\<lambda>ai. Inr (case ai of None \<Rightarrow> [] | Some a \<Rightarrow> ai_EnrollmentID a)))"

definition commonEnrollmentID ::
    "comp_env \<Rightarrow> audit_deserializer option \<Rightarrow> nesting_ctx \<Rightarrow> identity \<Rightarrow> bytes list \<Rightarrow> go_error + string" where
  "commonEnrollmentID E inner ctx i infos =
     (case inner of
        None \<Rightarrow> Inr []
      | Some inner \<Rightarrow>
          bind_sum (wrap_err TooDeep (EnterCompositeIdentity ctx)) (\<lambda>ctx.
          bind_sum (wrap_err (\<lambda>_. Errorf ''failed to deserialize policy identity'')
              (PolicyIdentity_Deserialize E (raw_identity i))) (\<lambda>p.
          bind_sum (policy_validateComponentIdentities E (pi_Identities p) (MaxIdentityComponentsFrom ctx)) (\<lambda>_.
            if length (pi_Identities p) \<noteq> length infos then Inl (Errorf ''unexpected number of component audit infos'')
            else if length (pi_Identities p) = 0 then Inl (Errorf ''policy identity has no components'')
            else bind_sum (map_sum_list (member_eid inner ctx) (zip (pi_Identities p) infos)) (\<lambda>eids.
              if list_ex (\<lambda>e. e = [] \<or> e \<noteq> hd eids) eids then Inr [] else Inr (hd eids))))))"

definition policy_DeserializeAuditInfo :: "comp_env \<Rightarrow> audit_deserializer option \<Rightarrow> audit_deserializer" where
  "policy_DeserializeAuditInfo E inner ctx i raw =
     (case ce_json_AuditInfo E raw of
        None \<Rightarrow> Inl (Errorf ''json'')
      | Some infos \<Rightarrow>
          bind_sum (commonEnrollmentID E inner ctx i infos) (\<lambda>eid.
            Inr (Some \<lparr>ai_EnrollmentID = eid, ai_RevocationHandle = []\<rparr>)))"

section \<open>Validation of components\<close>

lemma fold_validate_component:
  "(\<exists>seen'. fold_sum (validate_component E) ids seen = Inr seen') \<longleftrightarrow>
     (\<forall>i \<in> set ids. \<not> id_IsNone (ce_htlc E) i) \<and> distinct (map (ce_UniqueID E) ids) \<and>
     set (map (ce_UniqueID E) ids) \<inter> set seen = {}"
proof (induction ids arbitrary: seen)
  case (Cons i ids)
  show ?case
  proof (cases "id_IsNone (ce_htlc E) i \<or> ce_UniqueID E i \<in> set seen")
    case False
    then show ?thesis using Cons.IH [of "ce_UniqueID E i # seen"] by (auto simp: validate_component_def)
  qed (auto simp: validate_component_def)
qed simp

lemma validateComponentIdentities_iff:
  "validateComponentIdentities E ids n = Inr () \<longleftrightarrow>
     int (length ids) \<le> n \<and> (\<forall>i \<in> set ids. \<not> id_IsNone (ce_htlc E) i) \<and> distinct (map (ce_UniqueID E) ids)"
  using fold_validate_component [of E ids "[]"] by (auto simp: validateComponentIdentities_def sum_elims)

lemma policy_validateComponentIdentities_eq: "policy_validateComponentIdentities = validateComponentIdentities"
  by (simp add: fun_eq_iff policy_validateComponentIdentities_def validateComponentIdentities_def)

section \<open>Canonical encodings\<close>

lemma raw_identity_Some [simp]: "raw_identity (Some b) = b"
  by (simp add: raw_identity_def)

lemma map_raw_identity: "map (raw_identity \<circ> Some) vs = vs"
  by (rule map_idI) simp

lemma map_Some_raw: "None \<notin> set ids \<Longrightarrow> map Some (map raw_identity ids) = ids"
  by (rule nth_equalityI) (auto simp: raw_identity_def in_set_conv_nth split: option.splits)

lemma MultiIdentity_Deserialize_sound:
  assumes "MultiIdentity_Deserialize raw = Inr m"
  shows "raw = MultiIdentity_Serialize m" and "None \<notin> set (mi_Identities m)"
  using assms
  by (auto simp: MultiIdentity_Deserialize_def MultiIdentity_Serialize_def UnmarshalCanonicalDER_Inr sum_elims map_raw_identity)

lemma MultiIdentity_Deserialize_complete:
  assumes "length (MultiIdentity_Serialize m) < 2 ^ 31" and "None \<notin> set (mi_Identities m)"
  shows "MultiIdentity_Deserialize (MultiIdentity_Serialize m) = Inr m"
  using assms slices_roundtrip [of "map raw_identity (mi_Identities m)"] map_Some_raw [OF assms(2)]
  by (cases m) (auto simp: MultiIdentity_Deserialize_def MultiIdentity_Serialize_def UnmarshalCanonicalDER_def)

lemma named_slices_valid:
  assumes "named_slices_Unmarshal other (named_slices_Marshal (s, vs)) = Some ((s', vs'), rest)"
    and "length (named_slices_Marshal (s, vs)) < 2 ^ 31"
  shows "valid_utf8 s"
proof -
  let ?str = "appendTLV [] tagUTF8String (bytes_of_string s)"
  have body: "length (?str @ octets_Marshal vs) < 2 ^ 31"
    using assms(2) length_appendTLV_ge [of "?str @ octets_Marshal vs" "[]" tagSequence]
    by (simp add: named_slices_Marshal_def)
  then have len: "length (bytes_of_string s) < 2 ^ 31"
    using length_appendTLV_ge [of "bytes_of_string s" "[]" tagUTF8String] by simp
  have "asn1_string other (?str @ octets_Marshal vs) \<noteq> None"
    using assms(1) asn1_element_appendTLV [OF body, of tagSequence "[]"]
    by (auto simp: named_slices_Unmarshal_def named_slices_Marshal_def split: option.splits)
  moreover have "\<exists>tl. ?str @ octets_Marshal vs = tagUTF8String # tl" by (simp add: appendTLV_def)
  ultimately show ?thesis
    using asn1_element_appendTLV [OF len, of tagUTF8String "octets_Marshal vs"]
    by (auto simp: asn1_string_def valid_utf8_def unat_bytes_of_string split: if_splits)
qed

lemma PolicyIdentity_Deserialize_sound:
  assumes "PolicyIdentity_Deserialize E raw = Inr p"
  shows "raw = PolicyIdentity_Serialize p" and "None \<notin> set (pi_Identities p)"
    and "length raw < 2 ^ 31 \<Longrightarrow> valid_utf8 (pi_Policy p)"
proof -
  obtain s vs where u: "named_slices_Unmarshal (ce_asn1_other E) raw = Some ((s, vs), [])"
    "raw = named_slices_Marshal (s, vs)" "p = \<lparr>pi_Policy = s, pi_Identities = map Some vs\<rparr>"
    using assms by (auto simp: PolicyIdentity_Deserialize_def UnmarshalCanonicalDER_Inr sum_elims)
  show "raw = PolicyIdentity_Serialize p" "None \<notin> set (pi_Identities p)"
    using u by (auto simp: PolicyIdentity_Serialize_def map_raw_identity)
  show "length raw < 2 ^ 31 \<Longrightarrow> valid_utf8 (pi_Policy p)"
    using u named_slices_valid [of "ce_asn1_other E" s vs s vs "[]"] by auto
qed

lemma PolicyIdentity_Deserialize_complete:
  assumes "length (PolicyIdentity_Serialize p) < 2 ^ 31" and "None \<notin> set (pi_Identities p)" and "valid_utf8 (pi_Policy p)"
  shows "PolicyIdentity_Deserialize E (PolicyIdentity_Serialize p) = Inr p"
  using assms named_slices_roundtrip [of "pi_Policy p" "map raw_identity (pi_Identities p)" "ce_asn1_other E"]
    map_Some_raw [OF assms(2)]
  by (cases p) (auto simp: PolicyIdentity_Deserialize_def PolicyIdentity_Serialize_def UnmarshalCanonicalDER_def)

lemma slices_canonical:
  assumes "length raw < 2 ^ 31"
  shows "UnmarshalCanonicalDER slices_Unmarshal slices_Marshal True raw = Inr vs \<longleftrightarrow> raw = slices_Marshal vs"
  using assms slices_roundtrip [of vs] by (auto simp: UnmarshalCanonicalDER_Inr)

text \<open>
  C10: Composite identities and the envelopes of their signatures have one encoding each: a byte
  string of less than \<open>2^31\<close> bytes decodes to a multi-signature identity, to a policy identity, to a
  multi-signature or to a policy signature exactly when it is what the encoder writes for that value
  (whose components are set and whose policy is valid UTF-8). So no two byte strings, which hash to
  different identifiers, decode to the same identity.
\<close>

theorem composite_encodings_canonical:
  assumes len: "length raw < 2 ^ 31"
  shows "(MultiIdentity_Deserialize raw = Inr m \<longleftrightarrow>
        raw = MultiIdentity_Serialize m \<and> None \<notin> set (mi_Identities m)) \<and>
    (PolicyIdentity_Deserialize E raw = Inr p \<longleftrightarrow>
        raw = PolicyIdentity_Serialize p \<and> None \<notin> set (pi_Identities p) \<and> valid_utf8 (pi_Policy p)) \<and>
    (MultiSignature_FromBytes raw = Inr ms \<longleftrightarrow> raw = MultiSignature_Bytes ms) \<and>
    (PolicySignature_FromBytes raw = Inr ps \<longleftrightarrow> raw = PolicySignature_Bytes ps)"
proof (intro conjI)
  show "MultiIdentity_Deserialize raw = Inr m \<longleftrightarrow> raw = MultiIdentity_Serialize m \<and> None \<notin> set (mi_Identities m)"
    using len MultiIdentity_Deserialize_sound [of raw m] MultiIdentity_Deserialize_complete [of m] by blast
  show "PolicyIdentity_Deserialize E raw = Inr p \<longleftrightarrow>
      raw = PolicyIdentity_Serialize p \<and> None \<notin> set (pi_Identities p) \<and> valid_utf8 (pi_Policy p)"
    using len PolicyIdentity_Deserialize_sound [of E raw p] PolicyIdentity_Deserialize_complete [of p E] by blast
  show "MultiSignature_FromBytes raw = Inr ms \<longleftrightarrow> raw = MultiSignature_Bytes ms"
    using slices_canonical [OF len]
    by (cases ms) (auto simp: MultiSignature_FromBytes_def MultiSignature_Bytes_def sum_elims)
  show "PolicySignature_FromBytes raw = Inr ps \<longleftrightarrow> raw = PolicySignature_Bytes ps"
    using slices_canonical [OF len]
    by (cases ps) (auto simp: PolicySignature_FromBytes_def PolicySignature_Bytes_def sum_elims)
qed

theorem composite_encodings_canonical_witness:
  "MultiIdentity_Deserialize [0x30, 5, 0x30, 3, 4, 1, 7] = Inr \<lparr>mi_Identities = [Some [7]]\<rparr> \<and>
   MultiIdentity_Deserialize [0x30, 0x81, 5, 0x30, 3, 4, 1, 7] \<noteq> Inr \<lparr>mi_Identities = [Some [7]]\<rparr>"
proof -
  have ser: "MultiIdentity_Serialize \<lparr>mi_Identities = [Some [7]]\<rparr> = [0x30, 5, 0x30, 3, 4, 1, 7]"
    by code_simp
  show ?thesis
    using composite_encodings_canonical
        [of "[0x30, 5, 0x30, 3, 4, 1, 7]" "\<lparr>mi_Identities = [Some [7]]\<rparr>", THEN conjunct1]
      composite_encodings_canonical
        [of "[0x30, 0x81, 5, 0x30, 3, 4, 1, 7]" "\<lparr>mi_Identities = [Some [7]]\<rparr>", THEN conjunct1] ser
    by simp
qed

section \<open>Verification\<close>

text \<open>The component accepts its slot of the signature; a slot that is empty was not signed.\<close>

definition slot_accepts :: "bytes \<Rightarrow> go_error verifier option \<times> bytes \<Rightarrow> bool" where
  "slot_accepts msg s = (case s of (ver, sigma) \<Rightarrow> sigma \<noteq> [] \<and> ver \<noteq> None \<and> call_verifier ver msg sigma = Inr ())"

lemma multisig_Verify_iff:
  "multisig_Verify vs msg raw = Inr () \<longleftrightarrow>
     vs \<noteq> [] \<and> (\<exists>ms. MultiSignature_FromBytes raw = Inr ms \<and> length (ms_Signatures ms) = length vs \<and>
       (\<forall>(ver, sigma) \<in> set (zip vs (ms_Signatures ms)). call_verifier ver msg sigma = Inr ()))"
proof -
  have step: "member_verify msg m = Inr () \<longleftrightarrow> (case m of (ver, sigma) \<Rightarrow> call_verifier ver msg sigma = Inr ())" for m
    by (cases m; cases "call_verifier (fst m) msg (snd m)") (auto simp: member_verify_def split: go_error.splits)
  show ?thesis
    by (cases "MultiSignature_FromBytes raw") (auto simp: multisig_Verify_def fold_sum_unit step)
qed

definition memo_ok :: "PolicyVerifier \<Rightarrow> bytes \<Rightarrow> bytes list \<Rightarrow> refResult list \<Rightarrow> bool" where
  "memo_ok v msg sigs memo \<longleftrightarrow> length memo = length sigs \<and>
     (\<forall>i < length sigs. memo ! i \<noteq> refUnknown \<longrightarrow>
        (memo ! i = refPass \<longleftrightarrow> slot_accepts msg (pv_Verifiers v ! i, sigs ! i)))"

definition no_panic :: "go_error verifier option list \<Rightarrow> bytes \<Rightarrow> bytes list \<Rightarrow> bool" where
  "no_panic vs msg sigs \<longleftrightarrow> (\<forall>(ver, sigma) \<in> set (zip vs sigs). ver \<noteq> None \<longrightarrow> call_verifier ver msg sigma \<noteq> Inl NilPointer)"

lemma evalRef_ok:
  assumes "length sigs = length (pv_Verifiers v)" and "no_panic (pv_Verifiers v) msg sigs" and "memo_ok v msg sigs memo"
  shows "\<exists>memo'. evalRef v i msg sigs memo =
      Inr (Node_Eval (RefNode i) (map (slot_accepts msg) (zip (pv_Verifiers v) sigs)), memo') \<and> memo_ok v msg sigs memo'"
proof (cases "0 \<le> i \<and> i < int (length sigs)")
  case True
  define k where "k = nat i"
  have k: "k < length sigs" "k < length (pv_Verifiers v)" "length memo = length sigs"
    using True assms by (auto simp: k_def memo_ok_def)
  have eval: "Node_Eval (RefNode i) (map (slot_accepts msg) (zip (pv_Verifiers v) sigs))
      = slot_accepts msg (pv_Verifiers v ! k, sigs ! k)"
    using True assms(1) k by (auto simp: k_def)
  have mem: "(pv_Verifiers v ! k, sigs ! k) \<in> set (zip (pv_Verifiers v) sigs)" using k by (auto simp: set_zip)
  then have calm: "pv_Verifiers v ! k \<noteq> None \<Longrightarrow> call_verifier (pv_Verifiers v ! k) msg (sigs ! k) \<noteq> Inl NilPointer"
    using assms(2) by (auto simp: no_panic_def)
  have range: "\<not> (i < 0 \<or> int (length sigs) \<le> i \<or> int (length memo) \<le> i \<or> int (length (pv_Verifiers v)) \<le> i)"
    using True k assms(1) by auto
  have upd: "memo_ok v msg sigs (memo[k := r])"
    if "r = refPass \<longleftrightarrow> slot_accepts msg (pv_Verifiers v ! k, sigs ! k)" for r
  proof -
    have "memo[k := r] ! j = (if j = k then r else memo ! j)" if "j < length sigs" for j using that k by simp
    then show ?thesis using assms(3) that by (auto simp: memo_ok_def)
  qed
  show ?thesis
  proof (cases "sigs ! k = [] \<or> pv_Verifiers v ! k = None")
    case True
    then show ?thesis using range assms(3) eval by (auto simp: evalRef_def k_def [symmetric] slot_accepts_def)
  next
    case sig: False
    show ?thesis
    proof (cases "memo ! k = refUnknown")
      case True
      show ?thesis
      proof (cases "call_verifier (pv_Verifiers v ! k) msg (sigs ! k)")
        case (Inl e)
        then have "evalRef v i msg sigs memo = Inr (False, memo[k := refFail])"
          using range sig True calm by (cases e) (auto simp: evalRef_def k_def [symmetric])
        then show ?thesis using upd [of refFail] Inl eval by (auto simp: slot_accepts_def)
      next
        case (Inr u)
        then have "evalRef v i msg sigs memo = Inr (True, memo[k := refPass])"
          using range sig True by (auto simp: evalRef_def k_def [symmetric])
        then show ?thesis using upd [of refPass] Inr eval sig by (auto simp: slot_accepts_def)
      qed
    next
      case False
      then show ?thesis using range sig assms(3) eval k by (auto simp: evalRef_def k_def [symmetric] memo_ok_def)
    qed
  qed
next
  case False
  then have "evalRef v i msg sigs memo = Inr (False, memo)" by (auto simp: evalRef_def)
  then show ?thesis using False assms by auto
qed

lemma evalNode_ok:
  assumes "length sigs = length (pv_Verifiers v)" and "no_panic (pv_Verifiers v) msg sigs"
  shows "memo_ok v msg sigs memo \<Longrightarrow> \<exists>memo'. evalNode v n msg sigs memo =
      Inr (Node_Eval n (map (slot_accepts msg) (zip (pv_Verifiers v) sigs)), memo') \<and> memo_ok v msg sigs memo'"
proof (induction n arbitrary: memo)
  case (RefNode i)
  then show ?case using evalRef_ok [OF assms] by simp
next
  case (AndNode l r)
  obtain m1 where m1: "evalNode v l msg sigs memo = Inr (Node_Eval l (map (slot_accepts msg) (zip (pv_Verifiers v) sigs)), m1)"
    "memo_ok v msg sigs m1" using AndNode by blast
  show ?case using m1 AndNode.IH(2) [OF m1(2)] by auto
next
  case (OrNode l r)
  obtain m1 where m1: "evalNode v l msg sigs memo = Inr (Node_Eval l (map (slot_accepts msg) (zip (pv_Verifiers v) sigs)), m1)"
    "memo_ok v msg sigs m1" using OrNode by blast
  show ?case using m1 OrNode.IH(2) [OF m1(2)] by auto
qed auto

lemma PolicyVerifier_Verify_iff:
  assumes "\<And>sigs. no_panic (pv_Verifiers v) msg sigs"
  shows "PolicyVerifier_Verify v msg raw = Inr () \<longleftrightarrow>
     (\<exists>ps. PolicySignature_FromBytes raw = Inr ps \<and> length (ps_Signatures ps) = length (pv_Verifiers v) \<and>
       Node_Eval (pv_Policy v) (map (slot_accepts msg) (zip (pv_Verifiers v) (ps_Signatures ps))))"
proof (cases "PolicySignature_FromBytes raw")
  case (Inr ps)
  show ?thesis
  proof (cases "length (ps_Signatures ps) = length (pv_Verifiers v)")
    case True
    have "memo_ok v msg (ps_Signatures ps) (replicate (length (ps_Signatures ps)) refUnknown)" by (simp add: memo_ok_def)
    from evalNode_ok [OF True assms this, of "pv_Policy v"] show ?thesis
      using Inr True by (auto simp: PolicyVerifier_Verify_def split: if_splits)
  qed (use Inr in \<open>auto simp: PolicyVerifier_Verify_def\<close>)
qed (auto simp: PolicyVerifier_Verify_def)

end
