(* ===== verification/X509.thy ===== *)
theory X509
  imports Htlc Asn1
begin

text \<open>
  Identities that are X.509 certificates or public keys (\<open>src/token/services/identity/x509\<close>): the
  decoding of keys and certificates, the ECDSA signer and verifier with the low-S rule, the
  enrollment identifier and revocation handle of a certificate, and the audit information built from
  them.

  Parameters are the PEM and X.509 parsers, SHA-256, the order of a curve's group, and signing and
  verification of \<open>crypto/ecdsa\<close>. A public key is abstract, with its curve; the encoding of a
  signature as a sequence of two integers is written out.

  The lemmas show that every signature the signer produces satisfies the rule the verifier enforces
  and is accepted by it.
\<close>

section \<open>Parameters\<close>

datatype curve = P224 | P256 | P384 | P521 | OtherCurve

datatype public_key = EcdsaKey curve bytes | OtherKey

record x509_env =
  xe_order :: "curve \<Rightarrow> int"
  xe_Sha256 :: "bytes \<Rightarrow> bytes"
  xe_ecdsa_Verify :: "public_key \<Rightarrow> bytes \<Rightarrow> int \<Rightarrow> int \<Rightarrow> bool"
  xe_ecdsa_Sign :: "public_key \<Rightarrow> bytes \<Rightarrow> (int \<times> int) option"
  xe_pem_Decode :: "bytes \<Rightarrow> (string \<times> bytes) option"
  xe_ParsePKCS8PrivateKey :: "bytes \<Rightarrow> bool"
  xe_ParseCertificate :: "bytes \<Rightarrow> (public_key \<times> string) option"
  xe_ParsePKIXPublicKey :: "bytes \<Rightarrow> public_key option"
  xe_MarshalPKIXPublicKey :: "public_key \<Rightarrow> bytes option"
  xe_json_AuditInfo :: "bytes \<Rightarrow> (string \<times> bytes) option"
  xe_json_AuditInfo_Marshal :: "string \<times> bytes \<Rightarrow> bytes option"

section \<open>Signatures\<close>

record ECDSASignature =
  sig_R :: int
  sig_S :: int

text \<open>The contents of an INTEGER: two's complement, most significant byte first, no superfluous byte.\<close>

fun nat_octets :: "nat \<Rightarrow> bytes" where
  "nat_octets n = (if n < 256 then [of_nat n] else nat_octets (n div 256) @ [of_nat (n mod 256)])"

declare nat_octets.simps [simp del]

definition big_Int_octets :: "int \<Rightarrow> bytes" where
  "big_Int_octets v =
     (if v < 0 then map NOT (let b = nat_octets (nat (- v - 1)) in if 128 \<le> unat (hd b) then 0 # b else b)
      else let b = nat_octets (nat v) in if 128 \<le> unat (hd b) then 0 # b else b)"

definition parseBigInt :: "bytes \<Rightarrow> int option" where
  "parseBigInt b = (if b = [] \<or> nonMinimalInt b then None else Some (be_int b))"

definition ECDSASignature_Marshal :: "ECDSASignature \<Rightarrow> bytes" where
  "ECDSASignature_Marshal s =
     appendTLV [] tagSequence
       (appendTLV [] tagInteger (big_Int_octets (sig_R s)) @ appendTLV [] tagInteger (big_Int_octets (sig_S s)))"

definition ECDSASignature_Unmarshal :: "bytes \<Rightarrow> (ECDSASignature \<times> bytes) option" where
  "ECDSASignature_Unmarshal b =
     (case asn1_element tagSequence b of
        None \<Rightarrow> None
      | Some (body, rest) \<Rightarrow>
          (case asn1_element tagInteger body of
             None \<Rightarrow> None
           | Some (r, body) \<Rightarrow>
               (case asn1_element tagInteger body of
                  None \<Rightarrow> None
                | Some (s, _) \<Rightarrow>
                    (case (parseBigInt r, parseBigInt s) of
                       (Some r, Some s) \<Rightarrow> Some (\<lparr>sig_R = r, sig_S = s\<rparr>, rest)
                     | _ \<Rightarrow> None))))"

text \<open>\<open>curveHalfOrders\<close> has the four curves of the standard library.\<close>

definition curveHalfOrders :: "x509_env \<Rightarrow> curve \<Rightarrow> int option" where
  "curveHalfOrders E c = (if c = OtherCurve then None else Some (xe_order E c div 2))"

fun key_curve :: "public_key \<Rightarrow> curve" where
  "key_curve (EcdsaKey c _) = c"
| "key_curve OtherKey = OtherCurve"

definition IsLowS :: "x509_env \<Rightarrow> public_key \<Rightarrow> int \<Rightarrow> go_error + bool" where
  "IsLowS E k s =
     (case curveHalfOrders E (key_curve k) of
        None \<Rightarrow> Inl (Errorf ''curve not recognized'')
      | Some halfOrder \<Rightarrow> Inr (int_Cmp s halfOrder \<noteq> 1))"

definition ToLowS :: "x509_env \<Rightarrow> public_key \<Rightarrow> int \<Rightarrow> go_error + int \<times> bool" where
  "ToLowS E k s =
     bind_sum (IsLowS E k s) (\<lambda>lowS.
       if \<not> lowS then Inr (xe_order E (key_curve k) - s, True) else Inr (s, False))"

definition ecdsaVerifier_Verify :: "x509_env \<Rightarrow> public_key \<Rightarrow> bytes \<Rightarrow> bytes \<Rightarrow> go_error + unit" where
  "ecdsaVerifier_Verify E pk message sigma =
     (case ECDSASignature_Unmarshal sigma of
        None \<Rightarrow> Inl (Errorf ''asn1'')
      | Some (signature, _) \<Rightarrow>
          let digest = xe_Sha256 E message in
          bind_sum (IsLowS E pk (sig_S signature)) (\<lambda>lowS.
            if \<not> lowS then Inl (Errorf ''signature is not in lowS'')
            else if \<not> xe_ecdsa_Verify E pk digest (sig_R signature) (sig_S signature)
            then Inl (Errorf ''signature not valid'') else Inr ()))"

text \<open>The private key is given by its public key, which \<open>xe_ecdsa_Sign\<close> takes.\<close>

definition ecdsaSigner_Sign :: "x509_env \<Rightarrow> public_key \<Rightarrow> bytes \<Rightarrow> go_error + bytes" where
  "ecdsaSigner_Sign E pk message =
     (let dgst = xe_Sha256 E message in
      case xe_ecdsa_Sign E pk dgst of
        None \<Rightarrow> Inl (Errorf ''ecdsa'')
      | Some (r, s) \<Rightarrow>
          bind_sum (ToLowS E pk s) (\<lambda>(s, _).
            Inr (ECDSASignature_Marshal \<lparr>sig_R = r, sig_S = s\<rparr>)))"

section \<open>Keys and certificates\<close>

text \<open>A private key decodes to a value that is not a public key.\<close>

definition PemDecodeKey :: "x509_env \<Rightarrow> bytes \<Rightarrow> go_error + public_key" where
  "PemDecodeKey E keyBytes =
     (case xe_pem_Decode E keyBytes of
        None \<Rightarrow> Inl (Errorf ''bytes are not PEM encoded'')
      | Some (typ, block) \<Rightarrow>
          if typ = ''PRIVATE KEY'' then
            (if xe_ParsePKCS8PrivateKey E block then Inr OtherKey else Inl (Errorf ''pem bytes are not PKCS8 encoded''))
          else if typ = ''CERTIFICATE'' then
            (case xe_ParseCertificate E block of
               None \<Rightarrow> Inl (Errorf ''pem bytes are not cert encoded'') | Some (pk, _) \<Rightarrow> Inr pk)
          else if typ = ''PUBLIC KEY'' then
            (case xe_ParsePKIXPublicKey E block of
               None \<Rightarrow> Inl (Errorf ''pem bytes are not PKIX encoded'') | Some pk \<Rightarrow> Inr pk)
          else Inl (Errorf ''bad key type''))"

definition PemDecodeCert :: "x509_env \<Rightarrow> bytes \<Rightarrow> go_error + public_key \<times> string" where
  "PemDecodeCert E pemBytes =
     (case xe_pem_Decode E pemBytes of
        None \<Rightarrow> Inl (Errorf ''bytes are not PEM encoded'')
      | Some (typ, block) \<Rightarrow>
          if typ = ''CERTIFICATE'' then
            (case xe_ParseCertificate E block of
               None \<Rightarrow> Inl (Errorf ''pem bytes are not cert encoded'') | Some c \<Rightarrow> Inr c)
          else Inl (Errorf ''bad type''))"

definition x509_DeserializeVerifier :: "x509_env \<Rightarrow> bytes \<Rightarrow> go_error + go_error verifier option" where
  "x509_DeserializeVerifier E i =
     bind_sum (PemDecodeKey E i) (\<lambda>genericPublicKey.
       case genericPublicKey of
         EcdsaKey c k \<Rightarrow> Inr (Some (ecdsaVerifier_Verify E (EcdsaKey c k)))
       | OtherKey \<Rightarrow> Inl (Errorf ''expected *ecdsa.PublicKey''))"

definition GetEnrollmentID :: "x509_env \<Rightarrow> bytes \<Rightarrow> go_error + string" where
  "GetEnrollmentID E i =
     bind_sum (PemDecodeCert E i) (\<lambda>(_, cn). Inr (takeWhile (\<lambda>c. c \<noteq> CHR ''@'') cn))"

definition GetRevocationHandle :: "x509_env \<Rightarrow> bytes \<Rightarrow> go_error + bytes" where
  "GetRevocationHandle E i =
     bind_sum (PemDecodeCert E i) (\<lambda>(pk, _).
       case xe_MarshalPKIXPublicKey E pk of
         None \<Rightarrow> Inl (Errorf ''Failed to marshal PKI public key'')
       | Some encoded \<Rightarrow> Inr (bytes_of_string (base64_encode (xe_Sha256 E encoded))))"

section \<open>Audit information\<close>

record x509_AuditInfo =
  xai_EID :: string
  xai_RH :: bytes

definition x509_AuditInfo_Bytes :: "x509_env \<Rightarrow> x509_AuditInfo \<Rightarrow> go_error + bytes" where
  "x509_AuditInfo_Bytes E a =
     (case xe_json_AuditInfo_Marshal E (xai_EID a, xai_RH a) of None \<Rightarrow> Inl (Errorf ''json'') | Some b \<Rightarrow> Inr b)"

definition x509_AuditInfo_FromBytes :: "x509_env \<Rightarrow> bytes \<Rightarrow> go_error + x509_AuditInfo" where
  "x509_AuditInfo_FromBytes E raw =
     (case xe_json_AuditInfo E raw of
        None \<Rightarrow> Inl (Errorf ''json'') | Some (e, r) \<Rightarrow> Inr \<lparr>xai_EID = e, xai_RH = r\<rparr>)"

definition x509_RevocationHandle :: "x509_AuditInfo \<Rightarrow> string" where
  "x509_RevocationHandle a = string_of_bytes (xai_RH a)"

definition x509_Match :: "x509_env \<Rightarrow> string \<Rightarrow> bytes \<Rightarrow> go_error + unit" where
  "x509_Match E enrollmentID i =
     bind_sum (GetEnrollmentID E i) (\<lambda>eid.
       if eid \<noteq> enrollmentID then Inl (Errorf ''unexpected enrollment ID'') else Inr ())"

definition x509_GetAuditInfoMatcher :: "x509_env \<Rightarrow> bytes \<Rightarrow> go_error + (bytes \<Rightarrow> go_error + unit)" where
  "x509_GetAuditInfoMatcher E auditInfo =
     bind_sum (x509_AuditInfo_FromBytes E auditInfo) (\<lambda>ai. Inr (x509_Match E (xai_EID ai)))"

section \<open>Signatures that the signer produces\<close>

lemma be_nat_snoc: "be_nat (bs @ [b]) = be_nat bs * 256 + unat b"
  by (simp add: be_nat_def)

lemma unat_of_nat_byte: "n < 256 \<Longrightarrow> unat (of_nat n :: byte) = n"
  by (simp add: unsigned_of_nat take_bit_eq_mod)

lemma nat_octets_facts:
  "nat_octets n \<noteq> [] \<and> be_nat (nat_octets n) = n \<and> (hd (nat_octets n) = 0 \<longrightarrow> length (nat_octets n) = 1)
   \<and> (n < 256 ^ k \<longrightarrow> 0 < k \<longrightarrow> length (nat_octets n) \<le> k)"
proof (induction n arbitrary: k rule: less_induct)
  case (less n)
  show ?case
  proof (cases "n < 256")
    case True
    then show ?thesis by (simp add: nat_octets.simps [of n] be_nat_def unat_of_nat_byte)
  next
    case False
    then have lt: "n div 256 < n" by simp
    note IH = less.IH [OF lt]
    have split: "nat_octets n = nat_octets (n div 256) @ [of_nat (n mod 256)]"
      using False by (simp add: nat_octets.simps [of n])
    have bound: "length (nat_octets (n div 256)) \<le> k - 1" if "n < 256 ^ k" "0 < k"
    proof -
      have "1 < k" using that False by (cases k; cases "k - 1") auto
      moreover have "n div 256 < 256 ^ (k - 1)"
        using that by (simp add: less_mult_imp_div_less flip: power_Suc2)
      ultimately show ?thesis using IH [of "k - 1"] by simp
    qed
    have hd: "hd (nat_octets n) \<noteq> 0"
    proof
      assume "hd (nat_octets n) = 0"
      then have z: "hd (nat_octets (n div 256)) = 0" using IH split by simp
      then have "length (nat_octets (n div 256)) = 1" using IH by blast
      then have "nat_octets (n div 256) = [0]" using z by (cases "nat_octets (n div 256)") auto
      then have "n div 256 = 0" using IH [of 1] by (simp add: be_nat_def)
      then show False using False by simp
    qed
    show ?thesis
      using IH split bound hd by (auto simp: be_nat_snoc unat_of_nat_byte)
  qed
qed

lemma be_int_be_nat: "b \<noteq> [] \<Longrightarrow> unat (hd b) < 128 \<Longrightarrow> be_int b = int (be_nat b)"
proof -
  have fold: "foldl (\<lambda>v c. v * 256 + uint c) (int x) b = int (foldl (\<lambda>l c. l * 256 + unat c) x b)" for x and b :: bytes
  proof (induction b arbitrary: x)
    case (Cons c b)
    have "int x * 256 + uint c = int (x * 256 + unat c)" by (simp only: uint_byte of_nat_add of_nat_mult of_nat_numeral)
    then show ?case using Cons.IH [of "x * 256 + unat c"] by simp
  qed simp
  assume "b \<noteq> []" and "unat (hd b) < 128"
  then show ?thesis using fold [of 0 b] by (simp add: be_int_def be_nat_def and_80_iff)
qed

lemma parseBigInt_octets:
  assumes "0 \<le> v"
  shows "parseBigInt (big_Int_octets v) = Some v" and "v < 256 ^ k \<Longrightarrow> 0 < k \<Longrightarrow> length (big_Int_octets v) \<le> k + 1"
proof -
  define b where "b = nat_octets (nat v)"
  have b: "b \<noteq> []" "be_nat b = nat v" "hd b = 0 \<longrightarrow> length b = 1" "nat v < 256 ^ k \<longrightarrow> 0 < k \<longrightarrow> length b \<le> k" for k
    using nat_octets_facts [of "nat v" k] by (auto simp: b_def)
  have octets: "big_Int_octets v = (if 128 \<le> unat (hd b) then 0 # b else b)"
    using assms by (simp add: big_Int_octets_def b_def Let_def)
  show "v < 256 ^ k \<Longrightarrow> 0 < k \<Longrightarrow> length (big_Int_octets v) \<le> k + 1"
    using b(4) [of k] assms octets by (auto simp: nat_less_iff)
  obtain x xs where x: "b = x # xs" using b(1) by (cases b) auto
  show "parseBigInt (big_Int_octets v) = Some v"
  proof (cases "128 \<le> unat x")
    case True
    have "be_int (0 # b) = int (be_nat (0 # b))" by (rule be_int_be_nat) simp_all
    then have "be_int (0 # b) = v" using b(2) assms by (simp add: be_nat_Cons)
    moreover have "\<not> nonMinimalInt (0 # b)" using True x by (simp add: nonMinimalInt_def and_80_iff)
    ultimately show ?thesis using octets True x by (simp add: parseBigInt_def)
  next
    case False
    have "be_int b = v" using be_int_be_nat [of b] b(1,2) x False assms by simp
    moreover have "\<not> nonMinimalInt b"
      using b(3) x False by (auto simp: nonMinimalInt_def split: list.splits)
    ultimately show ?thesis using octets False x by (simp add: parseBigInt_def)
  qed
qed

lemma ECDSASignature_roundtrip:
  assumes "0 \<le> sig_R s" and "sig_R s < 256 ^ 1024" and "0 \<le> sig_S s" and "sig_S s < 256 ^ 1024"
  shows "ECDSASignature_Unmarshal (ECDSASignature_Marshal s) = Some (s, [])"
proof -
  let ?r = "big_Int_octets (sig_R s)" and ?t = "big_Int_octets (sig_S s)"
  note r = parseBigInt_octets [OF assms(1)] and t = parseBigInt_octets [OF assms(3)]
  have len: "length ?r \<le> 1025" "length ?t \<le> 1025"
    using r(2) [OF assms(2)] t(2) [OF assms(4)] by simp_all
  have short: "length (appendTLV [] tagInteger v) \<le> 1031" if "length v \<le> 1025" for v
    using that length_derLength [of "length v"] by (simp add: appendTLV_def)
  have body: "length (appendTLV [] tagInteger ?r @ appendTLV [] tagInteger ?t) < 2 ^ 31"
    using short [OF len(1)] short [OF len(2)] by simp
  have ints: "asn1_element tagInteger (appendTLV [] tagInteger v @ rest) = Some (v, rest)" if "length v \<le> 1025" for v rest
    using that by (intro asn1_element_appendTLV) simp
  show ?thesis
    using asn1_element_appendTLV [OF body, of tagSequence "[]"] ints [OF len(1)] ints [OF len(2), of "[]"] r(1) t(1)
    by (simp add: ECDSASignature_Unmarshal_def ECDSASignature_Marshal_def)
qed

text \<open>
  C34: What the ECDSA signer produces, the verifier accepts. Let the order of the key's curve be
  positive and let \<open>crypto/ecdsa\<close> return components between zero and the order that verify, as do
  the same \<open>r\<close> with the negated \<open>s\<close>. Then signing succeeds, its \<open>S\<close> is at most half the order, and the
  verifier accepts the signature; and whatever signature the verifier accepts, of any message, has an
  \<open>S\<close> of at most half the order and is valid for the digest.
\<close>

theorem ecdsa_sign_verify:
  assumes order: "0 < xe_order E c" "xe_order E c < 256 ^ 1024" and curve: "c \<noteq> OtherCurve"
    and sign: "xe_ecdsa_Sign E (EcdsaKey c k) (xe_Sha256 E m) = Some (r, s)"
    and range: "0 < r" "r < xe_order E c" "0 < s" "s < xe_order E c"
    and valid: "xe_ecdsa_Verify E (EcdsaKey c k) (xe_Sha256 E m) r s"
      "xe_ecdsa_Verify E (EcdsaKey c k) (xe_Sha256 E m) r (xe_order E c - s)"
  shows "\<exists>sigma. ecdsaSigner_Sign E (EcdsaKey c k) m = Inr sigma \<and>
      (\<exists>t rest. ECDSASignature_Unmarshal sigma = Some (t, rest) \<and> 2 * sig_S t \<le> xe_order E c) \<and>
      ecdsaVerifier_Verify E (EcdsaKey c k) m sigma = Inr () \<and>
      (\<forall>msg raw. ecdsaVerifier_Verify E (EcdsaKey c k) msg raw = Inr () \<longrightarrow>
         (\<exists>t rest. ECDSASignature_Unmarshal raw = Some (t, rest) \<and> 2 * sig_S t \<le> xe_order E c \<and>
            xe_ecdsa_Verify E (EcdsaKey c k) (xe_Sha256 E msg) (sig_R t) (sig_S t)))"
proof -
  define t where "t = (if s \<le> xe_order E c div 2 then s else xe_order E c - s)"
  have low: "IsLowS E (EcdsaKey c k) x = Inr (x \<le> xe_order E c div 2)" for x
    using curve by (simp add: IsLowS_def curveHalfOrders_def int_Cmp_def)
  have "ToLowS E (EcdsaKey c k) s = Inr (t, \<not> s \<le> xe_order E c div 2)"
    by (simp add: ToLowS_def low t_def)
  then have sigma: "ecdsaSigner_Sign E (EcdsaKey c k) m = Inr (ECDSASignature_Marshal \<lparr>sig_R = r, sig_S = t\<rparr>)"
    using sign by (simp add: ecdsaSigner_Sign_def Let_def)
  have t: "t \<le> xe_order E c div 2" "0 \<le> t" "t < xe_order E c" using range by (auto simp: t_def)
  have "ECDSASignature_Unmarshal (ECDSASignature_Marshal \<lparr>sig_R = r, sig_S = t\<rparr>) = Some (\<lparr>sig_R = r, sig_S = t\<rparr>, [])"
    using range t order(2) by (intro ECDSASignature_roundtrip) auto
  moreover have "xe_ecdsa_Verify E (EcdsaKey c k) (xe_Sha256 E m) r t" using valid by (simp add: t_def)
  ultimately have accepted: "ecdsaVerifier_Verify E (EcdsaKey c k) m (ECDSASignature_Marshal \<lparr>sig_R = r, sig_S = t\<rparr>) = Inr ()"
    using t low by (simp add: ecdsaVerifier_Verify_def Let_def)
  have lows: "\<exists>t rest. ECDSASignature_Unmarshal raw = Some (t, rest) \<and> 2 * sig_S t \<le> xe_order E c \<and>
      xe_ecdsa_Verify E (EcdsaKey c k) (xe_Sha256 E msg) (sig_R t) (sig_S t)"
    if "ecdsaVerifier_Verify E (EcdsaKey c k) msg raw = Inr ()" for msg raw
    using that low by (auto simp: ecdsaVerifier_Verify_def Let_def split: option.splits if_splits)
  show ?thesis
    unfolding sigma using accepted lows [OF accepted] lows by blast
qed

definition example_x509 :: x509_env where
  "example_x509 =
     \<lparr>xe_order = \<lambda>_. 7, xe_Sha256 = \<lambda>m. take 32 m, xe_ecdsa_Verify = \<lambda>_ _ r s. r = 1 \<and> (s = 5 \<or> s = 2),
      xe_ecdsa_Sign = \<lambda>_ _. Some (1, 5), xe_pem_Decode = \<lambda>b. Some (''PUBLIC KEY'', b),
      xe_ParsePKCS8PrivateKey = \<lambda>_. False, xe_ParseCertificate = \<lambda>b. Some (EcdsaKey P256 b, ''alice@org''),
      xe_ParsePKIXPublicKey = \<lambda>b. Some (EcdsaKey P256 b), xe_MarshalPKIXPublicKey = \<lambda>_. None,
      xe_json_AuditInfo = \<lambda>b. Some (string_of_bytes b, []), xe_json_AuditInfo_Marshal = \<lambda>(e, _). Some (bytes_of_string e)\<rparr>"

theorem ecdsa_sign_verify_witness:
  "\<exists>sigma. ecdsaSigner_Sign example_x509 (EcdsaKey P256 [1]) [9] = Inr sigma \<and>
     (\<exists>t rest. ECDSASignature_Unmarshal sigma = Some (t, rest) \<and> 2 * sig_S t \<le> 7) \<and>
     ecdsaVerifier_Verify example_x509 (EcdsaKey P256 [1]) [9] sigma = Inr ()"
proof -
  have env: "xe_order example_x509 P256 = 7"
    "xe_ecdsa_Sign example_x509 (EcdsaKey P256 [1]) (xe_Sha256 example_x509 [9]) = Some (1, 5)"
    "xe_ecdsa_Verify example_x509 (EcdsaKey P256 [1]) (xe_Sha256 example_x509 [9]) 1 5"
    "xe_ecdsa_Verify example_x509 (EcdsaKey P256 [1]) (xe_Sha256 example_x509 [9]) 1 (7 - 5)"
    by (simp_all add: example_x509_def)
  show ?thesis
    using ecdsa_sign_verify [of example_x509 P256 "[1]" "[9]" 1 5] env by auto
qed

end
