(* ===== verification/Deserializers.thy ===== *)
theory Deserializers
  imports Composite_Identity X509
begin

text \<open>
  The deserializer that dispatches on the type of an identity
  (\<open>src/token/services/identity/deserializer\<close>), and the one the fabtoken driver builds
  (\<open>NewDeserializer\<close> and \<open>NewEIDRHDeserializer\<close> of \<open>src/token/core/fabtoken/v1/driver/deserializer.go\<close>,
  with \<open>src/token/core/common/deserializer.go\<close>): X.509 identities, scripts, multi-signature and
  policy identities, the last three with the multiplexer itself as the deserializer of their
  components.

  That knot is tied with fuel: \<open>fab_des E (Suc f)\<close> registers deserializers whose parent is
  \<open>fab_des E f\<close>. The lemmas show that fuel above the levels the nesting budget has left changes
  nothing, so that the functions with just that fuel satisfy the equations of the code, in which
  the multiplexer is its own parent: deserialization and matching terminate.
\<close>

section \<open>The multiplexer\<close>

record tvd =
  tvd_DeserializeVerifier :: "nesting_ctx \<Rightarrow> identity_type \<Rightarrow> bytes \<Rightarrow> go_error + go_error verifier option"
  tvd_Recipients :: "identity \<Rightarrow> identity_type \<Rightarrow> bytes \<Rightarrow> go_error + identity list"
  tvd_GetAuditInfo :: "nesting_ctx \<Rightarrow> identity \<Rightarrow> identity_type \<Rightarrow> bytes \<Rightarrow> audit_provider \<Rightarrow> go_error + bytes"
  tvd_GetAuditInfoMatcher :: "nesting_ctx \<Rightarrow> identity \<Rightarrow> bytes \<Rightarrow> go_error + matcher option"

type_synonym multiplex = "identity_type \<rightharpoonup> tvd list"

definition NewTypedVerifierDeserializerMultiplex :: multiplex where
  "NewTypedVerifierDeserializerMultiplex = Map.empty"

definition AddTypedVerifierDeserializer :: "identity_type \<Rightarrow> tvd \<Rightarrow> multiplex \<Rightarrow> multiplex" where
  "AddTypedVerifierDeserializer typ d v =
     (case v typ of
        None \<Rightarrow> v(typ \<mapsto> [d])
      | Some ds \<Rightarrow> v(typ \<mapsto> ds @ [d]))"

text \<open>
  The loops over the deserializers of a type: the first result wins, the errors are joined. A panic
  is not an error and ends the loop.
\<close>

fun try_each :: "('d \<Rightarrow> go_error + 'r) \<Rightarrow> 'd list \<Rightarrow> go_error list \<Rightarrow> go_error + 'r" where
  "try_each f [] errs = Inl (Joined errs)"
| "try_each f (d # dess) errs =
     (case f d of
        Inl NilPointer \<Rightarrow> Inl NilPointer
      | Inl e \<Rightarrow> try_each f dess (errs @ [e])
      | Inr r \<Rightarrow> Inr r)"

definition Multiplex_DeserializeVerifier ::
    "multiplex \<Rightarrow> nesting_ctx \<Rightarrow> identity \<Rightarrow> go_error + go_error verifier option" where
  "Multiplex_DeserializeVerifier v ctx i =
     bind_sum (wrap_err Decode (UnmarshalTypedIdentity (raw_identity i))) (\<lambda>si.
       case v (Ti_Type si) of
         None \<Rightarrow> Inl (Errorf ''no deserializer found'')
       | Some dess \<Rightarrow> try_each (\<lambda>d. tvd_DeserializeVerifier d ctx (Ti_Type si) (Ti_Identity si)) dess [])"

definition Multiplex_Recipients :: "htlc_env \<Rightarrow> multiplex \<Rightarrow> identity \<Rightarrow> go_error + identity list" where
  "Multiplex_Recipients H v i =
     (if id_IsNone H i then Inr []
      else bind_sum (wrap_err Decode (UnmarshalTypedIdentity (raw_identity i))) (\<lambda>si.
       case v (Ti_Type si) of
         None \<Rightarrow> Inl (Errorf ''no deserializer found'')
       | Some dess \<Rightarrow> try_each (\<lambda>d. tvd_Recipients d i (Ti_Type si) (Ti_Identity si)) dess []))"

definition getMatcher :: "multiplex \<Rightarrow> nesting_ctx \<Rightarrow> identity_type \<Rightarrow> identity \<Rightarrow> bytes \<Rightarrow> go_error + matcher option" where
  "getMatcher v ctx idType i auditInfo =
     (case v idType of
        None \<Rightarrow> Inl (Errorf ''no deserializer found'')
      | Some dess \<Rightarrow> try_each (\<lambda>d. tvd_GetAuditInfoMatcher d ctx i auditInfo) dess [])"

definition TypedAuditInfoMatcher_Match :: "matcher option \<Rightarrow> matcher" where
  "TypedAuditInfoMatcher_Match m ctx i =
     bind_sum (wrap_err Decode (UnmarshalTypedIdentity i)) (\<lambda>recipient. call_matcher m ctx (Ti_Identity recipient))"

definition Multiplex_GetAuditInfoMatcher ::
    "htlc_env \<Rightarrow> multiplex \<Rightarrow> nesting_ctx \<Rightarrow> identity \<Rightarrow> bytes \<Rightarrow> go_error + matcher option" where
  "Multiplex_GetAuditInfoMatcher H v ctx i auditInfo =
     (if id_IsNone H i then Inr None
      else bind_sum (wrap_err Decode (UnmarshalTypedIdentity (raw_identity i))) (\<lambda>si.
        bind_sum (getMatcher v ctx (Ti_Type si) i auditInfo) (\<lambda>m.
          Inr (Some (TypedAuditInfoMatcher_Match m)))))"

definition Multiplex_MatchIdentity :: "multiplex \<Rightarrow> nesting_ctx \<Rightarrow> identity \<Rightarrow> bytes \<Rightarrow> go_error + unit" where
  "Multiplex_MatchIdentity v ctx i ai =
     bind_sum (wrap_err Decode (UnmarshalTypedIdentity (raw_identity i))) (\<lambda>recipient.
     bind_sum (getMatcher v ctx (Ti_Type recipient) i ai) (\<lambda>m. call_matcher m ctx (Ti_Identity recipient)))"

definition Multiplex_GetAuditInfo :: "multiplex \<Rightarrow> nesting_ctx \<Rightarrow> identity \<Rightarrow> audit_provider \<Rightarrow> go_error + bytes" where
  "Multiplex_GetAuditInfo v ctx i p =
     bind_sum (wrap_err Decode (UnmarshalTypedIdentity (raw_identity i))) (\<lambda>si.
       case v (Ti_Type si) of
         None \<Rightarrow> Inl (Errorf ''no deserializer found'')
       | Some dess \<Rightarrow> try_each (\<lambda>d. tvd_GetAuditInfo d ctx i (Ti_Type si) (Ti_Identity si) p) dess [])"

definition NewTypedIdentityVerifierDeserializer ::
    "(nesting_ctx \<Rightarrow> bytes \<Rightarrow> go_error + go_error verifier option) \<Rightarrow>
     (nesting_ctx \<Rightarrow> identity \<Rightarrow> bytes \<Rightarrow> go_error + matcher option) \<Rightarrow> tvd" where
  "NewTypedIdentityVerifierDeserializer VD MD =
     \<lparr>tvd_DeserializeVerifier = \<lambda>ctx typ raw. VD ctx raw,
      tvd_Recipients = \<lambda>i typ raw. Inr [i],
      tvd_GetAuditInfo = \<lambda>ctx i typ raw p. p ctx i,
      tvd_GetAuditInfoMatcher = MD\<rparr>"

section \<open>The deserializer of the driver\<close>

record des_env =
  de_comp :: comp_env
  de_x509 :: x509_env
  de_now :: time

definition x509_tvd :: "des_env \<Rightarrow> tvd" where
  "x509_tvd E =
     NewTypedIdentityVerifierDeserializer (\<lambda>_ raw. x509_DeserializeVerifier (de_x509 E) raw)
       (\<lambda>_ _ ai. bind_sum (x509_GetAuditInfoMatcher (de_x509 E) ai) (\<lambda>m. Inr (Some (\<lambda>_. m))))"

definition htlc_tvd ::
    "des_env \<Rightarrow> (nesting_ctx \<Rightarrow> identity \<Rightarrow> go_error + go_error verifier option) \<Rightarrow>
     (nesting_ctx \<Rightarrow> identity \<Rightarrow> bytes \<Rightarrow> go_error + unit) \<Rightarrow> tvd" where
  "htlc_tvd E DV MI =
     \<lparr>tvd_DeserializeVerifier = \<lambda>ctx typ raw.
        bind_sum (htlc_DeserializeVerifier (ce_htlc (de_comp E)) DV ctx typ raw) (\<lambda>v.
          Inr (Some (Verifier_Verify (ce_htlc (de_comp E)) (de_now E) v))),
      tvd_Recipients = \<lambda>i typ raw. htlc_Recipients (ce_htlc (de_comp E)) typ raw,
      tvd_GetAuditInfo = \<lambda>ctx i typ raw p. htlc_GetAuditInfo (ce_htlc (de_comp E)) p ctx typ raw,
      tvd_GetAuditInfoMatcher = \<lambda>ctx i ai. Inr (Some (AuditInfoMatcher_Match (ce_htlc (de_comp E)) MI ai))\<rparr>"

definition multisig_tvd ::
    "des_env \<Rightarrow> (nesting_ctx \<Rightarrow> identity \<Rightarrow> go_error + go_error verifier option) \<Rightarrow>
     (nesting_ctx \<Rightarrow> identity \<Rightarrow> bytes \<Rightarrow> go_error + matcher option) \<Rightarrow> tvd" where
  "multisig_tvd E DV GM =
     \<lparr>tvd_DeserializeVerifier = \<lambda>ctx typ raw.
        bind_sum (multisig_DeserializeVerifier (de_comp E) DV ctx raw) (\<lambda>vs. Inr (Some (multisig_Verify vs))),
      tvd_Recipients = \<lambda>i typ raw. multisig_Recipients raw,
      tvd_GetAuditInfo = multisig_GetAuditInfo (de_comp E),
      tvd_GetAuditInfoMatcher = \<lambda>ctx i ai.
        bind_sum (multisig_GetAuditInfoMatcher (de_comp E) GM ctx i ai) (\<lambda>ms. Inr (Some (multisig_Match ms)))\<rparr>"

definition policy_tvd ::
    "des_env \<Rightarrow> (nesting_ctx \<Rightarrow> identity \<Rightarrow> go_error + go_error verifier option) \<Rightarrow>
     (nesting_ctx \<Rightarrow> identity \<Rightarrow> bytes \<Rightarrow> go_error + matcher option) \<Rightarrow> tvd" where
  "policy_tvd E DV GM =
     \<lparr>tvd_DeserializeVerifier = \<lambda>ctx typ raw.
        bind_sum (policy_DeserializeVerifier (de_comp E) DV ctx raw) (\<lambda>v. Inr (Some (PolicyVerifier_Verify v))),
      tvd_Recipients = \<lambda>i typ raw. policy_Recipients (de_comp E) raw,
      tvd_GetAuditInfo = policy_GetAuditInfo (de_comp E),
      tvd_GetAuditInfoMatcher = \<lambda>ctx i ai.
        bind_sum (policy_GetAuditInfoMatcher (de_comp E) GM ctx i ai) (\<lambda>ms. Inr (Some (policy_Match (de_comp E) ms)))\<rparr>"

text \<open>\<open>NewDeserializer\<close>, with the methods of the multiplexer that the registered deserializers call.\<close>

definition NewDeserializer ::
    "des_env \<Rightarrow> (nesting_ctx \<Rightarrow> identity \<Rightarrow> go_error + go_error verifier option) \<Rightarrow>
     (nesting_ctx \<Rightarrow> identity \<Rightarrow> bytes \<Rightarrow> go_error + unit) \<Rightarrow>
     (nesting_ctx \<Rightarrow> identity \<Rightarrow> bytes \<Rightarrow> go_error + matcher option) \<Rightarrow> multiplex" where
  "NewDeserializer E DV MI GM =
     (let des = NewTypedVerifierDeserializerMultiplex;
          des = AddTypedVerifierDeserializer X509IdentityType (x509_tvd E) des;
          des = AddTypedVerifierDeserializer ScriptType (htlc_tvd E DV MI) des;
          des = AddTypedVerifierDeserializer Multisig (multisig_tvd E DV GM) des
      in AddTypedVerifierDeserializer Policy (policy_tvd E DV GM) des)"

fun fab_des :: "des_env \<Rightarrow> nat \<Rightarrow> multiplex" where
  "fab_des E 0 = Map.empty"
| "fab_des E (Suc f) =
     NewDeserializer E (Multiplex_DeserializeVerifier (fab_des E f)) (Multiplex_MatchIdentity (fab_des E f))
       (Multiplex_GetAuditInfoMatcher (ce_htlc (de_comp E)) (fab_des E f))"

text \<open>The levels that the nesting budget of a context has left.\<close>

definition levels :: "nesting_ctx \<Rightarrow> nat" where
  "levels ctx = nat (maxDepth (nestingFrom ctx) - nesting_depth (nestingFrom ctx))"

text \<open>The methods of the driver's deserializer (\<open>src/token/core/common/deserializer.go\<close>).\<close>

definition GetOwnerVerifier :: "des_env \<Rightarrow> nesting_ctx \<Rightarrow> identity \<Rightarrow> go_error + go_error verifier option" where
  "GetOwnerVerifier E ctx i = Multiplex_DeserializeVerifier (fab_des E (Suc (levels ctx))) ctx i"

definition GetIssuerVerifier :: "des_env \<Rightarrow> nesting_ctx \<Rightarrow> identity \<Rightarrow> go_error + go_error verifier option" where
  "GetIssuerVerifier E ctx i = Multiplex_DeserializeVerifier (fab_des E (Suc (levels ctx))) ctx i"

definition GetAuditorVerifier :: "des_env \<Rightarrow> nesting_ctx \<Rightarrow> identity \<Rightarrow> go_error + go_error verifier option" where
  "GetAuditorVerifier E ctx i = Multiplex_DeserializeVerifier (fab_des E (Suc (levels ctx))) ctx i"

definition Deserializer_Recipients :: "des_env \<Rightarrow> identity \<Rightarrow> go_error + identity list" where
  "Deserializer_Recipients E i = Multiplex_Recipients (ce_htlc (de_comp E)) (fab_des E 1) i"

text \<open>
  A matcher outlives the call that builds it, so the one returned takes fuel for the context it is
  run in as well.
\<close>

definition Deserializer_GetAuditInfoMatcher :: "des_env \<Rightarrow> nesting_ctx \<Rightarrow> identity \<Rightarrow> bytes \<Rightarrow> go_error + matcher option" where
  "Deserializer_GetAuditInfoMatcher E ctx owner ai =
     (let build = (\<lambda>n. Multiplex_GetAuditInfoMatcher (ce_htlc (de_comp E)) (fab_des E (Suc n)) ctx owner ai) in
      bind_sum (build (levels ctx)) (\<lambda>m. Inr (map_option
        (\<lambda>_ ctx' raw. bind_sum (build (max (levels ctx) (levels ctx'))) (\<lambda>m. call_matcher m ctx' raw)) m)))"

definition Deserializer_MatchIdentity :: "des_env \<Rightarrow> nesting_ctx \<Rightarrow> identity \<Rightarrow> bytes \<Rightarrow> go_error + unit" where
  "Deserializer_MatchIdentity E ctx i ai = Multiplex_MatchIdentity (fab_des E (Suc (levels ctx))) ctx i ai"

definition Deserializer_GetAuditInfo :: "des_env \<Rightarrow> nesting_ctx \<Rightarrow> identity \<Rightarrow> audit_provider \<Rightarrow> go_error + bytes" where
  "Deserializer_GetAuditInfo E ctx i p = Multiplex_GetAuditInfo (fab_des E 1) ctx i p"

section \<open>Enrollment identifiers\<close>

type_synonym eidrh = "identity_type \<rightharpoonup> audit_deserializer"

definition EIDRH_DeserializeAuditInfo :: "eidrh \<Rightarrow> audit_deserializer" where
  "EIDRH_DeserializeAuditInfo e ctx i auditInfo =
     (if length auditInfo = 0 then Inl (Errorf ''nil audit info'')
      else bind_sum (wrap_err Decode (UnmarshalTypedIdentity (raw_identity i))) (\<lambda>si.
        case e (Ti_Type si) of
          None \<Rightarrow> Inl (Errorf ''no deserializer found'')
        | Some d \<Rightarrow> d ctx (Some (Ti_Identity si)) auditInfo))"

definition EIDRH_AddDeserializer :: "identity_type \<Rightarrow> audit_deserializer \<Rightarrow> eidrh \<Rightarrow> eidrh" where
  "EIDRH_AddDeserializer typ d e = e(typ \<mapsto> d)"

definition GetEIDAndRH :: "eidrh \<Rightarrow> nesting_ctx \<Rightarrow> identity \<Rightarrow> bytes \<Rightarrow> go_error + string \<times> string" where
  "GetEIDAndRH e ctx i auditInfo =
     bind_sum (EIDRH_DeserializeAuditInfo e ctx i auditInfo) (\<lambda>ai.
       case ai of
         None \<Rightarrow> Inl NilPointer
       | Some a \<Rightarrow> Inr (ai_EnrollmentID a, ai_RevocationHandle a))"

definition EIDRH_GetEnrollmentID :: "eidrh \<Rightarrow> nesting_ctx \<Rightarrow> identity \<Rightarrow> bytes \<Rightarrow> go_error + string" where
  "EIDRH_GetEnrollmentID e ctx i auditInfo =
     bind_sum (EIDRH_DeserializeAuditInfo e ctx i auditInfo) (\<lambda>ai.
       case ai of None \<Rightarrow> Inl NilPointer | Some a \<Rightarrow> Inr (ai_EnrollmentID a))"

definition EIDRH_GetRevocationHandler :: "eidrh \<Rightarrow> nesting_ctx \<Rightarrow> identity \<Rightarrow> bytes \<Rightarrow> go_error + string" where
  "EIDRH_GetRevocationHandler e ctx i auditInfo =
     bind_sum (EIDRH_DeserializeAuditInfo e ctx i auditInfo) (\<lambda>ai.
       case ai of None \<Rightarrow> Inl NilPointer | Some a \<Rightarrow> Inr (ai_RevocationHandle a))"

definition x509_DeserializeAuditInfo :: "des_env \<Rightarrow> audit_deserializer" where
  "x509_DeserializeAuditInfo E ctx i raw =
     bind_sum (x509_AuditInfo_FromBytes (de_x509 E) raw) (\<lambda>ai.
       Inr (Some \<lparr>ai_EnrollmentID = xai_EID ai, ai_RevocationHandle = x509_RevocationHandle ai\<rparr>))"

definition NewEIDRHDeserializer :: "des_env \<Rightarrow> audit_deserializer \<Rightarrow> eidrh" where
  "NewEIDRHDeserializer E d =
     (let e = EIDRH_AddDeserializer X509IdentityType (x509_DeserializeAuditInfo E) Map.empty;
          e = EIDRH_AddDeserializer ScriptType
                (\<lambda>ctx i raw. htlc_DeserializeAuditInfo (ce_htlc (de_comp E)) (d ctx) (raw_identity i) raw) e;
          e = EIDRH_AddDeserializer Multisig (multisig_DeserializeAuditInfo (de_comp E)) e
      in EIDRH_AddDeserializer Policy (policy_DeserializeAuditInfo (de_comp E) (Some d)) e)"

text \<open>The deserializer is its own parent here too; fuel bounds the scripts and policies followed.\<close>

fun fab_eidrh :: "des_env \<Rightarrow> nat \<Rightarrow> eidrh" where
  "fab_eidrh E 0 = Map.empty"
| "fab_eidrh E (Suc f) = NewEIDRHDeserializer E (EIDRH_DeserializeAuditInfo (fab_eidrh E f))"

section \<open>Termination\<close>

lemma levels_Enter: "EnterCompositeIdentity ctx = Inr ctx' \<Longrightarrow> Suc (levels ctx') = levels ctx"
  by (auto simp: EnterCompositeIdentity_def Let_def levels_def nestingFrom_def split: if_splits option.splits)

lemma levels_0_Enter: "levels ctx = 0 \<Longrightarrow> \<exists>e. EnterCompositeIdentity ctx = Inl e"
  by (auto simp: EnterCompositeIdentity_def Let_def levels_def)

lemma NewDeserializer_lookup:
  "NewDeserializer E DV MI GM t =
     (if t = X509IdentityType then Some [x509_tvd E]
      else if t = ScriptType then Some [htlc_tvd E DV MI]
      else if t = Multisig then Some [multisig_tvd E DV GM]
      else if t = Policy then Some [policy_tvd E DV GM] else None)"
  by (simp add: NewDeserializer_def NewTypedVerifierDeserializerMultiplex_def AddTypedVerifierDeserializer_def
      Let_def ScriptType_def Multisig_def Policy_def identity_type_defs)

lemma bind_sum_cong_Inr: "m = m' \<Longrightarrow> (\<And>a. m' = Inr a \<Longrightarrow> f a = g a) \<Longrightarrow> bind_sum m f = bind_sum m' g"
  by (rule bind_sum_cong)

lemma map_sum_list_cong: "(\<And>x. x \<in> set xs \<Longrightarrow> f x = g x) \<Longrightarrow> map_sum_list f xs = map_sum_list g xs"
  by (induction xs) auto

text \<open>Parents that agree below the levels of a context give the same verifiers there.\<close>

definition agree_verifiers ::
    "nat \<Rightarrow> (nesting_ctx \<Rightarrow> identity \<Rightarrow> go_error + go_error verifier option) \<Rightarrow>
     (nesting_ctx \<Rightarrow> identity \<Rightarrow> go_error + go_error verifier option) \<Rightarrow> bool" where
  "agree_verifiers n D D' \<longleftrightarrow> (\<forall>ctx i. levels ctx < n \<longrightarrow> D ctx i = D' ctx i)"

lemma agree_Enter:
  "agree_verifiers (levels ctx) D D' \<Longrightarrow> wrap_err w (EnterCompositeIdentity ctx) = Inr ctx' \<Longrightarrow> D ctx' i = D' ctx' i"
  using levels_Enter [of ctx ctx'] by (auto simp: agree_verifiers_def sum_elims)

lemma composite_verifiers_agree:
  assumes "agree_verifiers (levels ctx) D D'"
  shows "htlc_DeserializeVerifier H D ctx typ raw = htlc_DeserializeVerifier H D' ctx typ raw"
    and "multisig_DeserializeVerifier C D ctx raw = multisig_DeserializeVerifier C D' ctx raw"
    and "policy_DeserializeVerifier C D ctx raw = policy_DeserializeVerifier C D' ctx raw"
proof -
  note enter = agree_Enter [OF assms]
  show "htlc_DeserializeVerifier H D ctx typ raw = htlc_DeserializeVerifier H D' ctx typ raw"
    by (auto simp: htlc_DeserializeVerifier_def enter intro!: bind_sum_cong_Inr split: option.split)
  show "multisig_DeserializeVerifier C D ctx raw = multisig_DeserializeVerifier C D' ctx raw"
    unfolding multisig_DeserializeVerifier_def
    by (intro bind_sum_cong_Inr refl if_cong map_sum_list_cong) (rule enter)
  show "policy_DeserializeVerifier C D ctx raw = policy_DeserializeVerifier C D' ctx raw"
    unfolding policy_DeserializeVerifier_def
    by (intro bind_sum_cong_Inr refl if_cong map_sum_list_cong) (rule enter)
qed

lemma NewDeserializer_verifiers_agree:
  assumes "agree_verifiers (levels ctx) D D'"
  shows "Multiplex_DeserializeVerifier (NewDeserializer E D MI GM) ctx i =
    Multiplex_DeserializeVerifier (NewDeserializer E D' MI' GM') ctx i"
  unfolding Multiplex_DeserializeVerifier_def
  by (rule bind_sum_cong_Inr)
    (auto simp: NewDeserializer_lookup htlc_tvd_def multisig_tvd_def policy_tvd_def composite_verifiers_agree [OF assms])

lemma fab_des_verifiers:
  "levels ctx < f \<Longrightarrow> levels ctx < g \<Longrightarrow>
   Multiplex_DeserializeVerifier (fab_des E f) ctx i = Multiplex_DeserializeVerifier (fab_des E g) ctx i"
proof (induction f arbitrary: ctx i g)
  case (Suc f)
  then obtain g' where g: "g = Suc g'" by (cases g) auto
  have "agree_verifiers (levels ctx) (Multiplex_DeserializeVerifier (fab_des E f)) (Multiplex_DeserializeVerifier (fab_des E g'))"
    unfolding agree_verifiers_def
  proof (intro allI impI)
    fix c j assume "levels c < levels ctx"
    then have "levels c < f" "levels c < g'" using Suc.prems g by auto
    then show "Multiplex_DeserializeVerifier (fab_des E f) c j = Multiplex_DeserializeVerifier (fab_des E g') c j"
      by (rule Suc.IH)
  qed
  then show ?case unfolding g fab_des.simps by (rule NewDeserializer_verifiers_agree)
qed simp

lemma GetOwnerVerifier_fuel: "levels ctx < f \<Longrightarrow> GetOwnerVerifier E ctx i = Multiplex_DeserializeVerifier (fab_des E f) ctx i"
  unfolding GetOwnerVerifier_def by (rule fab_des_verifiers) simp_all

subsection \<open>Matchers\<close>

text \<open>
  A matcher is a function of the context it is run in, so two matchers are compared on the contexts
  with at most \<open>n\<close> levels left.
\<close>

definition agree_matchers :: "nat \<Rightarrow> matcher option \<Rightarrow> matcher option \<Rightarrow> bool" where
  "agree_matchers n = rel_option (\<lambda>m m'. \<forall>ctx raw. levels ctx \<le> n \<longrightarrow> m ctx raw = m' ctx raw)"

lemma agree_matchers_simps:
  "agree_matchers n None None"
  "agree_matchers n (Some m) (Some m') \<longleftrightarrow> (\<forall>ctx raw. levels ctx \<le> n \<longrightarrow> m ctx raw = m' ctx raw)"
  by (simp_all add: agree_matchers_def)

abbreviation agree_results :: "nat \<Rightarrow> go_error + matcher option \<Rightarrow> go_error + matcher option \<Rightarrow> bool" where
  "agree_results n \<equiv> rel_sum (=) (agree_matchers n)"

lemma rel_bind_sum:
  assumes "rel_sum (=) R m m'" and "\<And>a b. m = Inr a \<Longrightarrow> R a b \<Longrightarrow> rel_sum (=) S (f a) (g b)"
  shows "rel_sum (=) S (bind_sum m f) (bind_sum m' g)"
  using assms by (cases m; cases m') auto

lemma rel_map_sum_list:
  "(\<And>x. x \<in> set xs \<Longrightarrow> rel_sum (=) R (f x) (g x)) \<Longrightarrow> rel_sum (=) (list_all2 R) (map_sum_list f xs) (map_sum_list g xs)"
proof (induction xs)
  case (Cons x xs)
  have "rel_sum (=) R (f x) (g x)" and "rel_sum (=) (list_all2 R) (map_sum_list f xs) (map_sum_list g xs)"
    using Cons by auto
  then show ?case by (cases "f x"; cases "g x"; cases "map_sum_list f xs"; cases "map_sum_list g xs") auto
qed simp

lemma call_matcher_agree: "agree_matchers n m m' \<Longrightarrow> levels ctx \<le> n \<Longrightarrow> call_matcher m ctx raw = call_matcher m' ctx raw"
  by (auto simp: agree_matchers_def call_matcher_def elim!: option.rel_cases)

lemma members_agree:
  assumes "list_all2 (agree_matchers n) ms ms'" and "levels ctx \<le> n"
  shows "fold_sum (\<lambda>m _. member_match ctx m) (zip ms is) () = fold_sum (\<lambda>m _. member_match ctx m) (zip ms' is) ()"
  using assms
proof (induction ms ms' arbitrary: "is" rule: list_all2_induct)
  case (Cons m ms m' ms')
  then show ?case
    by (cases "is"; cases "call_matcher m' ctx (raw_identity (hd is))")
      (auto simp: member_match_def call_matcher_agree [of n m m'])
qed simp

lemma composite_Match_agree:
  assumes "list_all2 (agree_matchers n) ms ms'" and "levels ctx \<le> Suc n"
  shows "multisig_Match ms ctx raw = multisig_Match ms' ctx raw" and "policy_Match C ms ctx raw = policy_Match C ms' ctx raw"
proof -
  have len: "length ms = length ms'" using assms(1) by (rule list_all2_lengthD)
  have below: "levels ctx' \<le> n" if "wrap_err TooDeep (EnterCompositeIdentity ctx) = Inr ctx'" for ctx'
    using that levels_Enter [of ctx ctx'] assms(2) by (auto simp: sum_elims)
  show "multisig_Match ms ctx raw = multisig_Match ms' ctx raw"
    unfolding multisig_Match_def len
    by (intro bind_sum_cong_Inr refl if_cong members_agree [OF assms(1)]) (rule below)
  show "policy_Match C ms ctx raw = policy_Match C ms' ctx raw"
    unfolding policy_Match_def len
    by (intro bind_sum_cong_Inr refl if_cong members_agree [OF assms(1)]) (rule below)
qed

definition agree_parents ::
    "nat \<Rightarrow> (nesting_ctx \<Rightarrow> identity \<Rightarrow> bytes \<Rightarrow> go_error + unit) \<Rightarrow> (nesting_ctx \<Rightarrow> identity \<Rightarrow> bytes \<Rightarrow> go_error + unit) \<Rightarrow>
     (nesting_ctx \<Rightarrow> identity \<Rightarrow> bytes \<Rightarrow> go_error + matcher option) \<Rightarrow>
     (nesting_ctx \<Rightarrow> identity \<Rightarrow> bytes \<Rightarrow> go_error + matcher option) \<Rightarrow> bool" where
  "agree_parents n MI MI' GM GM' \<longleftrightarrow>
     (\<forall>k < n. \<forall>ctx i ai. levels ctx \<le> k \<longrightarrow> MI ctx i ai = MI' ctx i ai \<and> agree_results k (GM ctx i ai) (GM' ctx i ai))"

lemma htlc_Match_agree:
  assumes "agree_parents n MI MI' GM GM'" and "levels ctx \<le> n"
  shows "AuditInfoMatcher_Match H MI ai ctx raw = AuditInfoMatcher_Match H MI' ai ctx raw"
proof -
  have parent: "MI ctx' i a = MI' ctx' i a" if "wrap_err TooDeep (EnterCompositeIdentity ctx) = Inr ctx'" for ctx' i a
    using that levels_Enter [of ctx ctx'] assms by (cases n) (auto simp: agree_parents_def sum_elims)
  show ?thesis
    unfolding AuditInfoMatcher_Match_def
    by (intro bind_sum_cong_Inr refl option.case_cong) (auto simp: parent intro!: bind_sum_cong_Inr split: prod.splits)
qed

lemma composite_matchers_agree:
  assumes "agree_parents n MI MI' GM GM'" and "levels ctx \<le> n"
  shows "rel_sum (=) (list_all2 (agree_matchers (n - 1)))
      (multisig_GetAuditInfoMatcher C GM ctx i ai) (multisig_GetAuditInfoMatcher C GM' ctx i ai)"
    and "rel_sum (=) (list_all2 (agree_matchers (n - 1)))
      (policy_GetAuditInfoMatcher C GM ctx i ai) (policy_GetAuditInfoMatcher C GM' ctx i ai)"
proof -
  have parent: "agree_results (n - 1) (GM ctx' j a) (GM' ctx' j a)"
    if "wrap_err TooDeep (EnterCompositeIdentity ctx) = Inr ctx'" for ctx' j a
    using that levels_Enter [of ctx ctx'] assms by (cases n) (auto simp: agree_parents_def sum_elims)
  have members: "rel_sum (=) (list_all2 (agree_matchers (n - 1))) (map_sum_list (\<lambda>(i, info). GM ctx' i info) zs)
      (map_sum_list (\<lambda>(i, info). GM' ctx' i info) zs)"
    if "wrap_err TooDeep (EnterCompositeIdentity ctx) = Inr ctx'" for ctx' zs
    by (rule rel_map_sum_list) (use parent [OF that] in \<open>auto simp del: One_nat_def\<close>)
  show "rel_sum (=) (list_all2 (agree_matchers (n - 1)))
      (multisig_GetAuditInfoMatcher C GM ctx i ai) (multisig_GetAuditInfoMatcher C GM' ctx i ai)"
    by (cases "wrap_err TooDeep (EnterCompositeIdentity ctx)")
      (auto simp: multisig_GetAuditInfoMatcher_def members sum.rel_eq simp del: One_nat_def split: option.split
        intro!: rel_bind_sum [where R = "(=)"])
  show "rel_sum (=) (list_all2 (agree_matchers (n - 1)))
      (policy_GetAuditInfoMatcher C GM ctx i ai) (policy_GetAuditInfoMatcher C GM' ctx i ai)"
    by (cases "wrap_err TooDeep (EnterCompositeIdentity ctx)")
      (auto simp: policy_GetAuditInfoMatcher_def members sum.rel_eq simp del: One_nat_def split: option.split
        intro!: rel_bind_sum [where R = "(=)"])
qed

lemma composite_matcher_results:
  assumes "rel_sum (=) (list_all2 (agree_matchers (n - 1))) r r'"
    and "\<And>ms ms' ctx raw. list_all2 (agree_matchers (n - 1)) ms ms' \<Longrightarrow> levels ctx \<le> n \<Longrightarrow> F ms ctx raw = F ms' ctx raw"
  shows "agree_results n (bind_sum r (\<lambda>ms. Inr (Some (F ms)))) (bind_sum r' (\<lambda>ms. Inr (Some (F ms))))"
  using assms(1) by (rule rel_bind_sum) (auto simp: agree_matchers_def intro: assms(2))

lemma getMatcher_agree:
  assumes "agree_parents n MI MI' GM GM'" and "levels ctx \<le> n"
  shows "agree_results n (getMatcher (NewDeserializer E D MI GM) ctx t i ai) (getMatcher (NewDeserializer E D' MI' GM') ctx t i ai)"
proof -
  have le: "levels c \<le> Suc (n - 1)" if "levels c \<le> n" for c using that by simp
  have try_one: "agree_results n (try_each (\<lambda>d. tvd_GetAuditInfoMatcher d ctx i ai) [d] [])
      (try_each (\<lambda>d. tvd_GetAuditInfoMatcher d ctx i ai) [d'] [])"
    if "agree_results n (tvd_GetAuditInfoMatcher d ctx i ai) (tvd_GetAuditInfoMatcher d' ctx i ai)" for d d'
    using that
    by (cases "tvd_GetAuditInfoMatcher d ctx i ai"; cases "tvd_GetAuditInfoMatcher d' ctx i ai") (auto split: go_error.split)
  have x509: "agree_results n r r" for r
    by (cases r) (auto simp: agree_matchers_def option.rel_refl)
  note composite = composite_matchers_agree [OF assms]
  have htlc: "agree_results n (tvd_GetAuditInfoMatcher (htlc_tvd E D MI) ctx i ai) (tvd_GetAuditInfoMatcher (htlc_tvd E D' MI') ctx i ai)"
    using htlc_Match_agree [OF assms(1)] by (simp add: agree_matchers_def htlc_tvd_def)
  have multisig: "agree_results n (tvd_GetAuditInfoMatcher (multisig_tvd E D GM) ctx i ai) (tvd_GetAuditInfoMatcher (multisig_tvd E D' GM') ctx i ai)"
    unfolding multisig_tvd_def tvd.simps
    by (rule composite_matcher_results [OF composite(1)]) (rule composite_Match_agree(1), assumption, erule le)
  have policy: "agree_results n (tvd_GetAuditInfoMatcher (policy_tvd E D GM) ctx i ai) (tvd_GetAuditInfoMatcher (policy_tvd E D' GM') ctx i ai)"
    unfolding policy_tvd_def tvd.simps
    by (rule composite_matcher_results [OF composite(2)]) (rule composite_Match_agree(2), assumption, erule le)
  consider "t = X509IdentityType" | "t \<noteq> X509IdentityType" "t = ScriptType"
    | "t \<noteq> X509IdentityType" "t \<noteq> ScriptType" "t = Multisig"
    | "t \<noteq> X509IdentityType" "t \<noteq> ScriptType" "t \<noteq> Multisig" by blast
  then show ?thesis
  proof cases
    case 1
    then show ?thesis unfolding getMatcher_def NewDeserializer_lookup by (simp only: if_True option.case simp_thms) (rule x509)
  next
    case 2
    then show ?thesis unfolding getMatcher_def NewDeserializer_lookup
      using try_one [OF htlc] by (simp del: try_each.simps)
  next
    case 3
    then show ?thesis unfolding getMatcher_def NewDeserializer_lookup
      using try_one [OF multisig] by (simp del: try_each.simps)
  next
    case 4
    then show ?thesis unfolding getMatcher_def NewDeserializer_lookup
      using try_one [OF policy] by (simp del: try_each.simps)
  qed
qed

lemma matchers_agree:
  assumes "levels ctx \<le> n" and "\<And>t. agree_results n (getMatcher v ctx t i ai) (getMatcher v' ctx t i ai)"
  shows "agree_results n (Multiplex_GetAuditInfoMatcher H v ctx i ai) (Multiplex_GetAuditInfoMatcher H v' ctx i ai)"
    and "Multiplex_MatchIdentity v ctx i ai = Multiplex_MatchIdentity v' ctx i ai"
proof -
  have match: "TypedAuditInfoMatcher_Match m c raw = TypedAuditInfoMatcher_Match m' c raw"
    if "agree_matchers n m m'" "levels c \<le> n" for m m' c raw
    unfolding TypedAuditInfoMatcher_Match_def
    by (rule bind_sum_cong_Inr [OF refl]) (rule call_matcher_agree [OF that])
  have typed: "agree_results n (bind_sum r (\<lambda>m. Inr (Some (TypedAuditInfoMatcher_Match m))))
      (bind_sum r' (\<lambda>m. Inr (Some (TypedAuditInfoMatcher_Match m))))" if "agree_results n r r'" for r r'
    using that by (cases r; cases r') (auto simp: agree_matchers_simps intro: match)
  show "agree_results n (Multiplex_GetAuditInfoMatcher H v ctx i ai) (Multiplex_GetAuditInfoMatcher H v' ctx i ai)"
  proof (cases "UnmarshalTypedIdentity (raw_identity i)")
    case (Inl e)
    then show ?thesis by (simp add: Multiplex_GetAuditInfoMatcher_def agree_matchers_def)
  next
    case (Inr si)
    then show ?thesis using typed [OF assms(2)] by (simp add: Multiplex_GetAuditInfoMatcher_def agree_matchers_simps)
  qed
  have run: "bind_sum r (\<lambda>m. call_matcher m ctx raw) = bind_sum r' (\<lambda>m. call_matcher m ctx raw)"
    if "agree_results n r r'" for r r' raw
    using that by (cases r; cases r') (auto intro: call_matcher_agree [OF _ assms(1)])
  show "Multiplex_MatchIdentity v ctx i ai = Multiplex_MatchIdentity v' ctx i ai"
    unfolding Multiplex_MatchIdentity_def by (rule bind_sum_cong_Inr [OF refl]) (rule run [OF assms(2)])
qed

lemma agree_parents_mono: "agree_parents n MI MI' GM GM' \<Longrightarrow> k \<le> n \<Longrightarrow> agree_parents k MI MI' GM GM'"
  unfolding agree_parents_def by (blast intro: less_le_trans)

lemma fab_des_parents:
  "n \<le> f \<Longrightarrow> n \<le> g \<Longrightarrow> agree_parents n (Multiplex_MatchIdentity (fab_des E f)) (Multiplex_MatchIdentity (fab_des E g))
     (Multiplex_GetAuditInfoMatcher H (fab_des E f)) (Multiplex_GetAuditInfoMatcher H (fab_des E g))"
proof (induction n arbitrary: f g H)
  case 0
  show ?case by (simp add: agree_parents_def)
next
  case (Suc n)
  then obtain f' g' where fg: "f = Suc f'" "g = Suc g'" "n \<le> f'" "n \<le> g'" by (cases f; cases g) auto
  show ?case
    unfolding agree_parents_def
  proof (intro allI impI)
    fix k ctx i ai assume "k < Suc n" and k: "levels ctx \<le> k"
    then have "agree_parents k (Multiplex_MatchIdentity (fab_des E f')) (Multiplex_MatchIdentity (fab_des E g'))
       (Multiplex_GetAuditInfoMatcher H' (fab_des E f')) (Multiplex_GetAuditInfoMatcher H' (fab_des E g'))" for H'
      using Suc.IH [OF fg(3,4)] by (blast intro: agree_parents_mono less_Suc_eq_le [THEN iffD1])
    then have "agree_results k (getMatcher (fab_des E f) ctx t i ai) (getMatcher (fab_des E g) ctx t i ai)" for t
      unfolding fg fab_des.simps using k by (rule getMatcher_agree)
    from matchers_agree [OF k this]
    show "Multiplex_MatchIdentity (fab_des E f) ctx i ai = Multiplex_MatchIdentity (fab_des E g) ctx i ai \<and>
       agree_results k (Multiplex_GetAuditInfoMatcher H (fab_des E f) ctx i ai) (Multiplex_GetAuditInfoMatcher H (fab_des E g) ctx i ai)"
      by blast
  qed
qed

lemma fab_des_matchers:
  assumes "levels ctx \<le> k" and "k < f" and "k < g"
  shows "agree_results k (Multiplex_GetAuditInfoMatcher H (fab_des E f) ctx i ai) (Multiplex_GetAuditInfoMatcher H (fab_des E g) ctx i ai)"
    and "Multiplex_MatchIdentity (fab_des E f) ctx i ai = Multiplex_MatchIdentity (fab_des E g) ctx i ai"
proof -
  have "agree_parents (Suc k) (Multiplex_MatchIdentity (fab_des E f)) (Multiplex_MatchIdentity (fab_des E g))
     (Multiplex_GetAuditInfoMatcher H (fab_des E f)) (Multiplex_GetAuditInfoMatcher H (fab_des E g))"
    by (rule fab_des_parents) (use assms in simp_all)
  then show "agree_results k (Multiplex_GetAuditInfoMatcher H (fab_des E f) ctx i ai) (Multiplex_GetAuditInfoMatcher H (fab_des E g) ctx i ai)"
    "Multiplex_MatchIdentity (fab_des E f) ctx i ai = Multiplex_MatchIdentity (fab_des E g) ctx i ai"
    using assms(1) by (auto simp: agree_parents_def)
qed

lemma Deserializer_GetAuditInfoMatcher_agree:
  assumes "levels ctx \<le> k" and "k < f"
  shows "agree_results k (Multiplex_GetAuditInfoMatcher (ce_htlc (de_comp E)) (fab_des E f) ctx i ai)
    (Deserializer_GetAuditInfoMatcher E ctx i ai)"
proof -
  define build where "build n = Multiplex_GetAuditInfoMatcher (ce_htlc (de_comp E)) (fab_des E n) ctx i ai" for n
  have agree: "agree_results m (build f) (build (Suc m))" if "levels ctx \<le> m" "m \<le> k" for m
    unfolding build_def by (rule fab_des_matchers(1)) (use that assms in simp_all)
  have def: "Deserializer_GetAuditInfoMatcher E ctx i ai = bind_sum (build (Suc (levels ctx))) (\<lambda>m. Inr (map_option
      (\<lambda>_ ctx' raw. bind_sum (build (Suc (max (levels ctx) (levels ctx')))) (\<lambda>m. call_matcher m ctx' raw)) m))"
    by (simp add: Deserializer_GetAuditInfoMatcher_def build_def Let_def)
  have "agree_results k (build f) (Deserializer_GetAuditInfoMatcher E ctx i ai)"
  proof (cases "build f")
    case (Inl e)
    then show ?thesis using agree [OF order_refl assms(1)] by (cases "build (Suc (levels ctx))") (auto simp: def)
  next
    case (Inr m)
    then obtain m0 where m0: "build (Suc (levels ctx)) = Inr m0" "agree_matchers (levels ctx) m m0"
      using agree [OF order_refl assms(1)] by (cases "build (Suc (levels ctx))") auto
    show ?thesis
    proof (cases m)
      case None
      then show ?thesis using Inr m0 by (simp add: def agree_matchers_def)
    next
      case (Some g)
      then obtain g0 where g0: "m0 = Some g0" using m0(2) by (auto simp: agree_matchers_def elim: option.rel_cases)
      have "g ctx' raw = bind_sum (build (Suc (max (levels ctx) (levels ctx')))) (\<lambda>m. call_matcher m ctx' raw)"
        if "levels ctx' \<le> k" for ctx' raw
      proof -
        have le: "max (levels ctx) (levels ctx') \<le> k" using that assms(1) by simp
        obtain m1 where m1: "build (Suc (max (levels ctx) (levels ctx'))) = Inr m1"
            "agree_matchers (max (levels ctx) (levels ctx')) m m1"
          using agree [OF _ le] Inr by (cases "build (Suc (max (levels ctx) (levels ctx')))") auto
        from call_matcher_agree [OF m1(2), of ctx' raw] show ?thesis using m1(1) Some by (simp add: call_matcher_def)
      qed
      then show ?thesis using Inr m0(1) Some g0 by (simp add: def agree_matchers_def)
    qed
  qed
  then show ?thesis unfolding build_def .
qed

text \<open>
  C11: Deserialization terminates although the multiplexer is the parent of its own deserializers.
  With fuel for the levels that the context's nesting budget has left, verifiers of owners, issuers
  and auditors and the matching of identities satisfy the recursive equations of the code: each is
  the result of the multiplexer whose registered deserializers call that same function on the
  components.
\<close>

theorem deserialization_terminates:
  "GetOwnerVerifier E ctx i =
     Multiplex_DeserializeVerifier
       (NewDeserializer E (GetOwnerVerifier E) (Deserializer_MatchIdentity E) (Deserializer_GetAuditInfoMatcher E)) ctx i \<and>
   GetIssuerVerifier E = GetOwnerVerifier E \<and> GetAuditorVerifier E = GetOwnerVerifier E \<and>
   Deserializer_MatchIdentity E ctx i ai =
     Multiplex_MatchIdentity
       (NewDeserializer E (GetOwnerVerifier E) (Deserializer_MatchIdentity E) (Deserializer_GetAuditInfoMatcher E)) ctx i ai"
proof (intro conjI)
  have "agree_verifiers (levels ctx) (Multiplex_DeserializeVerifier (fab_des E (levels ctx))) (GetOwnerVerifier E)"
    by (simp add: agree_verifiers_def GetOwnerVerifier_fuel)
  from NewDeserializer_verifiers_agree [OF this]
  show "GetOwnerVerifier E ctx i = Multiplex_DeserializeVerifier
       (NewDeserializer E (GetOwnerVerifier E) (Deserializer_MatchIdentity E) (Deserializer_GetAuditInfoMatcher E)) ctx i"
    by (simp add: GetOwnerVerifier_def)
  show "GetIssuerVerifier E = GetOwnerVerifier E" "GetAuditorVerifier E = GetOwnerVerifier E"
    by (simp_all add: fun_eq_iff GetIssuerVerifier_def GetAuditorVerifier_def GetOwnerVerifier_def)
  let ?H = "ce_htlc (de_comp E)"
  have "agree_parents (levels ctx) (Multiplex_MatchIdentity (fab_des E (levels ctx))) (Deserializer_MatchIdentity E)
      (Multiplex_GetAuditInfoMatcher ?H (fab_des E (levels ctx))) (Deserializer_GetAuditInfoMatcher E)"
    unfolding agree_parents_def Deserializer_MatchIdentity_def
    by (intro allI impI conjI fab_des_matchers(2) [OF order_refl] Deserializer_GetAuditInfoMatcher_agree) simp_all
  from matchers_agree(2) [OF order_refl getMatcher_agree [OF this order_refl]]
  show "Deserializer_MatchIdentity E ctx i ai = Multiplex_MatchIdentity
       (NewDeserializer E (GetOwnerVerifier E) (Deserializer_MatchIdentity E) (Deserializer_GetAuditInfoMatcher E)) ctx i ai"
    by (simp add: Deserializer_MatchIdentity_def)
qed

end
