(* ===== verification/Spec2Isabelle.thy ===== *)
theory Spec2Isabelle
  imports Token Identity_Codec Ledger_History Limits Request_Metadata Fabtoken_Properties Deserializers
begin

text \<open>
  A verification library for Panurus, a token layer over permissioned ledgers. The program lets
  clients build token requests (issues and transfers of tokens), collects the signatures of owners,
  issuers and auditors, validates a request on the endorsing side, and writes the outcome to the
  ledger as reads and writes of keys. The library models the side of the program that decides what
  the ledger accepts: everything between the bytes of a request and the keys that are written.

  \<^bold>\<open>Parts and theories.\<close> Paths are under \<open>src/token\<close>.

  \<^item> \<open>Prelude\<close>: results as sums (\<open>'e + 'a\<close>, \<open>Inl\<close> an error), their binds and folds, lists, bytes.
  \<^item> \<open>Quantity\<close> and \<open>Token\<close> (\<open>token/quantity.go\<close>, \<open>token/token.go\<close>): quantities at a precision, in the
    64-bit and in the big-integer representation, tokens and token lists. Sums are exact or an
    error, never wrapped; comparison and subtraction agree with the integers; printing and parsing
    are inverse.
  \<^item> \<open>Identity_Codec\<close> (\<open>services/identity/typed.go\<close>, \<open>services/identity/marshal\<close>): the hand-written
    DER codec of typed identities, its canonicity and its legacy spellings.
  \<^item> \<open>Keys\<close>, \<open>Rwset\<close>, \<open>Translator\<close>, \<open>Ledger_History\<close> (\<open>services/network/common/rws\<close>,
    \<open>services/network/fabric/tcc\<close>, \<open>services/network/fabricx/endorsement/rwset.go\<close>): the composite
    keys of the ledger, the read-write sets, the translator of actions, and histories of
    transactions. \<open>key_separation\<close>, \<open>rw_backend\<close> and \<open>ex_rwset_laws\<close> are the contracts of the keys
    and of the platform; \<open>translator_run\<close> is their client. Kinds of keys never collide, and no
    history spends a token twice.
  \<^item> \<open>Limits\<close> (\<open>driver/limits.go\<close>, \<open>driver/identity_nesting.go\<close>, the limit providers): resource limits
    from the environment and the configuration, which cannot be switched off, and the nesting
    budget of composite identities.
  \<^item> \<open>Request\<close>, \<open>Request_Metadata\<close> (\<open>driver/request.go\<close>, \<open>driver/asn1_fast.go\<close>,
    \<open>driver/marshaller.go\<close>): requests and metadata, their protobuf conversions, and the message that
    is signed, which binds the anchor and all actions.
  \<^item> \<open>Validator\<close> (\<open>core/common\<close>): the request validator, generic in the driver: limits, auditing,
    the cursors over the signatures of each action, the pipelines, and the metadata counters.
  \<^item> \<open>Htlc\<close> (\<open>services/interop/htlc\<close>, \<open>services/identity/interop/htlc\<close>): scripts, claims, reclaims.
  \<^item> \<open>Asn1\<close>, \<open>Fabtoken_Actions\<close>, \<open>Fabtoken_Validator\<close>, \<open>Fabtoken_Properties\<close> (\<open>core/fabtoken/v1\<close>): the
    fabtoken driver, its actions, parameters and validation functions. In an accepted request every
    input is signed by its owner, transfers conserve value, issues and redeems carry an authorised
    issuer, auditors signed, and metadata is accounted for.
  \<^item> \<open>Bool_Policy\<close>, \<open>Composite_Identity\<close>, \<open>X509\<close>, \<open>Deserializers\<close> (\<open>services/identity/boolpolicy\<close>,
    \<open>services/identity/multisig\<close>, \<open>services/identity/x509\<close>, \<open>services/identity/deserializer\<close>,
    \<open>core/common/deserializer.go\<close>, \<open>core/fabtoken/v1/driver/deserializer.go\<close>): the policy language and
    its parser, identities made of several, ECDSA identities, and the multiplexer that turns an
    identity into a verifier, whose deserializers call the multiplexer on their components.

  \<^bold>\<open>How the model corresponds to the code.\<close> A struct is a record with the source's field names
  (prefixed where HOL or another record has the name), a method a function of the same name
  (prefixed by its type where several types have it), a Go error the left side of a sum. Slices of
  bytes are lists of 8-bit words, Go strings HOL strings, \<open>uint64\<close> and \<open>int32\<close> words of that width,
  \<open>int\<close> an integer where the code only compares it. A nil pointer is \<open>None\<close>; a dereference or an index
  that would panic is an error of its own (\<open>NilPointer\<close>, \<open>TPanic\<close>). Maps whose iteration order Go
  leaves open are lists in the order of the run, so that a theorem covers every order. State that
  methods change is passed explicitly.

  \<^bold>\<open>Parameters and hypotheses.\<close> What the sources only call is a parameter: the platform's
  read-write set, SHA-256, the protobuf and JSON codecs, certificate parsing and curve arithmetic,
  the clock, the Unicode tables outside Latin-1. Theorems state what they rely on, such as a
  collision-free hash or identifiers of one length, and their witnesses instantiate it.

  \<^bold>\<open>Bounds and fuel.\<close> \<open>Parse\<close> runs its recursive descent with fuel linear in the number of runes, and
  \<open>Parse_terminates\<close> shows that this or any larger amount returns. The multiplexer is its own parent;
  \<open>fab_des\<close> unfolds it as often as the nesting budget of the context allows, and
  \<open>deserialization_terminates\<close> shows that this satisfies the recursive equations of the code. The
  enrollment-identifier deserializer \<open>fab_eidrh\<close> takes its fuel as an argument, because the code does
  not bound its descent through scripts. All other functions are total.

  \<^bold>\<open>Not modelled.\<close> The zero-knowledge driver and the anonymous credentials rest on pairing
  libraries outside the sources. Storage, selectors, transaction views, networking, wallets and
  membership are effects on databases, other nodes and key stores, behind interfaces that the
  modelled part never calls. Of the chaincode, the query functions and the loading of parameters
  are left out; logging, metrics, contexts and locking are dropped throughout, as each modelled
  operation runs within one call.
\<close>

end
